(* ===== verification/Prelude.thy ===== *)
theory Prelude
  imports Main "HOL-Library.AList" "HOL-Library.Code_Target_Numeral"
begin

text \<open>
  Shared notation and lemmas of the development.

  A Go map is an association list with distinct keys: \<open>map_of\<close> reads it,
  \<open>AList.update\<close> writes it, \<open>AList.delete\<close> removes a key, and the order of the list
  is the order in which one \<open>range\<close> loop happens to visit the map. The Go runtime picks
  that order freely, so a lemma that holds for every list holds for every order.
  A Go string or byte slice is the list of its bytes (\<open>string\<close>), and an integer of
  Go's type \<open>int64\<close> is an \<open>int\<close> whose wrap-around is written out (theory
  \<open>Go_Std\<close>).
\<close>

named_theorems go_str \<open>rules for the string functions of the Go standard library\<close>
named_theorems gomap \<open>rules for Go maps as association lists\<close>

type_synonym 'v gomap = "(string \<times> 'v) list"

abbreviation gomap_ok :: "'v gomap \<Rightarrow> bool" where
  "gomap_ok m \<equiv> distinct (map fst m)"

abbreviation keys :: "'v gomap \<Rightarrow> string set" where
  "keys m \<equiv> fst ` set m"

section \<open>Association lists\<close>

lemma map_of_update [gomap]:
  "map_of (AList.update k v m) k' = (if k' = k then Some v else map_of m k')"
  by (simp add: AList.update_conv')

lemma map_of_delete [gomap]:
  "map_of (AList.delete k m) k' = (if k' = k then None else map_of m k')"
  by (simp add: AList.delete_conv')

lemma gomap_ok_update [gomap]: "gomap_ok m \<Longrightarrow> gomap_ok (AList.update k v m)"
  by (rule AList.distinct_update)

lemma gomap_ok_delete [gomap]: "gomap_ok m \<Longrightarrow> gomap_ok (AList.delete k m)"
  by (simp add: AList.distinct_delete)

lemma keys_dom: "keys m = dom (map_of m)"
  by (simp add: dom_map_of_conv_image_fst)

lemma keys_update [gomap]: "keys (AList.update k v m) = insert k (keys m)"
  by (auto simp: keys_dom map_of_update split: if_splits)

lemma map_of_filter_keys [gomap]:
  "map_of (filter (\<lambda>(k, _). P k) m) k = (if P k then map_of m k else None)"
  by (induction m) auto

lemma gomap_ok_filter [gomap]: "gomap_ok m \<Longrightarrow> gomap_ok (filter P m)"
  by (induction m) auto

lemma map_of_map_val [gomap]:
  "map_of (map (\<lambda>(k, v). (k, f k v)) m) k = map_option (f k) (map_of m k)"
  by (induction m) auto

section \<open>Folds that write a map\<close>

lemma fold_invariant_all:
  assumes "I s" and "\<And>x s. x \<in> set xs \<Longrightarrow> I s \<Longrightarrow> I (f x s)"
  shows "I (fold f xs s)"
  using assms by (induction xs arbitrary: s) auto

section \<open>Options\<close>

fun all_some :: "'a option list \<Rightarrow> 'a list option" where
  "all_some [] = Some []"
| "all_some (None # _) = None"
| "all_some (Some x # xs) = map_option (Cons x) (all_some xs)"

lemma all_some_None: "all_some xs = None \<longleftrightarrow> None \<in> set xs"
  by (induction xs rule: all_some.induct) auto

lemma all_some_Some: "all_some xs = Some ys \<longleftrightarrow> xs = map Some ys"
  by (induction xs arbitrary: ys rule: all_some.induct) auto

lemma all_some_map_Some [simp]: "all_some (map Some xs) = Some xs"
  by (simp add: all_some_Some)

section \<open>Examples\<close>

text \<open>Text with double quotes in examples: each \<open>~\<close> stands for one.\<close>

definition js :: "string \<Rightarrow> string" where
  "js s = map (\<lambda>c. if c = CHR ''~'' then CHR 0x22 else c) s"

end
