(* ===== verification/Go_Encoding.thy ===== *)
theory Go_Encoding
  imports Go_Std
begin

text \<open>
  \<open>encoding/hex\<close> and \<open>encoding/base64\<close> of the Go standard library, as the
  signature, session and handle code uses them.
\<close>

abbreviation byte :: "char \<Rightarrow> nat" where
  "byte c \<equiv> of_char c"

lemma byte_lt [simp]: "byte c < 256"
  by (metis nat_of_char_less_256)

section \<open>Hexadecimal\<close>

definition hex_digit :: "nat \<Rightarrow> char" where
  "hex_digit n = (if n < 10 then char_of (48 + n) else char_of (87 + n))"

definition hex_encode :: "string \<Rightarrow> string" where
  "hex_encode s = concat (map (\<lambda>c. [hex_digit (byte c div 16), hex_digit (byte c mod 16)]) s)"

lemma byte_div [simp]: "byte c div 4 < 64" "byte c div 16 < 16" "byte c div 64 < 4"
  using byte_lt [of c] by (simp_all add: div_less_iff_less_mult)

definition is_hex :: "char \<Rightarrow> bool" where
  "is_hex c \<longleftrightarrow> (48 \<le> byte c \<and> byte c \<le> 57) \<or> (97 \<le> byte c \<and> byte c \<le> 102)"

lemma hex_digit_range [simp]: "n < 16 \<Longrightarrow> is_hex (hex_digit n)"
  by (auto simp: hex_digit_def is_hex_def)

lemma hex_digit_inj: "n < 16 \<Longrightarrow> m < 16 \<Longrightarrow> hex_digit n = hex_digit m \<Longrightarrow> n = m"
  unfolding hex_digit_def
  by (drule arg_cong [where f = byte]) (auto split: if_splits)

lemma hex_encode_Nil [simp]: "hex_encode [] = []"
  by (simp add: hex_encode_def)

lemma hex_encode_Cons [simp]:
  "hex_encode (c # s) = hex_digit (byte c div 16) # hex_digit (byte c mod 16) # hex_encode s"
  by (simp add: hex_encode_def)

lemma hex_encode_chars: "d \<in> set (hex_encode s) \<Longrightarrow> is_hex d"
  by (induction s) auto

lemma hex_encode_no_newline [simp]: "CHR 0x0A \<notin> set (hex_encode s)"
  using hex_encode_chars [of "CHR 0x0A" s] by (auto simp: is_hex_def)

lemma hex_encode_inj: "hex_encode s = hex_encode t \<Longrightarrow> s = t"
proof (induction s arbitrary: t)
  case Nil
  then show ?case by (cases t) auto
next
  case (Cons c s)
  then obtain d t' where t: "t = d # t'" by (cases t) auto
  have r: "byte c div 16 < 16" "byte c mod 16 < 16" "byte d div 16 < 16" "byte d mod 16 < 16"
    by simp_all
  with Cons.prems t have "byte c div 16 = byte d div 16" "byte c mod 16 = byte d mod 16"
    by (auto intro: hex_digit_inj)
  then have "byte c = byte d" by (metis div_mult_mod_eq)
  then show ?case using Cons t by simp
qed

text \<open>The \<open>%q\<close> verb: a Go string literal.\<close>

definition go_quote_byte :: "char \<Rightarrow> string" where
  "go_quote_byte c =
     (let e = (\<lambda>x. [CHR 0x5C, x]) in
      if c = CHR 0x22 \<or> c = CHR 0x5C then e c
      else if c = CHR 0x07 then e (CHR ''a'') else if c = CHR 0x08 then e (CHR ''b'')
      else if c = CHR 0x0C then e (CHR ''f'') else if c = CHR 0x0A then e (CHR ''n'')
      else if c = CHR 0x0D then e (CHR ''r'') else if c = CHR 0x09 then e (CHR ''t'')
      else if c = CHR 0x0B then e (CHR ''v'')
      else if byte c < 32 \<or> byte c = 127 then e (CHR ''x'') @ hex_encode [c]
      else [c])"

definition go_quote :: "string \<Rightarrow> string" where
  "go_quote s = [CHR 0x22] @ concat (map go_quote_byte s) @ [CHR 0x22]"

section \<open>Base64\<close>

text \<open>
  \<open>b64_char url n\<close> is the digit for the value \<open>n < 64\<close> in the standard alphabet, or
  in the URL one; \<open>b64_val\<close> reads it back.
\<close>

definition b64_char :: "bool \<Rightarrow> nat \<Rightarrow> char" where
  "b64_char url n =
     (if n < 26 then char_of (65 + n)
      else if n < 52 then char_of (71 + n)
      else if n < 62 then char_of (n - 4)
      else if n = 62 then (if url then CHR ''-'' else CHR ''+'')
      else (if url then CHR ''_'' else CHR ''/''))"

definition b64_val :: "bool \<Rightarrow> char \<Rightarrow> nat option" where
  "b64_val url c =
     (let b = byte c in
      if 65 \<le> b \<and> b \<le> 90 then Some (b - 65)
      else if 97 \<le> b \<and> b \<le> 122 then Some (b - 71)
      else if 48 \<le> b \<and> b \<le> 57 then Some (b + 4)
      else if c = (if url then CHR ''-'' else CHR ''+'') then Some 62
      else if c = (if url then CHR ''_'' else CHR ''/'') then Some 63
      else None)"

fun b64_encode :: "bool \<Rightarrow> bool \<Rightarrow> string \<Rightarrow> string" where
  "b64_encode url pad [] = []"
| "b64_encode url pad [a] =
     [b64_char url (byte a div 4), b64_char url (byte a mod 4 * 16)] @ (if pad then ''=='' else [])"
| "b64_encode url pad [a, b] =
     [b64_char url (byte a div 4), b64_char url (byte a mod 4 * 16 + byte b div 16),
      b64_char url (byte b mod 16 * 4)] @ (if pad then ''='' else [])"
| "b64_encode url pad (a # b # c # r) =
     [b64_char url (byte a div 4), b64_char url (byte a mod 4 * 16 + byte b div 16),
      b64_char url (byte b mod 16 * 4 + byte c div 64), b64_char url (byte c mod 64)]
     @ b64_encode url pad r"

definition b64_one :: "nat \<Rightarrow> nat \<Rightarrow> string" where
  "b64_one w x = [char_of (w * 4 + x div 16)]"

definition b64_two :: "nat \<Rightarrow> nat \<Rightarrow> nat \<Rightarrow> string" where
  "b64_two w x y = [char_of (w * 4 + x div 16), char_of (x mod 16 * 16 + y div 4)]"

definition b64_three :: "nat \<Rightarrow> nat \<Rightarrow> nat \<Rightarrow> nat \<Rightarrow> string" where
  "b64_three w x y z =
     [char_of (w * 4 + x div 16), char_of (x mod 16 * 16 + y div 4), char_of (y mod 4 * 64 + z)]"

text \<open>One decoder for both forms: padded (\<open>StdEncoding\<close>) and not (\<open>RawURLEncoding\<close>).\<close>

fun b64_quads :: "bool \<Rightarrow> bool \<Rightarrow> string \<Rightarrow> string option" where
  "b64_quads url pad [] = Some []"
| "b64_quads url pad [w] = None"
| "b64_quads url pad [w, x] =
     (if pad then None
      else (case (b64_val url w, b64_val url x) of
              (Some i, Some j) \<Rightarrow> Some (b64_one i j) | _ \<Rightarrow> None))"
| "b64_quads url pad [w, x, y] =
     (if pad then None
      else (case (b64_val url w, b64_val url x, b64_val url y) of
              (Some i, Some j, Some k) \<Rightarrow> Some (b64_two i j k) | _ \<Rightarrow> None))"
| "b64_quads url pad (w # x # y # z # r) =
     (case (b64_val url w, b64_val url x, b64_val url y, b64_val url z) of
        (Some i, Some j, Some k, Some l) \<Rightarrow> map_option ((@) (b64_three i j k l)) (b64_quads url pad r)
      | (Some i, Some j, Some k, None) \<Rightarrow>
          if pad \<and> z = CHR ''='' \<and> r = [] then Some (b64_two i j k) else None
      | (Some i, Some j, None, None) \<Rightarrow>
          if pad \<and> y = CHR ''='' \<and> z = CHR ''='' \<and> r = [] then Some (b64_one i j) else None
      | _ \<Rightarrow> None)"

definition b64_decode :: "bool \<Rightarrow> bool \<Rightarrow> string \<Rightarrow> string option" where
  "b64_decode url pad s = b64_quads url pad (filter (\<lambda>c. c \<noteq> CHR 0x0A \<and> c \<noteq> CHR 0x0D) s)"

definition StdEncoding_EncodeToString :: "string \<Rightarrow> string" where
  "StdEncoding_EncodeToString = b64_encode False True"

definition StdEncoding_DecodeString :: "string \<Rightarrow> string option" where
  "StdEncoding_DecodeString = b64_decode False True"

definition RawURLEncoding_EncodeToString :: "string \<Rightarrow> string" where
  "RawURLEncoding_EncodeToString = b64_encode True False"

definition RawURLEncoding_DecodeString :: "string \<Rightarrow> string option" where
  "RawURLEncoding_DecodeString = b64_decode True False"

lemma b64_val_char [simp]: "n < 64 \<Longrightarrow> b64_val url (b64_char url n) = Some n"
  by (auto simp: b64_val_def b64_char_def Let_def)

lemma b64_val_other:
  "b64_val url (CHR 0x0A) = None" "b64_val url (CHR 0x0D) = None"
  "b64_val url (CHR ''='') = None" "b64_val url (CHR ''.'') = None"
  by (simp_all add: b64_val_def)

lemma b64_char_ne:
  assumes "n < 64"
  shows "b64_char url n \<noteq> CHR 0x0A" "b64_char url n \<noteq> CHR 0x0D" "b64_char url n \<noteq> CHR ''=''"
    "b64_char url n \<noteq> CHR ''.''"
  using assms b64_val_char [of n url] b64_val_other by (metis option.distinct(1))+

lemma b64_val_pad [simp]: "b64_val url (CHR ''='') = None"
  by (simp add: b64_val_def)

lemma b64_bounds [simp]:
  "byte a mod 4 * 16 < 64" "byte a mod 4 * 16 + byte b div 16 < 64"
  "byte b mod 16 * 4 < 64" "byte b mod 16 * 4 + byte c div 64 < 64" "byte c mod 64 < 64"
proof -
  have "byte a mod 4 < 4" "byte b mod 16 < 16" "byte b div 16 < 16" "byte c div 64 < 4"
    by simp_all
  then show "byte a mod 4 * 16 < 64" "byte a mod 4 * 16 + byte b div 16 < 64"
    "byte b mod 16 * 4 < 64" "byte b mod 16 * 4 + byte c div 64 < 64" "byte c mod 64 < 64"
    by linarith+
qed

lemma b64_quads_encode: "b64_quads url pad (b64_encode url pad s) = Some s"
  by (induction url pad s rule: b64_encode.induct)
    (simp_all add: b64_one_def b64_two_def b64_three_def)

lemma b64_encode_chars:
  "c \<in> set (b64_encode url pad s) \<Longrightarrow> c \<notin> {CHR 0x0A, CHR 0x0D, CHR ''.''} \<and> (c = CHR ''='' \<longrightarrow> pad)"
  by (induction url pad s rule: b64_encode.induct) (auto split: if_splits simp: b64_char_ne)

text \<open>Decoding inverts encoding, in every alphabet and with or without padding.\<close>

lemma b64_decode_encode: "b64_decode url pad (b64_encode url pad s) = Some s"
proof -
  have "filter (\<lambda>c. c \<noteq> CHR 0x0A \<and> c \<noteq> CHR 0x0D) (b64_encode url pad s) = b64_encode url pad s"
    using b64_encode_chars by (intro filter_True) auto
  then show ?thesis by (simp add: b64_decode_def b64_quads_encode)
qed

end
