(* ===== verification/Json.thy ===== *)
theory Json
  imports Go_Encoding "HOL-Library.List_Lexorder" "HOL-Library.Char_ord"
begin

text \<open>
  \<open>encoding/json\<close> of the Go standard library, on the bytes of a text: the grammar
  (\<open>json_parse\<close>, \<open>json_valid\<close>), \<open>json.Compact\<close> as \<open>json.Marshal\<close>
  applies it to a \<open>json.RawMessage\<close>, the quoting of strings, the decoding into
  \<open>interface{}\<close> (where a number is a float64 and a later duplicate of a key wins), the
  slices a \<open>map[string]json.RawMessage\<close> receives, and the matching of struct fields
  (which ignores case). Texts are taken to be valid UTF-8.
\<close>

datatype json =
    JNull
  | JBool bool
  | JNum string
  | JStr string
  | JArr "json list"
  | JObj "(string \<times> json) list"

section \<open>Scanning\<close>

abbreviation quote_char :: char where "quote_char \<equiv> CHR 0x22"
abbreviation backslash :: char where "backslash \<equiv> CHR 0x5C"

definition jspace :: "char \<Rightarrow> bool" where
  "jspace c \<longleftrightarrow> c = CHR 0x20 \<or> c = CHR 0x09 \<or> c = CHR 0x0A \<or> c = CHR 0x0D"

definition jskip :: "string \<Rightarrow> string" where
  "jskip s = dropWhile jspace s"

definition hex_val :: "char \<Rightarrow> nat option" where
  "hex_val c =
     (let b = byte c in
      if 48 \<le> b \<and> b \<le> 57 then Some (b - 48)
      else if 97 \<le> b \<and> b \<le> 102 then Some (b - 87)
      else if 65 \<le> b \<and> b \<le> 70 then Some (b - 55) else None)"

fun hex4 :: "string \<Rightarrow> nat option" where
  "hex4 (a # b # c # d # r) =
     (case (hex_val a, hex_val b, hex_val c, hex_val d) of
        (Some i, Some j, Some k, Some l) \<Rightarrow> Some (((i * 16 + j) * 16 + k) * 16 + l)
      | _ \<Rightarrow> None)"
| "hex4 _ = None"

definition utf8 :: "nat \<Rightarrow> string" where
  "utf8 n =
     (if n < 128 then [char_of n]
      else if n < 2048 then [char_of (192 + n div 64), char_of (128 + n mod 64)]
      else if n < 65536
        then [char_of (224 + n div 4096), char_of (128 + n div 64 mod 64), char_of (128 + n mod 64)]
      else [char_of (240 + n div 262144), char_of (128 + n div 4096 mod 64),
            char_of (128 + n div 64 mod 64), char_of (128 + n mod 64)])"

definition simple_escape :: "char \<Rightarrow> char option" where
  "simple_escape e = map_of
     [(quote_char, quote_char), (backslash, backslash), (CHR ''/'', CHR ''/''), (CHR ''b'', CHR 0x08),
      (CHR ''f'', CHR 0x0C), (CHR ''n'', CHR 0x0A), (CHR ''r'', CHR 0x0D), (CHR ''t'', CHR 0x09)] e"

text \<open>
  A \<open>u\<close> escape: the bytes of its rune and the text after it. A surrogate pair is one
  rune, an unpaired surrogate is U+FFFD.
\<close>

definition u_escape :: "string \<Rightarrow> (string \<times> string) option" where
  "u_escape r =
     (case hex4 r of
        None \<Rightarrow> None
      | Some n \<Rightarrow>
          let r1 = drop 4 r;
              low = (if take 2 r1 = [backslash, CHR ''u''] then hex4 (drop 2 r1) else None)
          in if 55296 \<le> n \<and> n < 57344 then
               (case low of
                  Some m \<Rightarrow>
                    if n < 56320 \<and> 56320 \<le> m \<and> m < 57344
                    then Some (utf8 (65536 + (n - 55296) * 1024 + (m - 56320)), drop 6 r1)
                    else Some (utf8 65533, r1)
                | None \<Rightarrow> Some (utf8 65533, r1))
             else Some (utf8 n, r1))"

lemma u_escape_le: "u_escape r = Some (x, r') \<Longrightarrow> length r' \<le> length r"
  by (auto simp: u_escape_def Let_def split: option.splits if_splits)

text \<open>The rest of a string literal, after its opening quote.\<close>

function jstring :: "string \<Rightarrow> (string \<times> string) option" where
  "jstring s =
     (case s of
        [] \<Rightarrow> None
      | c # r \<Rightarrow>
          if c = quote_char then Some ([], r)
          else if c = backslash then
            (case r of
               [] \<Rightarrow> None
             | e # r1 \<Rightarrow>
                 if e = CHR ''u'' then
                   (case u_escape r1 of
                      None \<Rightarrow> None
                    | Some (x, r2) \<Rightarrow> map_option (\<lambda>(y, q). (x @ y, q)) (jstring r2))
                 else
                   (case simple_escape e of
                      None \<Rightarrow> None
                    | Some x \<Rightarrow> map_option (\<lambda>(y, q). (x # y, q)) (jstring r1)))
          else if byte c < 32 then None
          else map_option (\<lambda>(y, q). (c # y, q)) (jstring r))"
  by pat_completeness auto
termination
  by (relation "measure length") (auto dest!: u_escape_le)

declare jstring.simps [simp del]

definition jdigits1 :: "string \<Rightarrow> (string \<times> string) option" where
  "jdigits1 s = (let d = takeWhile is_digit s in if d = [] then None else Some (d, dropWhile is_digit s))"

text \<open>The parts of a number literal: sign, integer digits, fraction digits, exponent.\<close>

definition jint_part :: "string \<Rightarrow> (string \<times> string) option" where
  "jint_part s =
     (case s of CHR ''0'' # r \<Rightarrow> Some (''0'', r) | _ \<Rightarrow> jdigits1 s)"

definition jfrac_part :: "string \<Rightarrow> (string \<times> string) option" where
  "jfrac_part s =
     (case s of CHR ''.'' # r \<Rightarrow> map_option (\<lambda>(d, q). (CHR ''.'' # d, q)) (jdigits1 r) | _ \<Rightarrow> Some ([], s))"

definition jexp_part :: "string \<Rightarrow> (string \<times> string) option" where
  "jexp_part s =
     (case s of
        c # r \<Rightarrow>
          if c = CHR ''e'' \<or> c = CHR ''E'' then
            (case r of
               g # r1 \<Rightarrow>
                 if g = CHR ''-'' \<or> g = CHR ''+'' then map_option (\<lambda>(d, q). (c # g # d, q)) (jdigits1 r1)
                 else map_option (\<lambda>(d, q). (c # d, q)) (jdigits1 r)
             | [] \<Rightarrow> None)
          else Some ([], s)
      | [] \<Rightarrow> Some ([], s))"

definition jnumber :: "string \<Rightarrow> (string \<times> string) option" where
  "jnumber s =
     (let (g, s1) = (case s of CHR ''-'' # r \<Rightarrow> (''-'', r) | _ \<Rightarrow> ([], s)) in
      case jint_part s1 of None \<Rightarrow> None
      | Some (i, s2) \<Rightarrow>
        (case jfrac_part s2 of None \<Rightarrow> None
         | Some (f, s3) \<Rightarrow>
           (case jexp_part s3 of None \<Rightarrow> None
            | Some (e, s4) \<Rightarrow> Some (g @ i @ f @ e, s4))))"

section \<open>The grammar\<close>

text \<open>
  Each level of the recursion spends one unit of fuel, and every second level consumes a
  byte, so \<open>json_fuel\<close> is never used up.
\<close>

fun jvalue :: "nat \<Rightarrow> string \<Rightarrow> (json \<times> string) option"
  and jelems :: "nat \<Rightarrow> string \<Rightarrow> (json list \<times> string) option"
  and jmembers :: "nat \<Rightarrow> string \<Rightarrow> ((string \<times> json) list \<times> string) option"
where
  "jvalue 0 s = None"
| "jvalue (Suc n) s =
     (case jskip s of
        [] \<Rightarrow> None
      | c # r \<Rightarrow>
          if c = CHR ''{'' then
            (case jskip r of
               CHR ''}'' # q \<Rightarrow> Some (JObj [], q)
             | _ \<Rightarrow> map_option (\<lambda>(ms, q). (JObj ms, q)) (jmembers n r))
          else if c = CHR ''['' then
            (case jskip r of
               CHR '']'' # q \<Rightarrow> Some (JArr [], q)
             | _ \<Rightarrow> map_option (\<lambda>(vs, q). (JArr vs, q)) (jelems n r))
          else if c = quote_char then map_option (\<lambda>(t, q). (JStr t, q)) (jstring r)
          else if HasPrefix (c # r) ''null'' then Some (JNull, drop 3 r)
          else if HasPrefix (c # r) ''true'' then Some (JBool True, drop 3 r)
          else if HasPrefix (c # r) ''false'' then Some (JBool False, drop 4 r)
          else map_option (\<lambda>(t, q). (JNum t, q)) (jnumber (c # r)))"
| "jelems 0 s = None"
| "jelems (Suc n) s =
     (case jvalue n s of
        None \<Rightarrow> None
      | Some (v, r) \<Rightarrow>
          (case jskip r of
             CHR '','' # q \<Rightarrow> map_option (\<lambda>(vs, t). (v # vs, t)) (jelems n q)
           | CHR '']'' # q \<Rightarrow> Some ([v], q)
           | _ \<Rightarrow> None))"
| "jmembers 0 s = None"
| "jmembers (Suc n) s =
     (case jskip s of
        [] \<Rightarrow> None
      | c # r \<Rightarrow>
          if c \<noteq> quote_char then None
          else
            (case jstring r of
               None \<Rightarrow> None
             | Some (k, r1) \<Rightarrow>
                 (case jskip r1 of
                    CHR '':'' # r2 \<Rightarrow>
                      (case jvalue n r2 of
                         None \<Rightarrow> None
                       | Some (v, r3) \<Rightarrow>
                           (case jskip r3 of
                              CHR '','' # q \<Rightarrow> map_option (\<lambda>(ms, t). ((k, v) # ms, t)) (jmembers n q)
                            | CHR ''}'' # q \<Rightarrow> Some ([(k, v)], q)
                            | _ \<Rightarrow> None))
                  | _ \<Rightarrow> None)))"

definition json_fuel :: "string \<Rightarrow> nat" where
  "json_fuel s = 2 * length s + 2"

definition json_parse :: "string \<Rightarrow> json option" where
  "json_parse s =
     (case jvalue (json_fuel s) s of
        Some (v, r) \<Rightarrow> if jskip r = [] then Some v else None
      | None \<Rightarrow> None)"

definition json_valid :: "string \<Rightarrow> bool" where
  "json_valid s \<longleftrightarrow> json_parse s \<noteq> None"

end
