(* ===== verification/Json_Decode.thy ===== *)
theory Json_Decode
  imports Json
begin

text \<open>
  What \<open>json.Unmarshal\<close> and \<open>json.Marshal\<close> do with a text once it is known to be
  valid: float64 numbers, \<open>interface{}\<close> values, raw slices, struct fields, quoting and
  compaction.
\<close>

section \<open>Numbers as float64\<close>

fun ilog2 :: "nat \<Rightarrow> nat" where
  "ilog2 n = (if n < 2 then 0 else Suc (ilog2 (n div 2)))"

declare ilog2.simps [simp del]

text \<open>
  \<open>f64_round n d\<close> is the float64 nearest to \<open>n / d\<close>, ties to even, as mantissa and
  exponent of two; \<open>None\<close> on overflow, where \<open>strconv.ParseFloat\<close> reports a range
  error and \<open>json.Unmarshal\<close> fails.
\<close>

definition f64_round :: "nat \<Rightarrow> nat \<Rightarrow> (nat \<times> int) option" where
  "f64_round n d =
     (if n = 0 then Some (0, -1074)
      else
        (let k = int (ilog2 n) - int (ilog2 d);
             ge = (if 0 \<le> k then d * 2 ^ nat k \<le> n else d \<le> n * 2 ^ nat (- k));
             e = max ((if ge then k else k - 1) - 52) (-1074);
             num = (if 0 \<le> e then n else n * 2 ^ nat (- e));
             den = (if 0 \<le> e then d * 2 ^ nat e else d);
             q = num div den; r = num mod den;
             m = (if 2 * r > den \<or> 2 * r = den \<and> odd q then q + 1 else q);
             (m', e') = (if m = 2 ^ 53 then (2 ^ 52, e + 1) else (m, e))
         in if e' > 971 then None else Some (m', e')))"

definition num_f64 :: "string \<Rightarrow> (bool \<times> nat \<times> int) option" where
  "num_f64 s =
     (let neg = (s \<noteq> [] \<and> hd s = CHR ''-'');
          s1 = (if neg then tl s else s);
          ip = takeWhile is_digit s1; s2 = dropWhile is_digit s1;
          fp = (if s2 \<noteq> [] \<and> hd s2 = CHR ''.'' then takeWhile is_digit (tl s2) else []);
          s3 = (if s2 \<noteq> [] \<and> hd s2 = CHR ''.'' then dropWhile is_digit (tl s2) else s2);
          (eneg, ed) = (if s3 = [] then (False, []) else signed_digits (tl s3));
          e = (if eneg then - int (digits_val ed) else int (digits_val ed)) - int (length fp);
          m = digits_val (ip @ fp)
      in map_option (Pair neg)
           (if 0 \<le> e then f64_round (m * 10 ^ nat e) 1 else f64_round m (10 ^ nat (- e))))"

section \<open>Decoding into interface{}\<close>

datatype iface =
    INil
  | IBool bool
  | IFloat "bool \<times> nat \<times> int"
  | IString string
  | IArray "iface list"
  | IMap "(string \<times> iface) list"

text \<open>
  A decoded object is a Go map: a later duplicate of a key wins. It is kept sorted by key,
  the order in which \<open>json.Marshal\<close> writes it.
\<close>

fun ins_key :: "string \<Rightarrow> 'v \<Rightarrow> 'v gomap \<Rightarrow> 'v gomap" where
  "ins_key k v [] = [(k, v)]"
| "ins_key k v ((k', v') # m) =
     (if k = k' then (k, v) # m else if k < k' then (k, v) # (k', v') # m
      else (k', v') # ins_key k v m)"

definition sort_members :: "'v gomap \<Rightarrow> 'v gomap" where
  "sort_members ms = fold (\<lambda>(k, v) m. ins_key k v m) ms []"

fun to_iface :: "json \<Rightarrow> iface option" where
  "to_iface JNull = Some INil"
| "to_iface (JBool b) = Some (IBool b)"
| "to_iface (JNum s) = map_option IFloat (num_f64 s)"
| "to_iface (JStr s) = Some (IString s)"
| "to_iface (JArr vs) = map_option IArray (all_some (map to_iface vs))"
| "to_iface (JObj ms) =
     map_option (\<lambda>vs. IMap (sort_members (zip (map fst ms) vs)))
       (all_some (map (\<lambda>m. to_iface (snd m)) ms))"

text \<open>\<open>json.Unmarshal(data, &v)\<close> for a \<open>v interface{}\<close>.\<close>

definition unmarshal_iface :: "string \<Rightarrow> iface option" where
  "unmarshal_iface s = Option.bind (json_parse s) to_iface"

text \<open>\<open>json.Unmarshal(data, &m)\<close> for a \<open>m map[string]interface{}\<close>; null is the nil map.\<close>

definition unmarshal_map :: "string \<Rightarrow> iface gomap option" where
  "unmarshal_map s =
     (case unmarshal_iface s of
        Some (IMap m) \<Rightarrow> Some m
      | Some INil \<Rightarrow> Some []
      | _ \<Rightarrow> None)"

section \<open>Raw slices\<close>

text \<open>
  The bytes of the value at the head of a text, and the text after it: what
  \<open>json.RawMessage\<close> holds.
\<close>

definition raw_value :: "string \<Rightarrow> (string \<times> string) option" where
  "raw_value s =
     (let t = jskip s in
      map_option (\<lambda>(_, r). (take (length t - length r) t, r)) (jvalue (json_fuel t) t))"

fun raw_members :: "nat \<Rightarrow> string \<Rightarrow> string gomap option" where
  "raw_members 0 s = None"
| "raw_members (Suc n) s =
     (case jskip s of
        [] \<Rightarrow> None
      | c # r \<Rightarrow>
          if c \<noteq> quote_char then None
          else
            (case jstring r of
               None \<Rightarrow> None
             | Some (k, r1) \<Rightarrow>
                 (case raw_value (tl (jskip r1)) of
                    None \<Rightarrow> None
                  | Some (v, r2) \<Rightarrow>
                      (case jskip r2 of
                         CHR '','' # q \<Rightarrow> map_option (Cons (k, v)) (raw_members n q)
                       | _ \<Rightarrow> Some [(k, v)]))))"

text \<open>
  The members of a valid text that is an object, in its order, each value as its bytes;
  \<open>[]\<close> for null; \<open>None\<close> for a text that is no object, where a Go map or struct
  cannot be decoded.
\<close>

definition raw_object :: "string \<Rightarrow> string gomap option" where
  "raw_object s =
     (case json_parse s of
        Some (JObj []) \<Rightarrow> Some []
      | Some (JObj _) \<Rightarrow> raw_members (length s) (tl (jskip s))
      | Some JNull \<Rightarrow> Some []
      | _ \<Rightarrow> None)"

section \<open>Struct fields\<close>

text \<open>
  A member decodes into the field whose name it equals when case is ignored; the members are
  taken in order, so that the last one stands.
\<close>

definition fold_eq :: "string \<Rightarrow> string \<Rightarrow> bool" where
  "fold_eq a b \<longleftrightarrow> ToLower a = ToLower b"

definition dec_field :: "string \<Rightarrow> ('a \<Rightarrow> 'b \<Rightarrow> 'b option) \<Rightarrow> 'b \<Rightarrow> 'a gomap \<Rightarrow> 'b option" where
  "dec_field name f init ms =
     fold (\<lambda>(k, v) acc. if fold_eq k name then Option.bind acc (f v) else acc) ms (Some init)"

text \<open>Fields of Go types: a mismatch of kinds is an error, null changes nothing.\<close>

definition dec_string :: "json \<Rightarrow> string \<Rightarrow> string option" where
  "dec_string v old = (case v of JStr s \<Rightarrow> Some s | JNull \<Rightarrow> Some old | _ \<Rightarrow> None)"

definition dec_int :: "json \<Rightarrow> int \<Rightarrow> int option" where
  "dec_int v old = (case v of JNum s \<Rightarrow> ParseInt s | JNull \<Rightarrow> Some old | _ \<Rightarrow> None)"

definition dec_bool :: "json \<Rightarrow> bool \<Rightarrow> bool option" where
  "dec_bool v old = (case v of JBool b \<Rightarrow> Some b | JNull \<Rightarrow> Some old | _ \<Rightarrow> None)"

definition dec_strings :: "json \<Rightarrow> string list \<Rightarrow> string list option" where
  "dec_strings v old =
     (case v of
        JArr vs \<Rightarrow> all_some (map (\<lambda>x. dec_string x []) vs)
      | JNull \<Rightarrow> Some []
      | _ \<Rightarrow> None)"

text \<open>The same for a member that is kept as its bytes.\<close>

definition parse_raw :: "(json \<Rightarrow> 'b \<Rightarrow> 'b option) \<Rightarrow> string \<Rightarrow> 'b \<Rightarrow> 'b option" where
  "parse_raw f x old = Option.bind (json_parse x) (\<lambda>v. f v old)"

section \<open>Marshalling\<close>

text \<open>
  \<open>json.Marshal\<close> escapes \<open><\<close>, \<open>>\<close>, \<open>&\<close>, U+2028 and U+2029 in every string it
  writes or compacts.
\<close>

definition u00 :: "char \<Rightarrow> string" where
  "u00 c = [backslash, CHR ''u'', CHR ''0'', CHR ''0''] @ hex_encode [c]"

fun html_escape :: "string \<Rightarrow> string" where
  "html_escape [] = []"
| "html_escape (c # r) =
     (if c = CHR ''<'' \<or> c = CHR ''>'' \<or> c = CHR ''&'' then u00 c @ html_escape r
      else if c = CHR 0xE2 \<and> (\<exists>x. x \<in> {CHR 0xA8, CHR 0xA9} \<and> take 2 r = [CHR 0x80, x])
      then [backslash] @ ''u202'' @ [if r ! 1 = CHR 0xA8 then CHR ''8'' else CHR ''9''] @ html_escape (drop 2 r)
      else c # html_escape r)"

definition quote_byte :: "char \<Rightarrow> string" where
  "quote_byte c =
     (if c = quote_char \<or> c = backslash then [backslash, c]
      else if c = CHR 0x08 then [backslash, CHR ''b'']
      else if c = CHR 0x0C then [backslash, CHR ''f'']
      else if c = CHR 0x0A then [backslash, CHR ''n'']
      else if c = CHR 0x0D then [backslash, CHR ''r'']
      else if c = CHR 0x09 then [backslash, CHR ''t'']
      else if byte c < 32 then u00 c else [c])"

definition json_quote :: "string \<Rightarrow> string" where
  "json_quote s = [quote_char] @ html_escape (concat (map quote_byte s)) @ [quote_char]"

text \<open>White space outside strings removed.\<close>

fun strip_spaces :: "bool \<Rightarrow> string \<Rightarrow> string" where
  "strip_spaces b [] = []"
| "strip_spaces False (c # r) =
     (if c = quote_char then c # strip_spaces True r
      else if jspace c then strip_spaces False r else c # strip_spaces False r)"
| "strip_spaces True (c # r) =
     (if c = backslash then
        (case r of [] \<Rightarrow> [c] | e # q \<Rightarrow> c # e # strip_spaces True q)
      else if c = quote_char then c # strip_spaces False r
      else c # strip_spaces True r)"

definition json_compact :: "string \<Rightarrow> string" where
  "json_compact s = html_escape (strip_spaces False s)"

type_synonym raw = "string option" \<comment> \<open>a \<open>json.RawMessage\<close>; \<open>None\<close> is nil\<close>

definition raw_len :: "raw \<Rightarrow> nat" where
  "raw_len r = (case r of None \<Rightarrow> 0 | Some b \<Rightarrow> length b)"

definition raw_bytes :: "raw \<Rightarrow> string" where
  "raw_bytes r = (case r of None \<Rightarrow> [] | Some b \<Rightarrow> b)"

text \<open>
  \<open>RawMessage.MarshalJSON\<close>: nil is null, and the bytes of any other message must be a
  valid text, or \<open>json.Marshal\<close> fails.
\<close>

definition marshal_raw :: "raw \<Rightarrow> string option" where
  "marshal_raw r =
     (case r of None \<Rightarrow> Some ''null'' | Some b \<Rightarrow> if json_valid b then Some (json_compact b) else None)"

definition obj_text :: "string gomap \<Rightarrow> string" where
  "obj_text ms = ''{'' @ Join (map (\<lambda>(k, v). json_quote k @ '':'' @ v) ms) '','' @ ''}''"

text \<open>\<open>fort-provider\<close>'s error bodies: \<open>json.NewEncoder(w).Encode(map[string]string{...})\<close>.\<close>

definition error_body :: "string \<Rightarrow> string" where
  "error_body msg = obj_text [(''error'', json_quote msg)] @ [CHR 0x0A]"

section \<open>Facts\<close>

lemma raw_len_bytes: "raw_len r = length (raw_bytes r)"
  by (simp add: raw_len_def raw_bytes_def split: option.splits)

lemma json_invalid_empty [simp]: "\<not> json_valid []"
  by (simp add: json_valid_def json_parse_def json_fuel_def jskip_def)

lemma ins_key_map_of: "map_of (ins_key k v m) k' = (if k' = k then Some v else map_of m k')"
  by (induction k v m rule: ins_key.induct) auto

lemma ins_key_keys: "keys (ins_key k v m) = insert k (keys m)"
  by (induction k v m rule: ins_key.induct) auto

lemma ins_key_inv:
  "sorted (map fst m) \<and> gomap_ok m \<Longrightarrow> sorted (map fst (ins_key k v m)) \<and> gomap_ok (ins_key k v m)"
proof (induction k v m rule: ins_key.induct)
  case (1 k v)
  then show ?case by simp
next
  case (2 k v k' v' m)
  note ks = ins_key_keys [of k v m]
  consider "k = k'" | "k < k'" | "k' < k" by (rule linorder_cases)
  then show ?case
  proof cases
    case 3
    then have ne: "k \<noteq> k'" "\<not> k < k'" by (auto dest: less_asym)
    then have "ins_key k v ((k', v') # m) = (k', v') # ins_key k v m" by simp
    moreover have "sorted (map fst (ins_key k v m)) \<and> gomap_ok (ins_key k v m)"
      using 2(1) [OF ne] 2(2) by simp
    moreover have "\<forall>x\<in>fst ` set (ins_key k v m). k' \<le> x \<and> k' \<noteq> x"
      unfolding ks using 2(2) 3 by auto
    ultimately show ?thesis by auto
  qed (use 2(2) in auto)
qed

lemma sort_members_inv:
  "sorted (map fst (fold (\<lambda>(k, v) m. ins_key k v m) ms m)) \<and> gomap_ok (fold (\<lambda>(k, v) m. ins_key k v m) ms m)"
  if "sorted (map fst m)" "gomap_ok m"
  using that by (induction ms arbitrary: m) (auto simp: ins_key_inv)

lemma sort_members_sorted: "sorted (map fst (sort_members ms))" "gomap_ok (sort_members ms)"
  using sort_members_inv [of "[]" ms] by (simp_all add: sort_members_def)

lemma fold_ins_key_map_of:
  "map_of (fold (\<lambda>(k, v) m. ins_key k v m) ms m) k = (case map_of (rev ms) k of None \<Rightarrow> map_of m k | Some v \<Rightarrow> Some v)"
  by (induction ms arbitrary: m) (auto simp: ins_key_map_of map_add_def split: option.splits)

text \<open>The last duplicate of a key wins.\<close>

lemma sort_members_map_of: "map_of (sort_members ms) k = map_of (rev ms) k"
  by (simp add: sort_members_def fold_ins_key_map_of split: option.splits)

end
