(* ===== verification/Go_Time.thy ===== *)
theory Go_Time
  imports Go_Std
begin

text \<open>
  \<open>time.Time\<close> and \<open>time.Duration\<close>. An instant is its distance from the Unix epoch in
  nanoseconds, an \<open>int\<close>; a duration is an int64 number of nanoseconds, whose arithmetic
  wraps. Two parts of the documented behaviour matter to the programs here:
  \<open>Time.Sub\<close> saturates at the smallest and the largest duration, and
  \<open>time.Unix\<close> keeps the seconds as an int64 count from the year 1, so that seconds near
  the largest int64 wrap.
\<close>

definition wrap64 :: "int \<Rightarrow> int" where
  "wrap64 x = (x + 2 ^ 63) mod 2 ^ 64 - 2 ^ 63"

lemma wrap64_ok [simp]: "int64_ok (wrap64 x)"
  by (simp add: wrap64_def int64_ok_def)

lemma wrap64_id [simp]: "int64_ok x \<Longrightarrow> wrap64 x = x"
  by (simp add: wrap64_def int64_ok_def)

lemma wrap64_shift: "wrap64 x = wrap64 (x - 2 ^ 64)"
proof -
  have "x + 2 ^ 63 = (x - 2 ^ 64 + 2 ^ 63) + 2 ^ 64" by simp
  then have "(x + 2 ^ 63) mod 2 ^ 64 = (x - 2 ^ 64 + 2 ^ 63) mod (2 ^ 64 :: int)"
    by (metis mod_add_self2)
  then show ?thesis by (simp add: wrap64_def)
qed

abbreviation minDuration :: int where "minDuration \<equiv> - (2 ^ 63)"
abbreviation maxDuration :: int where "maxDuration \<equiv> 2 ^ 63 - 1"

abbreviation Second :: int where "Second \<equiv> 1000000000"
abbreviation Minute :: int where "Minute \<equiv> 60000000000"
abbreviation Hour :: int where "Hour \<equiv> 3600000000000"

type_synonym gotime = int

definition unixToInternal :: int where
  "unixToInternal = 62135596800"

definition Unix :: "int \<Rightarrow> gotime" where
  "Unix sec = Second * (wrap64 (sec + unixToInternal) - unixToInternal)"

definition toUnix :: "gotime \<Rightarrow> int" where
  "toUnix t = t div Second"

definition Sub :: "gotime \<Rightarrow> gotime \<Rightarrow> int" where
  "Sub t u = (if t - u < minDuration then minDuration
              else if t - u > maxDuration then maxDuration else t - u)"

definition neg_duration :: "int \<Rightarrow> int" where
  "neg_duration d = wrap64 (- d)"

definition mul_duration :: "int \<Rightarrow> int \<Rightarrow> int" where
  "mul_duration a b = wrap64 (a * b)"

lemma Sub_ok [simp]: "int64_ok (Sub t u)"
  by (simp add: Sub_def int64_ok_def)

lemma Sub_exact: "int64_ok (t - u) \<Longrightarrow> Sub t u = t - u"
  by (auto simp: Sub_def int64_ok_def)

lemma neg_duration_min [simp]: "neg_duration minDuration = minDuration"
  by (simp add: neg_duration_def wrap64_def)

lemma neg_duration_pos: "int64_ok d \<Longrightarrow> d \<noteq> minDuration \<Longrightarrow> neg_duration d = - d"
  unfolding neg_duration_def by (rule wrap64_id) (simp add: int64_ok_def)

lemma Unix_small:
  "int64_ok sec \<Longrightarrow> sec < 2 ^ 63 - unixToInternal \<Longrightarrow> Unix sec = Second * sec"
  by (simp add: Unix_def unixToInternal_def int64_ok_def)

lemma Unix_wrapped:
  assumes "int64_ok sec" and "2 ^ 63 - unixToInternal \<le> sec"
  shows "Unix sec = Second * (sec - 2 ^ 64)"
proof -
  have "wrap64 (sec + unixToInternal) = wrap64 (sec + unixToInternal - 2 ^ 64)"
    by (rule wrap64_shift)
  also have "\<dots> = sec + unixToInternal - 2 ^ 64"
    using assms by (intro wrap64_id) (auto simp: int64_ok_def unixToInternal_def)
  finally show ?thesis by (simp add: Unix_def)
qed

section \<open>time.ParseDuration\<close>

definition duration_unit :: "string \<Rightarrow> nat option" where
  "duration_unit u = map_of
     [(''ns'', 1), (''us'', 1000), (''ms'', 1000000), (''s'', 1000000000),
      (''m'', 60000000000), (''h'', 3600000000000)] u"

text \<open>
  One term of a duration text (\<open>1.5h\<close>): its nanoseconds and the rest of the text. A
  fraction counts its whole nanoseconds.
\<close>

definition fraction_digits :: "string \<Rightarrow> string \<times> string" where
  "fraction_digits r =
     (if r \<noteq> [] \<and> hd r = CHR ''.'' then (takeWhile is_digit (tl r), dropWhile is_digit (tl r))
      else ([], r))"

definition unit_char :: "char \<Rightarrow> bool" where
  "unit_char c \<longleftrightarrow> c \<noteq> CHR ''.'' \<and> \<not> is_digit c"

definition duration_term :: "string \<Rightarrow> (nat \<times> string) option" where
  "duration_term s =
     (let ds = takeWhile is_digit s in
      case fraction_digits (dropWhile is_digit s) of (fs, r) \<Rightarrow>
        if ds = [] \<and> fs = [] then None
        else map_option
               (\<lambda>un. (digits_val ds * un + digits_val fs * un div 10 ^ length fs, dropWhile unit_char r))
               (duration_unit (takeWhile unit_char r)))"

lemma duration_term_shorter:
  assumes "duration_term s = Some (v, r)"
  shows "length r < length s"
proof -
  obtain fs r2 where f: "fraction_digits (dropWhile is_digit s) = (fs, r2)"
    by (cases "fraction_digits (dropWhile is_digit s)")
  with assms have r: "r = dropWhile unit_char r2" and "duration_unit (takeWhile unit_char r2) \<noteq> None"
    by (auto simp: duration_term_def Let_def split: if_splits)
  then have "takeWhile unit_char r2 \<noteq> []" by (auto simp: duration_unit_def split: if_splits)
  then have "length r < length r2"
    unfolding r by (cases r2) (auto simp: le_imp_less_Suc length_dropWhile_le split: if_splits)
  also have "length r2 \<le> length (dropWhile is_digit s)"
    using f by (auto simp: fraction_digits_def split: if_splits
        intro: order_trans [OF length_dropWhile_le])
  also have "\<dots> \<le> length s" by (rule length_dropWhile_le)
  finally show ?thesis .
qed

text \<open>The terms, summed; \<open>None\<close> where Go returns an error.\<close>

function duration_terms :: "nat \<Rightarrow> string \<Rightarrow> nat option" where
  "duration_terms d s =
     (if s = [] then Some d
      else (case duration_term s of
          None \<Rightarrow> None
        | Some (v, r) \<Rightarrow> if d + v > 2 ^ 63 then None else duration_terms (d + v) r))"
  by pat_completeness auto
termination
  by (relation "measure (length \<circ> snd)") (auto dest: duration_term_shorter)

declare duration_terms.simps [simp del]

lemma duration_terms_le: "duration_terms d s = Some e \<Longrightarrow> d \<le> 2 ^ 63 \<Longrightarrow> e \<le> 2 ^ 63"
proof (induction d s rule: duration_terms.induct)
  case (1 d s)
  from "1.prems" show ?case
    by (subst (asm) duration_terms.simps) (auto simp: not_less split: if_splits option.splits dest: "1.IH")
qed

definition ParseDuration :: "string \<Rightarrow> int option" where
  "ParseDuration s =
     (case signed_digits s of (neg, r) \<Rightarrow>
        if r = ''0'' then Some 0
        else if r = [] then None
        else (case duration_terms 0 r of
            None \<Rightarrow> None
          | Some d \<Rightarrow> if neg then Some (- int d) else if d > 2 ^ 63 - 1 then None else Some (int d)))"

lemma ParseDuration_ok: "ParseDuration s = Some d \<Longrightarrow> int64_ok d"
  by (auto simp: ParseDuration_def int64_ok_def split: prod.splits if_splits option.splits
      dest!: duration_terms_le)

lemma ParseDuration_5m: "ParseDuration ''5m'' = Some (5 * Minute)"
  by (simp add: ParseDuration_def signed_digits_def duration_terms.simps duration_term_def
      fraction_digits_def unit_char_def is_digit_def duration_unit_def digits_val_def digit_val_def)

end
