(* ===== verification/Provider_State.thy ===== *)
theory Provider_State
  imports Json_Decode Go_Time
begin

text \<open>
  The data of \<open>pkgs/fort-provider/main.go\<close> and the operations on its provider state:
  the configuration records, the state keys (\<open>extractNeedID\<close>, \<open>makeStateKey\<close>,
  \<open>parseStateKey\<close>), \<open>needIDToPath\<close>, the comparison of JSON texts
  (\<open>jsonEqual\<close>), the parsing of handler output, and recording, updating, reading and
  saving entries.
\<close>

section \<open>Configuration and state\<close>

record TriggerConfig =
  Initialize :: bool
  Systemd :: "string list"

record CapabilityConfig =
  NeedsGC :: bool
  TTL :: int
  Mode :: string
  CacheResponse :: bool
  Triggers :: TriggerConfig
  Format :: string

text \<open>The zero value of the struct: what reading an absent key of \<open>h.capabilities\<close> gives.\<close>

definition zero_CapabilityConfig :: CapabilityConfig where
  "zero_CapabilityConfig =
     \<lparr>NeedsGC = False, TTL = 0, Mode = [], CacheResponse = False,
      Triggers = \<lparr>Initialize = False, Systemd = []\<rparr>, Format = []\<rparr>"

record NeedConfig =
  NeedID :: string
  NeedCapability :: string
  From :: string
  Handler :: string
  NagSeconds :: int

record ProviderStateEntry =
  Request :: raw
  Response :: raw
  UpdatedAt :: int

type_synonym CapState = "ProviderStateEntry gomap"
type_synonym ProviderState = "CapState gomap"

definition zero_entry :: ProviderStateEntry where
  "zero_entry = \<lparr>Request = None, Response = None, UpdatedAt = 0\<rparr>"

text \<open>\<open>h.providerState[capability]\<close>: a missing map reads as the nil map, which is empty.\<close>

definition getProviderState :: "ProviderState \<Rightarrow> string \<Rightarrow> CapState" where
  "getProviderState ps capability = (case map_of ps capability of None \<Rightarrow> [] | Some m \<Rightarrow> m)"

definition capability_config :: "CapabilityConfig gomap \<Rightarrow> string \<Rightarrow> CapabilityConfig" where
  "capability_config caps capability =
     (case map_of caps capability of None \<Rightarrow> zero_CapabilityConfig | Some c \<Rightarrow> c)"

section \<open>State keys\<close>

definition needIDKey :: string where
  "needIDKey = ''_fort_need_id''"

definition extractNeedID :: "raw \<Rightarrow> string" where
  "extractNeedID request =
     (case unmarshal_map (raw_bytes request) of
        None \<Rightarrow> []
      | Some req \<Rightarrow> (case map_of req needIDKey of Some (IString needID) \<Rightarrow> needID | _ \<Rightarrow> []))"

definition makeStateKey :: "string \<Rightarrow> raw \<Rightarrow> string" where
  "makeStateKey origin request =
     (let needID = extractNeedID request
      in if needID \<noteq> [] then origin @ CHR '':'' # needID else origin)"

definition parseStateKey :: "string \<Rightarrow> string \<times> string" where
  "parseStateKey key =
     (case SplitN2 (CHR '':'') key of
        (origin, None) \<Rightarrow> (origin, [])
      | (origin, Some needID) \<Rightarrow> (origin, needID))"

definition needIDToPath :: "string \<Rightarrow> string \<Rightarrow> string" where
  "needIDToPath capName needID =
     (let prefix = capName @ ''-'' in
      if HasPrefix needID prefix then capName @ ''/'' @ TrimPrefix needID prefix
      else (case split_last (CHR ''-'') needID of
              None \<Rightarrow> needID
            | Some (a, b) \<Rightarrow> a @ ''/'' @ b))"

section \<open>Comparing and parsing JSON\<close>

text \<open>
  The two values are compared through \<open>json.Marshal\<close>, which is injective on decoded
  values: it sorts the keys of a map and writes a float64 by its shortest decimal, so the
  texts agree exactly when the values do.
\<close>

definition jsonEqual :: "string \<Rightarrow> string \<Rightarrow> bool" where
  "jsonEqual a b =
     (if length a = 0 \<and> length b = 0 then True
      else if length a = 0 \<or> length b = 0 then False
      else if a = b then True
      else
        (case unmarshal_iface a of
           None \<Rightarrow> False
         | Some aVal \<Rightarrow>
             (case unmarshal_iface b of None \<Rightarrow> False | Some bVal \<Rightarrow> aVal = bVal)))"

text \<open>
  A map decoded from the members of an object: a later duplicate replaces an earlier one.
\<close>

definition go_map_of_members :: "(string \<times> 'v) list \<Rightarrow> 'v gomap" where
  "go_map_of_members ms = fold (\<lambda>(k, v) m. AList.update k v m) ms []"

type_synonym AsyncHandlerOutput = "raw gomap"

text \<open>
  One element of the symmetric output: an object, whose \<open>response\<close> member is kept as its
  bytes; null is the zero struct, whose response is nil.
\<close>

definition symmetric_response :: "string \<Rightarrow> raw option" where
  "symmetric_response v =
     (case raw_object v of
        None \<Rightarrow> None
      | Some ms \<Rightarrow> dec_field ''response'' (\<lambda>x _. Some (Some x)) None ms)"

definition parseHandlerOutput :: "string \<Rightarrow> string \<Rightarrow> AsyncHandlerOutput option" where
  "parseHandlerOutput data format =
     (case raw_object data of
        None \<Rightarrow> None
      | Some ms \<Rightarrow>
          if format = ''symmetric'' then
            map_option (\<lambda>vs. go_map_of_members (zip (map fst ms) vs))
              (all_some (map (\<lambda>m. symmetric_response (snd m)) ms))
          else Some (go_map_of_members (map (\<lambda>(k, v). (k, Some v)) ms)))"

section \<open>Recording and updating entries\<close>

definition recordProviderRequest ::
  "ProviderState \<Rightarrow> string \<Rightarrow> string \<Rightarrow> raw \<Rightarrow> int \<Rightarrow> ProviderState \<times> string" where
  "recordProviderRequest ps capability origin request now =
     (let key = makeStateKey origin request;
          entry = \<lparr>Request = request, Response = None, UpdatedAt = now\<rparr>
      in (AList.update capability (AList.update key entry (getProviderState ps capability)) ps, key))"

text \<open>Whether a response is an object with an \<open>error\<close> member, which is not cached.\<close>

definition is_error_response :: "raw \<Rightarrow> bool" where
  "is_error_response response =
     (case unmarshal_map (raw_bytes response) of
        None \<Rightarrow> False
      | Some obj \<Rightarrow> map_of obj ''error'' \<noteq> None)"

definition updateProviderResponse ::
  "ProviderState \<Rightarrow> string \<Rightarrow> string \<Rightarrow> raw \<Rightarrow> int \<Rightarrow> ProviderState" where
  "updateProviderResponse ps capability key response now =
     (case map_of ps capability of
        None \<Rightarrow> ps
      | Some m \<Rightarrow>
          if is_error_response response then ps
          else (case map_of m key of
                  None \<Rightarrow> ps
                | Some entry \<Rightarrow>
                    AList.update capability
                      (AList.update key (entry\<lparr>Response := response, UpdatedAt := now\<rparr>) m) ps))"

section \<open>Saving\<close>

text \<open>
  An entry as a later load reads it back from \<open>provider-state.json\<close>: the messages
  compacted, nil as null, and an empty response left out (\<open>omitempty\<close>). \<open>None\<close> where
  \<open>json.MarshalIndent\<close> fails. The indentation of the file is not part of the model.
\<close>

definition stored_entry :: "ProviderStateEntry \<Rightarrow> ProviderStateEntry option" where
  "stored_entry e =
     (case marshal_raw (Request e) of
        None \<Rightarrow> None
      | Some rq \<Rightarrow>
          if raw_len (Response e) = 0
          then Some (e\<lparr>Request := Some rq, Response := None\<rparr>)
          else map_option (\<lambda>rs. e\<lparr>Request := Some rq, Response := Some rs\<rparr>) (marshal_raw (Response e)))"

definition map_values :: "('a \<Rightarrow> 'b option) \<Rightarrow> 'a gomap \<Rightarrow> 'b gomap option" where
  "map_values f m = map_option (zip (map fst m)) (all_some (map (\<lambda>x. f (snd x)) m))"

definition marshalProviderState :: "ProviderState \<Rightarrow> ProviderState option" where
  "marshalProviderState ps = map_values (map_values stored_entry) ps"

section \<open>Lemmas\<close>

lemma jsonEqual_iff:
  "jsonEqual a b \<longleftrightarrow> a = b \<or> (\<exists>v. unmarshal_iface a = Some v \<and> unmarshal_iface b = Some v)"
proof -
  have "unmarshal_iface [] = None"
    using json_invalid_empty by (simp add: unmarshal_iface_def json_valid_def)
  then show ?thesis by (auto simp: jsonEqual_def split: option.splits)
qed

lemma parseStateKey_join: "CHR '':'' \<notin> set origin \<Longrightarrow> parseStateKey (origin @ CHR '':'' # needID) = (origin, needID)"
  by (simp add: parseStateKey_def SplitN2_append)

lemma parseStateKey_origin: "CHR '':'' \<notin> set origin \<Longrightarrow> parseStateKey origin = (origin, [])"
  by (simp add: parseStateKey_def SplitN2_none)

lemma parse_makeStateKey:
  "CHR '':'' \<notin> set origin \<Longrightarrow> parseStateKey (makeStateKey origin request) = (origin, extractNeedID request)"
  by (simp add: makeStateKey_def Let_def parseStateKey_join parseStateKey_origin)

lemma needIDToPath_own [simp]: "needIDToPath cap (cap @ CHR ''-'' # name) = cap @ CHR ''/'' # name"
proof -
  have "HasPrefix (cap @ CHR ''-'' # name) (cap @ ''-'')"
    using HasPrefix_append [of "cap @ ''-''" name] by simp
  moreover have "TrimPrefix (cap @ CHR ''-'' # name) (cap @ ''-'') = name"
    using TrimPrefix_append [of "cap @ ''-''" name] by simp
  ultimately show ?thesis by (simp add: needIDToPath_def)
qed

lemma getProviderState_update [gomap]:
  "getProviderState (AList.update c m ps) c' = (if c' = c then m else getProviderState ps c')"
  by (simp add: getProviderState_def gomap)

text \<open>What \<open>updateProviderResponse\<close> leaves under the key it is given.\<close>

definition updated_entry ::
  "int \<Rightarrow> raw \<Rightarrow> ProviderStateEntry option \<Rightarrow> ProviderStateEntry option" where
  "updated_entry now response e =
     (if is_error_response response then e
      else map_option (\<lambda>entry. entry\<lparr>Response := response, UpdatedAt := now\<rparr>) e)"

lemma updateProviderResponse_entry:
  "map_of (getProviderState (updateProviderResponse ps c k r now) c') k' =
     (if c' = c \<and> k' = k then updated_entry now r (map_of (getProviderState ps c) k)
      else map_of (getProviderState ps c') k')"
  by (auto simp: updateProviderResponse_def updated_entry_def getProviderState_def gomap
      split: option.splits)

lemma recordProviderRequest_entry:
  "map_of (getProviderState (fst (recordProviderRequest ps c origin rq now)) c') k' =
     (if c' = c \<and> k' = makeStateKey origin rq
      then Some \<lparr>Request = rq, Response = None, UpdatedAt = now\<rparr>
      else map_of (getProviderState ps c') k')"
  by (simp add: recordProviderRequest_def Let_def gomap)

lemma recordProviderRequest_key [simp]:
  "snd (recordProviderRequest ps c origin rq now) = makeStateKey origin rq"
  by (simp add: recordProviderRequest_def Let_def)

lemma map_values_None: "map_values f m = None \<longleftrightarrow> (\<exists>k v. (k, v) \<in> set m \<and> f v = None)"
  by (force simp: map_values_def all_some_None image_iff)

lemma map_values_Some:
  "map_values f m = Some m' \<Longrightarrow> map_of m' k = Option.bind (map_of m k) f \<and> map fst m' = map fst m"
proof (induction m arbitrary: m')
  case (Cons x m)
  obtain a b where x: "x = (a, b)" by (cases x)
  from Cons.prems obtain v vs where "f b = Some v" "all_some (map (\<lambda>x. f (snd x)) m) = Some vs"
    and m': "m' = (a, v) # zip (map fst m) vs"
    by (cases "f b") (auto simp: map_values_def x)
  then show ?case using Cons.IH [of "zip (map fst m) vs"] by (auto simp: map_values_def x)
qed (auto simp: map_values_def)

lemma marshal_entry:
  assumes "marshalProviderState ps = Some data"
  shows "map_of (getProviderState data c) k = Option.bind (map_of (getProviderState ps c) k) stored_entry"
proof -
  have d: "map_of data c = Option.bind (map_of ps c) (map_values stored_entry)"
    using map_values_Some assms unfolding marshalProviderState_def by blast
  show ?thesis
  proof (cases "map_of ps c")
    case None
    then show ?thesis using d by (simp add: getProviderState_def)
  next
    case (Some m)
    have "map_values stored_entry m \<noteq> None"
      using assms Some unfolding marshalProviderState_def
      by (metis map_of_SomeD map_values_None option.distinct(1))
    then obtain m' where "map_values stored_entry m = Some m'" by blast
    then show ?thesis using d Some map_values_Some [of stored_entry m m' k] by (simp add: getProviderState_def)
  qed
qed

text \<open>Well-formed maps: a Go map has one value per key, and the operations keep it so.\<close>

definition state_ok :: "ProviderState \<Rightarrow> bool" where
  "state_ok ps \<longleftrightarrow> gomap_ok ps \<and> (\<forall>m \<in> snd ` set ps. gomap_ok m)"

lemma state_ok_get: "state_ok ps \<Longrightarrow> gomap_ok (getProviderState ps c)"
  by (force simp: state_ok_def getProviderState_def split: option.splits dest!: map_of_SomeD)

lemma set_update_subset: "set (AList.update k v m) \<subseteq> insert (k, v) (set m)"
  by (induction m) auto

lemma state_ok_update [intro]: "state_ok ps \<Longrightarrow> gomap_ok m \<Longrightarrow> state_ok (AList.update c m ps)"
  using set_update_subset [of c m ps] by (auto simp: state_ok_def gomap)

lemma state_ok_record: "state_ok ps \<Longrightarrow> state_ok (fst (recordProviderRequest ps c origin rq now))"
  by (auto simp: recordProviderRequest_def Let_def gomap state_ok_get)

lemma state_ok_updateResponse: "state_ok ps \<Longrightarrow> state_ok (updateProviderResponse ps c k r now)"
  using state_ok_get [of ps c]
  by (auto simp: updateProviderResponse_def getProviderState_def intro!: state_ok_update gomap_ok_update
      split: option.splits)

lemma parseStateKey_fst: "CHR '':'' \<notin> set (fst (parseStateKey k))"
  by (auto simp: parseStateKey_def dest: SplitN2_fst_notin split: prod.splits option.splits)

section \<open>Properties\<close>

text \<open>
  the state key of an origin splits back into the origin and the need ID of the request,
  whatever the request, exactly for the origins without a colon.
\<close>

theorem state_key_roundtrip:
  "(\<forall>request. parseStateKey (makeStateKey origin request) = (origin, extractNeedID request))
     \<longleftrightarrow> CHR '':'' \<notin> set origin"
proof
  assume "\<forall>request. parseStateKey (makeStateKey origin request) = (origin, extractNeedID request)"
  then have "fst (parseStateKey (makeStateKey origin None)) = origin" by simp
  then show "CHR '':'' \<notin> set origin"
    using parseStateKey_fst by metis
next
  assume "CHR '':'' \<notin> set origin"
  then show "\<forall>request. parseStateKey (makeStateKey origin request) = (origin, extractNeedID request)"
    by (simp add: parse_makeStateKey)
qed

text \<open>
  \<open>jsonEqual\<close> is an equivalence on texts, and two texts are equal for it when they are the
  same or decode to the same value; the order of members and white space do not matter.
\<close>

theorem json_equal_equivalence:
  "equivp jsonEqual
   \<and> (jsonEqual a b \<longleftrightarrow> a = b \<or> (\<exists>v. unmarshal_iface a = Some v \<and> unmarshal_iface b = Some v))"
  by (auto simp: jsonEqual_iff equivp_def fun_eq_iff)

text \<open>
  the comparison goes through float64, so two answers that differ in a large integer count as
  the same answer and the change is not called back.
\<close>

theorem json_equal_collision:
  "jsonEqual (js ''{~n~:9007199254740993}'') (js ''{~n~:9007199254740992}'')"
  by code_simp

end
