(* ===== verification/Provider_Auth.thy ===== *)
theory Provider_Auth
  imports Provider_State
begin

text \<open>
  The front of \<open>pkgs/fort-provider/main.go\<close>: HTTP requests and responses, the routing of
  paths, the signature check (\<open>verifySignature\<close>, \<open>armorSignature\<close>), the clock drift
  check and the RBAC check that \<open>ServeHTTP\<close> and \<open>handleCallback\<close> make before they
  act.
\<close>

record HttpRequest =
  ReqMethod :: string
  ReqPath :: string                  \<comment> \<open>\<open>r.URL.Path\<close>, decoded\<close>
  ReqBody :: "string option"         \<comment> \<open>\<open>None\<close>: reading the body failed\<close>
  ReqHeader :: "string \<Rightarrow> string"   \<comment> \<open>\<open>r.Header.Get\<close>; absent is empty\<close>

record HttpResponse =
  Status :: nat
  Headers :: "string gomap"
  RespBody :: string

definition jsonContent :: "string gomap" where
  "jsonContent = [(''Content-Type'', ''application/json'')]"

definition errorResponse :: "nat \<Rightarrow> string \<Rightarrow> HttpResponse" where
  "errorResponse status message =
     \<lparr>Status = status, Headers = jsonContent, RespBody = error_body message\<rparr>"

text \<open>
  The world outside the program, as one request sees it: the clock, SHA-256, the
  \<open>ssh-keygen -Y verify\<close> process (given the allowed signers file, the namespace, the
  identity, the signature file and the message, \<open>None\<close> when it exits with 0 and otherwise
  its output), the temporary files it reads, and the texts of two library errors.
\<close>

record AuthEnv =
  Now :: gotime
  Sha256 :: "string \<Rightarrow> string"
  SshKeygenVerify :: "string \<Rightarrow> string \<Rightarrow> string \<Rightarrow> string \<Rightarrow> string \<Rightarrow> string option"
  TempFilesError :: "string option"
  Base64Error :: "string \<Rightarrow> string"

section \<open>Paths\<close>

text \<open>The capability named by a path, with the error message of \<open>ServeHTTP\<close>'s 404s.\<close>

definition capability_of_path :: "string \<Rightarrow> string + string" where
  "capability_of_path path =
     (let check = (\<lambda>capability. if capability = [] \<or> CHR ''/'' \<in> set capability
                     then Inl ''invalid capability'' else Inr capability)
      in if HasPrefix path ''/fort/'' then check (TrimPrefix path ''/fort/'')
         else if HasPrefix path ''/agent/'' then check (TrimPrefix path ''/agent/'')
         else Inl ''invalid path'')"

text \<open>The capability and the name in a callback path, as \<open>handleCallback\<close> splits it.\<close>

definition callback_of_path :: "string \<Rightarrow> (string \<times> string) option" where
  "callback_of_path path =
     (case SplitN2 (CHR ''/'') (TrimPrefix path ''/fort/needs/'') of
        (capability, Some name) \<Rightarrow> if capability = [] \<or> name = [] then None else Some (capability, name)
      | (_, None) \<Rightarrow> None)"

definition handler_path :: "string \<Rightarrow> string" where
  "handler_path capability =
     (if capability = ''.'' then ''/etc/fort/handlers''
      else if capability = ''..'' then ''/etc/fort''
      else ''/etc/fort/handlers/'' @ capability)"

section \<open>Signatures\<close>

function chunks70 :: "string \<Rightarrow> string list" where
  "chunks70 s = (if s = [] then [] else take 70 s # chunks70 (drop 70 s))"
  by pat_completeness auto
termination
  by (relation "measure length") auto

declare chunks70.simps [simp del]

definition armorSignature :: "string \<Rightarrow> string" where
  "armorSignature sig =
     ''-----BEGIN SSH SIGNATURE-----'' @ [CHR 0x0A]
     @ Join (chunks70 (StdEncoding_EncodeToString sig)) [CHR 0x0A]
     @ [CHR 0x0A] @ ''-----END SSH SIGNATURE-----'' @ [CHR 0x0A]"

definition canonical_string :: "(string \<Rightarrow> string) \<Rightarrow> string \<Rightarrow> string \<Rightarrow> string \<Rightarrow> string \<Rightarrow> string" where
  "canonical_string sha256 method path timestamp body =
     method @ CHR 0x0A # path @ CHR 0x0A # timestamp @ CHR 0x0A # hex_encode (sha256 body)"

definition signatureNamespace :: string where
  "signatureNamespace = ''fort-agent''"

text \<open>\<open>None\<close> is success, \<open>Some\<close> the text of the error.\<close>

definition verifySignature ::
  "AuthEnv \<Rightarrow> string \<Rightarrow> string \<Rightarrow> string \<Rightarrow> string \<Rightarrow> string \<Rightarrow> string \<Rightarrow> string \<Rightarrow> string option" where
  "verifySignature env method path timestamp body signatureB64 origin pubkey =
     (let canonical = canonical_string (Sha256 env) method path timestamp body in
      case StdEncoding_DecodeString signatureB64 of
        None \<Rightarrow> Some (''decode signature: '' @ Base64Error env signatureB64)
      | Some sigBytes \<Rightarrow>
          (case TempFilesError env of
             Some err \<Rightarrow> Some err
           | None \<Rightarrow>
               (case SshKeygenVerify env (origin @ '' '' @ pubkey @ [CHR 0x0A]) signatureNamespace origin
                       (armorSignature sigBytes) canonical of
                  None \<Rightarrow> None
                | Some output \<Rightarrow> Some (''ssh-keygen verify: '' @ TrimSpace output))))"

section \<open>Authentication and authorisation\<close>

definition maxTimestampDrift :: int where
  "maxTimestampDrift = 5 * Minute"

text \<open>
  The drift check: \<open>time.Since\<close>, the sign flipped when it is negative, and the comparison
  with the largest drift.
\<close>

definition drift_ok :: "gotime \<Rightarrow> int \<Rightarrow> bool" where
  "drift_ok now timestamp =
     (let d = Sub now (Unix timestamp);
          drift = (if d < 0 then neg_duration d else d)
      in \<not> drift > maxTimestampDrift)"

text \<open>
  The part common to \<open>ServeHTTP\<close> and \<open>handleCallback\<close>, from reading the body to
  verifying the signature: the refusal (status and message), or the origin and the body.
\<close>

definition authenticate ::
  "AuthEnv \<Rightarrow> string gomap \<Rightarrow> HttpRequest \<Rightarrow> (nat \<times> string) + (string \<times> string)" where
  "authenticate env hosts r =
     (case ReqBody r of
        None \<Rightarrow> Inl (400, ''failed to read body'')
      | Some body \<Rightarrow>
          (let origin = ReqHeader r ''X-Fort-Origin'';
               timestampStr = ReqHeader r ''X-Fort-Timestamp'';
               signatureB64 = ReqHeader r ''X-Fort-Signature''
           in if origin = [] \<or> timestampStr = [] \<or> signatureB64 = []
              then Inl (401, ''missing auth headers'')
              else
                (case ParseInt timestampStr of
                   None \<Rightarrow> Inl (401, ''invalid timestamp'')
                 | Some timestamp \<Rightarrow>
                     if \<not> drift_ok (Now env) timestamp
                     then Inl (401, ''timestamp drift too large'')
                     else
                       (case map_of hosts origin of
                          None \<Rightarrow> Inl (401, ''unknown origin'')
                        | Some pubkey \<Rightarrow>
                            (case verifySignature env (ReqMethod r) (ReqPath r) timestampStr body
                                    signatureB64 origin pubkey of
                               Some err \<Rightarrow> Inl (401, ''signature verification failed: '' @ err)
                             | None \<Rightarrow> Inr (origin, body))))))"

text \<open>RBAC: the capability must have a list, and the origin must be on it.\<close>

definition check_rbac :: "string list gomap \<Rightarrow> string \<Rightarrow> string \<Rightarrow> (nat \<times> string) + unit" where
  "check_rbac rbac capability origin =
     (case map_of rbac capability of
        None \<Rightarrow> Inl (404, ''capability not found'')
      | Some allowedHosts \<Rightarrow>
          if origin \<in> set allowedHosts then Inr ()
          else Inl (403, ''not authorized for this capability''))"

text \<open>
  \<open>ServeHTTP\<close> up to the call of \<open>executeHandler\<close>, for a path that is no callback:
  a refusal, or the capability, the origin and the body it runs the handler with.
\<close>

definition admit ::
  "AuthEnv \<Rightarrow> string gomap \<Rightarrow> string list gomap \<Rightarrow> (string \<Rightarrow> bool) \<Rightarrow> HttpRequest
     \<Rightarrow> (nat \<times> string) + (string \<times> string \<times> string)" where
  "admit env hosts rbac handlerExists r =
     (case capability_of_path (ReqPath r) of
        Inl msg \<Rightarrow> Inl (404, msg)
      | Inr capability \<Rightarrow>
          (case authenticate env hosts r of
             Inl e \<Rightarrow> Inl e
           | Inr (origin, body) \<Rightarrow>
               (case check_rbac rbac capability origin of
                  Inl e \<Rightarrow> Inl e
                | Inr _ \<Rightarrow>
                    if \<not> handlerExists (handler_path capability)
                    then Inl (404, ''handler not found'')
                    else Inr (capability, origin, body))))"

section \<open>Lemmas\<close>

lemma chunks70_concat: "concat (chunks70 s) = s"
proof (induction s rule: chunks70.induct)
  case (1 s)
  then show ?case by (simp add: chunks70.simps [of s])
qed

lemma chunks70_length: "c \<in> set (chunks70 s) \<Longrightarrow> 0 < length c \<and> length c \<le> 70"
proof (induction s rule: chunks70.induct)
  case (1 s)
  then show ?case by (auto simp: chunks70.simps [of s] split: if_splits)
qed

lemma drift_ok_iff:
  "drift_ok now ts \<longleftrightarrow> \<bar>now - Unix ts\<bar> \<le> 5 * Minute \<or> now - Unix ts \<le> minDuration"
proof (cases "now - Unix ts \<le> minDuration")
  case True
  then have "Sub now (Unix ts) = minDuration" by (auto simp: Sub_def)
  then have "drift_ok now ts"
    unfolding drift_ok_def Let_def by (simp only: neg_duration_min) (simp add: maxTimestampDrift_def)
  with True show ?thesis by blast
next
  case False
  show ?thesis
  proof (cases "now - Unix ts > maxDuration")
    case True
    then show ?thesis using False by (auto simp: drift_ok_def maxTimestampDrift_def Sub_def)
  next
    case ok: False
    with False have "Sub now (Unix ts) = now - Unix ts" by (auto simp: Sub_def)
    moreover have "neg_duration (now - Unix ts) = - (now - Unix ts)"
      using False ok by (intro neg_duration_pos) (auto simp: int64_ok_def)
    ultimately show ?thesis
      using False by (auto simp: drift_ok_def Let_def maxTimestampDrift_def)
  qed
qed

lemma authenticate_Inr:
  "authenticate env hosts r = Inr (origin, body) \<longleftrightarrow>
     ReqBody r = Some body \<and> origin = ReqHeader r ''X-Fort-Origin'' \<and> origin \<noteq> []
     \<and> ReqHeader r ''X-Fort-Timestamp'' \<noteq> [] \<and> ReqHeader r ''X-Fort-Signature'' \<noteq> []
     \<and> (\<exists>ts. ParseInt (ReqHeader r ''X-Fort-Timestamp'') = Some ts \<and> drift_ok (Now env) ts)
     \<and> (\<exists>pubkey. map_of hosts origin = Some pubkey
          \<and> verifySignature env (ReqMethod r) (ReqPath r) (ReqHeader r ''X-Fort-Timestamp'') body
              (ReqHeader r ''X-Fort-Signature'') origin pubkey = None)"
  by (auto simp: authenticate_def Let_def split: option.splits if_splits)

lemma authenticate_status:
  "authenticate env hosts r = Inl (status, msg) \<Longrightarrow> status = 400 \<or> status = 401"
  by (auto simp: authenticate_def Let_def split: option.splits if_splits)

lemma check_rbac_Inr: "check_rbac rbac cap origin = Inr u \<longleftrightarrow> (\<exists>hs. map_of rbac cap = Some hs \<and> origin \<in> set hs)"
  by (auto simp: check_rbac_def split: option.splits)

lemma verifySignature_None:
  "verifySignature env method path ts body sig origin pubkey = None \<longleftrightarrow>
     (\<exists>bytes. StdEncoding_DecodeString sig = Some bytes \<and> TempFilesError env = None
        \<and> SshKeygenVerify env (origin @ '' '' @ pubkey @ [CHR 0x0A]) signatureNamespace origin
            (armorSignature bytes) (canonical_string (Sha256 env) method path ts body) = None)"
  by (auto simp: verifySignature_def Let_def split: option.splits)

text \<open>
  Splitting at the first newline and at the last two recovers the four parts, even when the
  decoded path holds newlines of its own.
\<close>

lemma append_sep_inj:
  assumes "a @ (c::char) # x = b @ c # y" and "c \<notin> set a" and "c \<notin> set b"
  shows "a = b \<and> x = y"
proof -
  have "(a, Some x) = (b, Some y)"
    using SplitN2_append [OF assms(2), of x] SplitN2_append [OF assms(3), of y] assms(1) by metis
  then show ?thesis by simp
qed

lemma append_sep_inj_last:
  assumes "x @ (c::char) # a = y @ c # b" and "c \<notin> set a" and "c \<notin> set b"
  shows "x = y \<and> a = b"
proof -
  have "Some (x, a) = Some (y, b)"
    using split_last_append [OF assms(2), of x] split_last_append [OF assms(3), of y] assms(1) by metis
  then show ?thesis by simp
qed

lemma canonical_string_inj:
  assumes eq: "canonical_string sha m p t b = canonical_string sha m' p' t' b'"
    and m: "CHR 0x0A \<notin> set m" "CHR 0x0A \<notin> set m'"
    and t: "CHR 0x0A \<notin> set t" "CHR 0x0A \<notin> set t'"
  shows "m = m' \<and> p = p' \<and> t = t' \<and> sha b = sha b'"
proof -
  from eq m have "m = m'"
    and 1: "(p @ CHR 0x0A # t) @ CHR 0x0A # hex_encode (sha b)
          = (p' @ CHR 0x0A # t') @ CHR 0x0A # hex_encode (sha b')"
    by (auto simp: canonical_string_def dest: append_sep_inj)
  from append_sep_inj_last [OF 1]
  have 2: "p @ CHR 0x0A # t = p' @ CHR 0x0A # t'" and "hex_encode (sha b) = hex_encode (sha b')"
    by simp_all
  from append_sep_inj_last [OF 2] t \<open>m = m'\<close> this(2) show ?thesis
    by (auto dest: hex_encode_inj)
qed

lemma admit_Inr:
  "admit env hosts rbac ex r = Inr (cap, origin, body) \<longleftrightarrow>
     capability_of_path (ReqPath r) = Inr cap \<and> authenticate env hosts r = Inr (origin, body)
     \<and> (\<exists>hs. map_of rbac cap = Some hs \<and> origin \<in> set hs) \<and> ex (handler_path cap)"
  by (auto simp: admit_def check_rbac_Inr split: sum.splits if_splits)
    (auto simp: check_rbac_def split: option.splits if_splits)

lemma capability_of_path_Inr:
  "capability_of_path p = Inr cap \<longleftrightarrow>
     cap \<noteq> [] \<and> CHR ''/'' \<notin> set cap \<and> (p = ''/fort/'' @ cap \<or> p = ''/agent/'' @ cap)"
  by (auto simp: capability_of_path_def Let_def HasPrefix_iff TrimPrefix_def split: if_splits)

lemma filter_Join: "filter P sep = [] \<Longrightarrow> filter P (Join ls sep) = concat (map (filter P) ls)"
  by (induction ls sep rule: Join.induct) auto

lemma chunks70_chars: "l \<in> set (chunks70 s) \<Longrightarrow> set l \<subseteq> set s"
  using chunks70_concat [of s] by (metis UN_upper set_concat)

lemma decode_armored_lines:
  "StdEncoding_DecodeString (Join (chunks70 (StdEncoding_EncodeToString sig)) [CHR 0x0A]) = Some sig"
proof -
  let ?P = "\<lambda>c. c \<noteq> CHR 0x0A \<and> c \<noteq> CHR 0x0D" and ?e = "StdEncoding_EncodeToString sig"
  have "filter ?P l = l" if "l \<in> set (chunks70 ?e)" for l
    using chunks70_chars [OF that] b64_encode_chars
    by (intro filter_True) (fastforce simp: StdEncoding_EncodeToString_def)
  then have "concat (map (filter ?P) (chunks70 ?e)) = concat (chunks70 ?e)"
    by (simp cong: map_cong)
  then have "filter ?P (Join (chunks70 ?e) [CHR 0x0A]) = ?e"
    by (simp add: filter_Join chunks70_concat)
  then show ?thesis
    by (simp add: StdEncoding_DecodeString_def StdEncoding_EncodeToString_def b64_decode_def
        b64_quads_encode)
qed

section \<open>Properties\<close>

text \<open>
  C2: a request reaches a capability's handler exactly when its path names one capability, its
  body could be read, its timestamp parses and passes the drift check, its origin is a known
  host, \<open>ssh-keygen\<close> accepts the supplied signature for that host's key over the
  canonical string of this very method, path, timestamp and body, the origin is on the
  capability's RBAC list and the handler exists. No request is let through on less.
\<close>

theorem admitted_request:
  "admit env hosts rbac handlerExists r = Inr (cap, origin, body) \<longleftrightarrow>
     (ReqPath r = ''/fort/'' @ cap \<or> ReqPath r = ''/agent/'' @ cap)
     \<and> cap \<noteq> [] \<and> CHR ''/'' \<notin> set cap
     \<and> ReqBody r = Some body
     \<and> origin = ReqHeader r ''X-Fort-Origin'' \<and> origin \<noteq> [] \<and> ReqHeader r ''X-Fort-Signature'' \<noteq> []
     \<and> (\<exists>ts. ParseInt (ReqHeader r ''X-Fort-Timestamp'') = Some ts \<and> drift_ok (Now env) ts)
     \<and> (\<exists>pubkey sig. map_of hosts origin = Some pubkey
          \<and> StdEncoding_DecodeString (ReqHeader r ''X-Fort-Signature'') = Some sig
          \<and> TempFilesError env = None
          \<and> SshKeygenVerify env (origin @ '' '' @ pubkey @ [CHR 0x0A]) ''fort-agent'' origin
              (armorSignature sig)
              (canonical_string (Sha256 env) (ReqMethod r) (ReqPath r)
                 (ReqHeader r ''X-Fort-Timestamp'') body) = None)
     \<and> (\<exists>allowed. map_of rbac cap = Some allowed \<and> origin \<in> set allowed)
     \<and> handlerExists (handler_path cap)"
proof -
  have ne: "t \<noteq> []" if "ParseInt t = Some n" for t n
    using that by (auto simp: ParseInt_def signed_digits_def)
  show ?thesis
    by (auto simp: admit_Inr capability_of_path_Inr authenticate_Inr verifySignature_None
        signatureNamespace_def dest: ne)
qed

text \<open>
  C39: for a clock between 1970 and 2262, the drift check accepts a timestamp within five minutes
  of the clock, and besides them every timestamp more than \<open>2^63\<close> nanoseconds ahead (up to
  where \<open>time.Unix\<close> wraps): \<open>time.Since\<close> saturates at the smallest duration, whose
  negation is itself, so it is not above the limit.
\<close>

theorem drift_window:
  assumes "int64_ok ts" and "0 \<le> now" and "now < 2 ^ 63"
  shows "drift_ok now ts \<longleftrightarrow>
    \<bar>now - Second * ts\<bar> \<le> 5 * Minute \<or> now + 2 ^ 63 \<le> Second * ts \<and> ts < 2 ^ 63 - unixToInternal"
proof (cases "ts < 2 ^ 63 - unixToInternal")
  case True
  then show ?thesis
    using assms by (auto simp: drift_ok_iff Unix_small)
next
  case False
  then have "Unix ts = Second * (ts - 2 ^ 64)" using assms by (simp add: Unix_wrapped)
  moreover have "ts < 2 ^ 63" "2 ^ 63 - unixToInternal \<le> ts"
    using assms False by (auto simp: int64_ok_def)
  ultimately show ?thesis
    using assms by (simp add: drift_ok_iff unixToInternal_def)
qed

theorem drift_window_witness:
  "\<not> \<bar>(1700000000000000000::int) - Second * 4000000000000\<bar> \<le> 5 * Minute
   \<and> drift_ok 1700000000000000000 4000000000000"
  using drift_window [of 4000000000000 1700000000000000000]
  by (simp add: int64_ok_def unixToInternal_def)

text \<open>
  the canonical string determines the request it was built from. Two requests with the
  same canonical string have the same method, path, timestamp and body hash, also when the
  decoded path holds newlines; so a signature is not valid for another request.
\<close>

theorem canonical_determines_request:
  assumes "canonical_string sha method path ts body = canonical_string sha method' path' ts' body'"
    and "CHR 0x0A \<notin> set method" and "CHR 0x0A \<notin> set method'"
    and "ParseInt ts = Some n" and "ParseInt ts' = Some n'"
  shows "method = method' \<and> path = path' \<and> ts = ts' \<and> sha body = sha body'"
  using canonical_string_inj [OF assms(1-3)] ParseInt_no_newline assms(4,5) by blast

theorem canonical_determines_request_witness:
  "canonical_string (\<lambda>b. take 1 b) ''POST'' [CHR ''/'', CHR 0x0A] ''17'' ''ab''
     = canonical_string (\<lambda>b. take 1 b) ''POST'' [CHR ''/'', CHR 0x0A] ''17'' ''ac''
   \<and> take 1 ''ab'' = take 1 ''ac''"
proof -
  have h: "canonical_string (\<lambda>b. take 1 b) ''POST'' [CHR ''/'', CHR 0x0A] ''17'' ''ab''
     = canonical_string (\<lambda>b. take 1 b) ''POST'' [CHR ''/'', CHR 0x0A] ''17'' ''ac''"
    by (simp add: canonical_string_def)
  have p: "ParseInt ''17'' = Some 17" by code_simp
  show ?thesis
    using h canonical_determines_request [OF h _ _ p p] by simp
qed

text \<open>
  the armour round trip. The armoured signature is the base64 text of the signature in
  lines of at most 70 bytes between the two markers, and decoding those lines as they stand
  gives the signature back.
\<close>

theorem armor_roundtrip:
  "\<exists>lines.
     armorSignature sig =
       ''-----BEGIN SSH SIGNATURE-----'' @ [CHR 0x0A] @ Join lines [CHR 0x0A] @ [CHR 0x0A]
       @ ''-----END SSH SIGNATURE-----'' @ [CHR 0x0A]
     \<and> list_all (\<lambda>l. 0 < length l \<and> length l \<le> 70) lines
     \<and> StdEncoding_DecodeString (Join lines [CHR 0x0A]) = Some sig"
  using decode_armored_lines [of sig] chunks70_length
  by (intro exI [of _ "chunks70 (StdEncoding_EncodeToString sig)"])
    (auto simp: armorSignature_def list_all_iff)

end
