(* ===== verification/Response_Loop.thy ===== *)
theory Response_Loop
  imports Provider_State
begin

text \<open>
  Three loops of \<open>fort-provider\<close> walk over a handler's output, store each response and
  collect the keys whose response changed (\<open>executeAsyncHandler\<close>, \<open>runTrigger\<close>,
  \<open>invokeHandlerForGC\<close>). The locale states what they share: storing under one key leaves
  the other keys alone, and what it leaves under its own key depends on what was there. Its
  lemmas say what the whole loop does, whatever order the output is visited in.
\<close>

locale response_loop =
  fixes read :: "'s \<Rightarrow> string \<Rightarrow> ProviderStateEntry option"
    and store :: "string \<Rightarrow> raw \<Rightarrow> 's \<Rightarrow> 's"
    and stored :: "string \<Rightarrow> raw \<Rightarrow> ProviderStateEntry option \<Rightarrow> ProviderStateEntry option"
    and differs :: "ProviderStateEntry option \<Rightarrow> raw \<Rightarrow> bool"
    and loop_step :: "string \<times> raw \<Rightarrow> 's \<times> string list \<Rightarrow> 's \<times> string list"
  assumes store_frame: "k' \<noteq> k \<Longrightarrow> read (store k r s) k' = read s k'"
    and store_effect: "read (store k r s) k = stored k r (read s k)"
    and loop_step_eq:
      "loop_step (k, r) (s, changed) =
         (store k r s, if differs (read s k) r then changed @ [k] else changed)"
begin

lemma loop_absent:
  "k \<notin> fst ` set out \<Longrightarrow> read (fst (fold loop_step out (s, changed))) k = read s k"
proof (induction out arbitrary: s changed)
  case (Cons x out)
  obtain k' r where x: "x = (k', r)" by (cases x)
  have "read (fst (fold loop_step out (loop_step x (s, changed)))) k = read (store k' r s) k"
    using Cons by (simp add: x loop_step_eq)
  then show ?case using Cons.prems by (simp add: x store_frame)
qed simp

lemma loop_read:
  "gomap_ok out \<Longrightarrow> read (fst (fold loop_step out (s, changed))) k =
     (case map_of out k of None \<Rightarrow> read s k | Some r \<Rightarrow> stored k r (read s k))"
proof (induction out arbitrary: s changed)
  case (Cons x out)
  obtain k' r where x: "x = (k', r)" by (cases x)
  show ?case
  proof (cases "k = k'")
    case True
    with Cons.prems x have "k \<notin> fst ` set out" by simp
    then show ?thesis by (simp add: x True loop_step_eq loop_absent store_effect)
  next
    case False
    then show ?thesis using Cons by (simp add: x loop_step_eq store_frame split: option.splits)
  qed
qed simp

lemma loop_changed:
  "gomap_ok out \<Longrightarrow> snd (fold loop_step out (s, changed)) =
     changed @ map fst (filter (\<lambda>(k, r). differs (read s k) r) out)"
proof (induction out arbitrary: s changed)
  case (Cons x out)
  obtain k r where x: "x = (k, r)" by (cases x)
  have "filter (\<lambda>(k', r'). differs (read (store k r s) k') r') out
      = filter (\<lambda>(k', r'). differs (read s k') r') out"
  proof (intro filter_cong refl, clarify)
    fix a b
    assume "(a, b) \<in> set out"
    then have "a \<noteq> k" using Cons.prems x by (force simp: image_iff)
    then show "differs (read (store k r s) a) b = differs (read s a) b" by (simp add: store_frame)
  qed
  then show ?case using Cons by (simp add: x loop_step_eq)
qed simp

end

end
