(* ===== verification/Go_OS.thy ===== *)
theory Go_OS
  imports Prelude
begin

text \<open>
  What the programs see of the operating system: the result of running a process
  (\<open>os/exec\<close>), and the result of reading and decoding a file.
\<close>

datatype ExecResult =
    ExecOk string                \<comment> \<open>exit status 0, with what it wrote to standard output\<close>
  | ExecExit string string       \<comment> \<open>another exit status: standard error, standard output\<close>
  | ExecFailed string            \<comment> \<open>the process could not be run: the error\<close>

text \<open>
  A file that holds JSON, as a decoder of it finds it: missing or unreadable, present and not
  decodable, or the decoded value.
\<close>

datatype 'a FileLoad = Absent string | Corrupt string | Loaded 'a

definition loaded :: "'a FileLoad \<Rightarrow> 'a option" where
  "loaded f = (case f of Loaded x \<Rightarrow> Some x | Absent _ \<Rightarrow> None | Corrupt _ \<Rightarrow> None)"

lemma loaded_simps [simp]:
  "loaded (Loaded x) = Some x" "loaded (Absent e) = None" "loaded (Corrupt e) = None"
  by (simp_all add: loaded_def)

end
