(* ===== verification/Provider_Async.thy ===== *)
theory Provider_Async
  imports Provider_Auth Response_Loop Go_OS
begin

text \<open>
  The handlers of \<open>pkgs/fort-provider/main.go\<close>: the aggregate input of an asynchronous
  capability, \<open>executeAsyncHandler\<close>, \<open>executeRpcHandler\<close>, the content-addressed
  handles, the dispatch of callbacks, \<open>initializeCapabilities\<close> at boot and
  \<open>runTrigger\<close>. A handler script is a process outside the program: what it prints for
  its input is a parameter (\<open>RunHandler\<close>).
\<close>

section \<open>The world of a handler\<close>

record FulfillmentState =
  Satisfied :: bool
  LastSought :: int

record HostEnv =
  RunHandler :: "string \<Rightarrow> string gomap \<Rightarrow> string \<Rightarrow> ExecResult"  \<comment> \<open>path, added environment, stdin\<close>
  HandlerExists :: "string \<Rightarrow> bool"
  WriteError :: "string \<Rightarrow> string option"     \<comment> \<open>of \<open>os.WriteFile\<close> on a path; the file is then unchanged\<close>
  JsonError :: "string \<Rightarrow> string"             \<comment> \<open>the text of the error of decoding a text\<close>
  RecordTime :: int                           \<comment> \<open>\<open>time.Now().Unix()\<close> when the request is recorded\<close>
  UpdateTime :: "string \<Rightarrow> int"               \<comment> \<open>the same when a key's response is stored\<close>
  HandleTime :: gotime
  HashSha256 :: "string \<Rightarrow> string"

record Agent =
  hosts :: "string gomap"
  rbac :: "string list gomap"
  capabilities :: "CapabilityConfig gomap"
  needs :: "NeedConfig gomap"
  providerState :: ProviderState
  providerFile :: "ProviderState FileLoad"
  handleFiles :: "string gomap"
  fulfillmentFile :: "FulfillmentState gomap FileLoad"

text \<open>A callback as \<open>sendCallback\<close> hands it to the \<open>fort\<close> command: host, capability, payload.\<close>

type_synonym Callback = "string \<times> string \<times> string"

section \<open>Handler input\<close>

record InputEntry =
  InRequest :: raw
  InResponse :: raw

definition build_input :: "bool \<Rightarrow> CapState \<Rightarrow> InputEntry gomap" where
  "build_input cache state =
     map (\<lambda>(key, entry).
       (key, \<lparr>InRequest = Request entry, InResponse = (if cache then Response entry else None)\<rparr>)) state"

definition marshal_input_entry :: "InputEntry \<Rightarrow> string option" where
  "marshal_input_entry e =
     (case marshal_raw (InRequest e) of
        None \<Rightarrow> None
      | Some rq \<Rightarrow>
          if raw_len (InResponse e) = 0 then Some (obj_text [(''request'', rq)])
          else map_option (\<lambda>rs. obj_text [(''request'', rq), (''response'', rs)]) (marshal_raw (InResponse e)))"

definition marshal_input :: "InputEntry gomap \<Rightarrow> string option" where
  "marshal_input input = map_option (\<lambda>m. obj_text (sort_members m)) (map_values marshal_input_entry input)"

definition handlerErrorMessage :: "string \<Rightarrow> string \<Rightarrow> string" where
  "handlerErrorMessage stderr stdout =
     (let errMsg = TrimSpace stderr
      in if errMsg = [] \<and> length stdout > 0 then TrimSpace stdout else errMsg)"

section \<open>Callbacks\<close>

definition sendCallback :: "string \<Rightarrow> string \<Rightarrow> raw \<Rightarrow> Callback" where
  "sendCallback origin path response = (origin, TrimPrefix path ''/fort/'', raw_bytes response)"

definition callback_path :: "string \<Rightarrow> string \<Rightarrow> string" where
  "callback_path capability needID =
     ''/fort/needs/'' @ capability @ ''/'' @ TrimPrefix needID (capability @ ''-'')"

definition dispatch_one :: "string \<Rightarrow> AsyncHandlerOutput \<Rightarrow> string \<Rightarrow> Callback list" where
  "dispatch_one capability responses key =
     (case parseStateKey key of (origin, needID) \<Rightarrow>
        if needID = [] then []
        else (case map_of responses key of
                None \<Rightarrow> []
              | Some response \<Rightarrow> [sendCallback origin (callback_path capability needID) response]))"

definition dispatchCallbacks :: "string \<Rightarrow> string list \<Rightarrow> AsyncHandlerOutput \<Rightarrow> Callback list" where
  "dispatchCallbacks capability changedKeys responses =
     concat (map (dispatch_one capability responses) changedKeys)"

section \<open>Processing a handler's output\<close>

definition entry_of :: "CapState \<Rightarrow> string \<Rightarrow> ProviderStateEntry" where
  "entry_of state key = (case map_of state key of None \<Rightarrow> zero_entry | Some e \<Rightarrow> e)"

text \<open>
  One turn of the loop over the output. \<open>state\<close> of the source is the map inside the
  provider state, so the previous response is read from the state as updated so far.
\<close>

definition process_one ::
  "(string \<Rightarrow> int) \<Rightarrow> string \<Rightarrow> string \<times> raw \<Rightarrow> ProviderState \<times> string list \<Rightarrow> ProviderState \<times> string list" where
  "process_one t capability kr acc =
     (case (kr, acc) of ((key, response), (ps, changed)) \<Rightarrow>
        let previous = Response (entry_of (getProviderState ps capability) key) in
        (updateProviderResponse ps capability key response (t key),
         if jsonEqual (raw_bytes previous) (raw_bytes response) then changed else changed @ [key]))"

definition process_responses ::
  "(string \<Rightarrow> int) \<Rightarrow> string \<Rightarrow> AsyncHandlerOutput \<Rightarrow> ProviderState \<Rightarrow> ProviderState \<times> string list" where
  "process_responses t capability out ps = fold (process_one t capability) out (ps, [])"

definition revoked_keys :: "CapState \<Rightarrow> AsyncHandlerOutput \<Rightarrow> string list" where
  "revoked_keys state out =
     map fst (filter (\<lambda>(key, entry). raw_len (Response entry) > 0 \<and> map_of out key = None) state)"

definition emptyResponses :: "string list \<Rightarrow> AsyncHandlerOutput" where
  "emptyResponses ks = map (\<lambda>k. (k, Some ''{}'')) ks"

definition saveProviderState :: "HostEnv \<Rightarrow> Agent \<Rightarrow> string option \<times> Agent" where
  "saveProviderState env a =
     (case marshalProviderState (providerState a) of
        None \<Rightarrow> (Some ''marshal provider state'', a)
      | Some data \<Rightarrow>
          (case WriteError env ''/var/lib/fort/provider-state.json'' of
             Some err \<Rightarrow> (Some (''write provider state: '' @ err), a)
           | None \<Rightarrow> (None, a\<lparr>providerFile := Loaded data\<rparr>)))"

section \<open>Handles\<close>

definition computeHandle :: "(string \<Rightarrow> string) \<Rightarrow> string \<Rightarrow> string" where
  "computeHandle sha256 data = ''sha256:'' @ hex_encode (sha256 data)"

definition handle_file :: "string \<Rightarrow> string" where
  "handle_file handle =
     ''/var/lib/fort/handles/'' @ map (\<lambda>c. if c = CHR '':'' then CHR ''-'' else c) handle"

definition handle_meta :: "gotime \<Rightarrow> int \<Rightarrow> string" where
  "handle_meta now ttl =
     obj_text [(''expiry'', Itoa (toUnix (now + mul_duration ttl Second))), (''ttl'', Itoa ttl)]"

definition persistHandle ::
  "HostEnv \<Rightarrow> string gomap \<Rightarrow> string \<Rightarrow> string \<Rightarrow> int \<Rightarrow> string option \<times> string gomap" where
  "persistHandle env files handle data ttl =
     (let path = handle_file handle in
      case WriteError env path of
        Some err \<Rightarrow> (Some err, files)
      | None \<Rightarrow>
          (let files1 = AList.update path data files in
           if ttl > 0 then
             (case WriteError env (path @ ''.meta'') of
                Some err \<Rightarrow> (Some err, files1)
              | None \<Rightarrow> (None, AList.update (path @ ''.meta'') (handle_meta (HandleTime env) ttl) files1))
           else (None, files1)))"

section \<open>Executing a capability\<close>

definition accepted_body :: string where
  "accepted_body = obj_text [(''status'', json_quote ''accepted'')]"

text \<open>
  The end of \<open>executeAsyncHandler\<close>: the handle of the triggering request's response, when
  the capability needs one, and the answer 202.
\<close>

definition finish_async ::
  "HostEnv \<Rightarrow> Agent \<Rightarrow> raw \<Rightarrow> CapabilityConfig \<Rightarrow> Agent \<times> HttpResponse" where
  "finish_async env a triggerResponse cfg =
     (if NeedsGC cfg then
        (let data = raw_bytes triggerResponse; handle = computeHandle (HashSha256 env) data in
         case persistHandle env (handleFiles a) handle data (TTL cfg) of
           (Some err, files) \<Rightarrow>
             (a\<lparr>handleFiles := files\<rparr>, errorResponse 500 (''failed to persist handle: '' @ err))
         | (None, files) \<Rightarrow>
             (a\<lparr>handleFiles := files\<rparr>,
              \<lparr>Status = 202,
               Headers = [(''X-Fort-Handle'', handle)]
                 @ (if TTL cfg > 0 then [(''X-Fort-TTL'', Itoa (TTL cfg))] else []) @ jsonContent,
               RespBody = accepted_body\<rparr>))
      else (a, \<lparr>Status = 202, Headers = jsonContent, RespBody = accepted_body\<rparr>))"

definition exec_error :: "string \<Rightarrow> string \<Rightarrow> string" where
  "exec_error stderr stdout = ''handler failed: '' @ handlerErrorMessage stderr stdout"

definition executeAsyncHandler ::
  "HostEnv \<Rightarrow> Agent \<Rightarrow> string \<Rightarrow> string \<Rightarrow> string \<Rightarrow> CapabilityConfig \<Rightarrow> Agent \<times> HttpResponse \<times> Callback list" where
  "executeAsyncHandler env a capability origin body cfg =
     (let (ps1, triggerKey) =
            recordProviderRequest (providerState a) capability origin (Some body) (RecordTime env);
          a1 = a\<lparr>providerState := ps1\<rparr>
      in case marshal_input (build_input (CacheResponse cfg) (getProviderState ps1 capability)) of
           None \<Rightarrow> (a1, errorResponse 500 ''failed to marshal handler input'', [])
         | Some inputBytes \<Rightarrow>
             (case RunHandler env (handler_path capability)
                     [(''FORT_ORIGIN'', origin), (''FORT_CAPABILITY'', capability), (''FORT_MODE'', ''async'')]
                     inputBytes of
                ExecExit stderr stdout \<Rightarrow> (a1, errorResponse 500 (exec_error stderr stdout), [])
              | ExecFailed err \<Rightarrow> (a1, errorResponse 500 (''handler exec failed: '' @ err), [])
              | ExecOk output \<Rightarrow>
                  (case parseHandlerOutput output (Format cfg) of
                     None \<Rightarrow>
                       (a1, errorResponse 500 (''handler returned invalid JSON: '' @ JsonError env output), [])
                   | Some out \<Rightarrow>
                       (let (ps2, changed) = process_responses (UpdateTime env) capability out ps1;
                            revoked = revoked_keys (getProviderState ps2 capability) out;
                            a2 = snd (saveProviderState env (a1\<lparr>providerState := ps2\<rparr>));
                            callbacks = dispatchCallbacks capability changed out
                              @ dispatchCallbacks capability revoked (emptyResponses revoked);
                            triggerResponse =
                              (case map_of out triggerKey of None \<Rightarrow> Some ''{}'' | Some r \<Rightarrow> r);
                            (a3, resp) = finish_async env a2 triggerResponse cfg
                        in (a3, resp, callbacks)))))"

definition executeRpcHandler ::
  "HostEnv \<Rightarrow> string \<Rightarrow> string \<Rightarrow> string \<Rightarrow> HttpResponse" where
  "executeRpcHandler env capability origin body =
     (case RunHandler env (handler_path capability)
             [(''FORT_ORIGIN'', origin), (''FORT_CAPABILITY'', capability)] body of
        ExecExit stderr stdout \<Rightarrow> errorResponse 500 (exec_error stderr stdout)
      | ExecFailed err \<Rightarrow> errorResponse 500 (''handler exec failed: '' @ err)
      | ExecOk output \<Rightarrow> \<lparr>Status = 200, Headers = jsonContent, RespBody = output\<rparr>)"

definition is_async :: "CapabilityConfig \<Rightarrow> bool" where
  "is_async cfg \<longleftrightarrow> Mode cfg = ''async'' \<or> NeedsGC cfg"

definition executeHandler ::
  "HostEnv \<Rightarrow> Agent \<Rightarrow> string \<Rightarrow> string \<Rightarrow> string \<Rightarrow> CapabilityConfig \<Rightarrow> Agent \<times> HttpResponse \<times> Callback list" where
  "executeHandler env a capability origin body cfg =
     (if is_async cfg then executeAsyncHandler env a capability origin body cfg
      else (a, executeRpcHandler env capability origin body, []))"

section \<open>Boot\<close>

definition initializeCapability ::
  "HostEnv \<Rightarrow> string \<times> CapabilityConfig \<Rightarrow> Agent \<times> Callback list \<Rightarrow> Agent \<times> Callback list" where
  "initializeCapability env nc acc =
     (case (nc, acc) of ((capName, cfg), (a, sent)) \<Rightarrow>
        let state = getProviderState (providerState a) capName in
        if \<not> Initialize (Triggers cfg) then (a, sent)
        else if length state = 0 then (a, sent)
        else
          (case marshal_input (build_input (CacheResponse cfg) state) of
             None \<Rightarrow> (a, sent)
           | Some inputBytes \<Rightarrow>
               if \<not> HandlerExists env (handler_path capName) then (a, sent)
               else
                 (case RunHandler env (handler_path capName)
                         [(''FORT_CAPABILITY'', capName), (''FORT_MODE'', ''async''),
                          (''FORT_TRIGGER'', ''initialize'')] inputBytes of
                    ExecExit stderr stdout \<Rightarrow> (a, sent)
                  | ExecFailed err \<Rightarrow> (a, sent)
                  | ExecOk output \<Rightarrow>
                      (case parseHandlerOutput output (Format cfg) of
                         None \<Rightarrow> (a, sent)
                       | Some out \<Rightarrow>
                           (let ps2 = fst (process_responses (UpdateTime env) capName out (providerState a));
                                a2 = snd (saveProviderState env (a\<lparr>providerState := ps2\<rparr>))
                            in (a2, sent @ dispatchCallbacks capName (map fst out) out))))))"

definition initializeCapabilities :: "HostEnv \<Rightarrow> Agent \<Rightarrow> Agent \<times> Callback list" where
  "initializeCapabilities env a = fold (initializeCapability env) (capabilities a) (a, [])"

section \<open>Triggers\<close>

text \<open>
  The loop of \<open>runTrigger\<close>: unlike \<open>updateProviderResponse\<close> it stores every response,
  errors too, and makes an entry for a key that has none.
\<close>

definition trigger_one ::
  "(string \<Rightarrow> int) \<Rightarrow> string \<times> raw \<Rightarrow> CapState \<times> string list \<Rightarrow> CapState \<times> string list" where
  "trigger_one t kr acc =
     (case (kr, acc) of ((key, response), (state, changed)) \<Rightarrow>
        let entry = entry_of state key in
        (AList.update key (entry\<lparr>Response := response, UpdatedAt := t key\<rparr>) state,
         if jsonEqual (raw_bytes (Response entry)) (raw_bytes response) then changed else changed @ [key]))"

definition trigger_responses ::
  "(string \<Rightarrow> int) \<Rightarrow> AsyncHandlerOutput \<Rightarrow> CapState \<Rightarrow> CapState \<times> string list" where
  "trigger_responses t out state = fold (trigger_one t) out (state, [])"

text \<open>The error (if any), the state file afterwards, and the callbacks sent.\<close>

definition runTrigger ::
  "HostEnv \<Rightarrow> CapabilityConfig gomap FileLoad \<Rightarrow> ProviderState FileLoad \<Rightarrow> string \<Rightarrow> bool
     \<Rightarrow> string option \<times> ProviderState FileLoad \<times> Callback list" where
  "runTrigger env capsFile stateFile capability force =
     (case capsFile of
        Absent e \<Rightarrow> (Some (''read capabilities.json: '' @ e), stateFile, [])
      | Corrupt e \<Rightarrow> (Some (''parse capabilities.json: '' @ e), stateFile, [])
      | Loaded caps \<Rightarrow>
          (case map_of caps capability of
             None \<Rightarrow> (Some (''capability '' @ go_quote capability @ '' not found in config''), stateFile, [])
           | Some cfg \<Rightarrow>
               (let go = (\<lambda>ps.
                  let state = getProviderState ps capability in
                  if length state = 0 then (None, stateFile, [])
                  else
                    (case marshal_input (build_input (\<not> force \<and> CacheResponse cfg) state) of
                       None \<Rightarrow> (Some ''marshal input'', stateFile, [])
                     | Some inputBytes \<Rightarrow>
                         if \<not> HandlerExists env (handler_path capability)
                         then (Some (''handler not found: '' @ handler_path capability), stateFile, [])
                         else
                           (case RunHandler env (handler_path capability)
                                   [(''FORT_CAPABILITY'', capability), (''FORT_MODE'', ''async''),
                                    (''FORT_TRIGGER'', if force then ''force-refresh'' else ''systemd'')]
                                   inputBytes of
                              ExecExit stderr stdout \<Rightarrow> (Some (exec_error stderr stdout), stateFile, [])
                            | ExecFailed err \<Rightarrow> (Some (''handler exec failed: '' @ err), stateFile, [])
                            | ExecOk output \<Rightarrow>
                                (case parseHandlerOutput output (Format cfg) of
                                   None \<Rightarrow>
                                     (Some (''handler returned invalid JSON: '' @ JsonError env output), stateFile, [])
                                 | Some out \<Rightarrow>
                                     (let (state2, changed) = trigger_responses (UpdateTime env) out state;
                                          revoked = revoked_keys state2 out
                                      in case marshalProviderState (AList.update capability state2 ps) of
                                           None \<Rightarrow> (Some ''marshal provider state'', stateFile, [])
                                         | Some data \<Rightarrow>
                                             (case WriteError env ''/var/lib/fort/provider-state.json'' of
                                                Some err \<Rightarrow> (Some (''write provider state: '' @ err), stateFile, [])
                                              | None \<Rightarrow>
                                                  (None, Loaded data,
                                                   dispatchCallbacks capability changed out
                                                   @ dispatchCallbacks capability revoked (emptyResponses revoked))))))))
                in case stateFile of
                     Absent _ \<Rightarrow> go []
                   | Corrupt e \<Rightarrow> (Some (''parse provider-state.json: '' @ e), stateFile, [])
                   | Loaded ps \<Rightarrow> go ps)))"

section \<open>The loops\<close>

definition response_of :: "ProviderStateEntry option \<Rightarrow> raw" where
  "response_of e = (case e of None \<Rightarrow> None | Some entry \<Rightarrow> Response entry)"

definition response_changed :: "ProviderStateEntry option \<Rightarrow> raw \<Rightarrow> bool" where
  "response_changed e r \<longleftrightarrow> \<not> jsonEqual (raw_bytes (response_of e)) (raw_bytes r)"

lemma Response_entry_of: "Response (entry_of m k) = response_of (map_of m k)"
  by (simp add: entry_of_def response_of_def zero_entry_def split: option.splits)

definition triggered_entry ::
  "int \<Rightarrow> raw \<Rightarrow> ProviderStateEntry option \<Rightarrow> ProviderStateEntry option" where
  "triggered_entry now r e =
     Some ((case e of None \<Rightarrow> zero_entry | Some x \<Rightarrow> x)\<lparr>Response := r, UpdatedAt := now\<rparr>)"

interpretation async_loop: response_loop
  "\<lambda>ps k. map_of (getProviderState ps cap) k"
  "\<lambda>k r ps. updateProviderResponse ps cap k r (t k)"
  "\<lambda>k r e. updated_entry (t k) r e"
  response_changed
  "process_one t cap" for t cap
  by unfold_locales
    (simp_all add: updateProviderResponse_entry process_one_def response_changed_def Response_entry_of)

interpretation trigger_loop: response_loop
  "\<lambda>state k. map_of state k"
  "\<lambda>k r state. AList.update k ((entry_of state k)\<lparr>Response := r, UpdatedAt := t k\<rparr>) state"
  "\<lambda>k r e. triggered_entry (t k) r e"
  response_changed
  "trigger_one t" for t
  by unfold_locales
    (simp_all add: gomap trigger_one_def response_changed_def Response_entry_of triggered_entry_def Let_def
      flip: entry_of_def)

lemma process_responses_other:
  "c' \<noteq> c \<Longrightarrow> getProviderState (fst (process_responses t c out ps)) c' = getProviderState ps c'"
proof -
  assume c': "c' \<noteq> c"
  have "getProviderState (updateProviderResponse ps c k r n) c' = getProviderState ps c'" for ps k r n
    using c' by (simp add: updateProviderResponse_def gomap split: option.splits)
  then have "getProviderState (fst (process_one t c x s)) c' = getProviderState (fst s) c'" for x s
    by (cases x; cases s) (simp add: process_one_def)
  then have "getProviderState (fst (fold (process_one t c) out s)) c' = getProviderState (fst s) c'" for s
    by (induction out arbitrary: s) simp_all
  then show ?thesis by (simp add: process_responses_def)
qed

lemma process_responses_entry:
  assumes "gomap_ok out"
  shows "map_of (getProviderState (fst (process_responses t c out ps)) c) k =
    (case map_of out k of None \<Rightarrow> map_of (getProviderState ps c) k
     | Some r \<Rightarrow> updated_entry (t k) r (map_of (getProviderState ps c) k))"
  unfolding process_responses_def by (rule async_loop.loop_read [OF assms])

lemma process_responses_changed:
  "gomap_ok out \<Longrightarrow> snd (process_responses t c out ps) =
     map fst (filter (\<lambda>(k, r). response_changed (map_of (getProviderState ps c) k) r) out)"
  unfolding process_responses_def by (simp add: async_loop.loop_changed)

lemma trigger_responses_entry:
  assumes "gomap_ok out"
  shows "map_of (fst (trigger_responses t out state)) k =
    (case map_of out k of None \<Rightarrow> map_of state k | Some r \<Rightarrow> triggered_entry (t k) r (map_of state k))"
  unfolding trigger_responses_def by (rule trigger_loop.loop_read [OF assms])

lemma trigger_responses_changed:
  "gomap_ok out \<Longrightarrow> snd (trigger_responses t out state) =
     map fst (filter (\<lambda>(k, r). response_changed (map_of state k) r) out)"
  unfolding trigger_responses_def by (simp add: trigger_loop.loop_changed)

lemma state_ok_process: "state_ok ps \<Longrightarrow> state_ok (fst (process_responses t c out ps))"
proof -
  have "state_ok (fst s) \<Longrightarrow> state_ok (fst (process_one t c x s))" for x s
    by (cases x; cases s) (simp add: process_one_def state_ok_updateResponse)
  then have "state_ok (fst s) \<Longrightarrow> state_ok (fst (fold (process_one t c) out s))" for s
    by (induction out arbitrary: s) simp_all
  then show "state_ok ps \<Longrightarrow> ?thesis" by (simp add: process_responses_def)
qed

lemma go_map_of_members_ok: "gomap_ok (go_map_of_members ms)"
proof -
  have "gomap_ok m \<Longrightarrow> gomap_ok (fold (\<lambda>(k, v) m. AList.update k v m) ms m)" for m :: "'a gomap"
    by (induction ms arbitrary: m) (auto simp: gomap_ok_update)
  then show ?thesis by (simp add: go_map_of_members_def)
qed

lemma parseHandlerOutput_ok: "parseHandlerOutput data format = Some out \<Longrightarrow> gomap_ok out"
  by (auto simp: parseHandlerOutput_def go_map_of_members_ok split: option.splits if_splits)

section \<open>Marshalling the input\<close>

lemma marshal_input_None:
  assumes "map_of state k = Some e" and "Request e = Some b" and "\<not> json_valid b"
  shows "marshal_input (build_input cache state) = None"
proof -
  let ?i = "\<lparr>InRequest = Request e, InResponse = if cache then Response e else None\<rparr>"
  have "(k, e) \<in> set state" using assms(1) by (rule map_of_SomeD)
  then have "(k, ?i) \<in> set (build_input cache state)" by (force simp: build_input_def)
  moreover have "marshal_input_entry ?i = None"
    using assms by (simp add: marshal_input_entry_def marshal_raw_def)
  ultimately have "map_values marshal_input_entry (build_input cache state) = None"
    unfolding map_values_None by blast
  then show ?thesis by (simp add: marshal_input_def)
qed

lemma marshalProviderState_None:
  assumes "map_of (getProviderState ps c) k = Some e" and "Request e = Some b" and "\<not> json_valid b"
  shows "marshalProviderState ps = None"
proof -
  obtain m where m: "map_of ps c = Some m" and e: "map_of m k = Some e"
    using assms(1) by (auto simp: getProviderState_def split: option.splits)
  have "stored_entry e = None" using assms(2,3) by (simp add: stored_entry_def marshal_raw_def)
  then have "map_values stored_entry m = None" using e unfolding map_values_None by (blast dest: map_of_SomeD)
  then show ?thesis
    using m unfolding marshalProviderState_def map_values_None by (blast dest: map_of_SomeD)
qed

lemma makeStateKey_invalid: "\<not> json_valid b \<Longrightarrow> makeStateKey origin (Some b) = origin"
  by (simp add: makeStateKey_def extractNeedID_def unmarshal_map_def unmarshal_iface_def
      json_valid_def raw_bytes_def)

lemma executeAsync_poisoned:
  assumes "map_of (getProviderState (providerState a) cap) k = Some e"
    and "Request e = Some b" and "\<not> json_valid b" and "makeStateKey origin (Some body) \<noteq> k"
  shows "executeAsyncHandler env a cap origin body cfg =
    (a\<lparr>providerState := fst (recordProviderRequest (providerState a) cap origin (Some body) (RecordTime env))\<rparr>,
     errorResponse 500 ''failed to marshal handler input'', [])"
proof -
  let ?ps = "fst (recordProviderRequest (providerState a) cap origin (Some body) (RecordTime env))"
  have "map_of (getProviderState ?ps cap) k = Some e"
    using assms by (simp add: recordProviderRequest_entry)
  then have "marshal_input (build_input (CacheResponse cfg) (getProviderState ?ps cap)) = None"
    using assms(2,3) by (rule marshal_input_None)
  then show ?thesis by (simp add: executeAsyncHandler_def split_beta)
qed

lemma executeAsync_malformed:
  assumes "\<not> json_valid body"
  shows "executeAsyncHandler env a cap origin body cfg =
    (a\<lparr>providerState := fst (recordProviderRequest (providerState a) cap origin (Some body) (RecordTime env))\<rparr>,
     errorResponse 500 ''failed to marshal handler input'', [])"
proof -
  let ?ps = "fst (recordProviderRequest (providerState a) cap origin (Some body) (RecordTime env))"
  have "map_of (getProviderState ?ps cap) origin
      = Some \<lparr>Request = Some body, Response = None, UpdatedAt = RecordTime env\<rparr>"
    by (simp add: recordProviderRequest_entry makeStateKey_invalid [OF assms])
  then have "marshal_input (build_input (CacheResponse cfg) (getProviderState ?ps cap)) = None"
    by (rule marshal_input_None) (use assms in simp_all)
  then show ?thesis by (simp add: executeAsyncHandler_def split_beta)
qed

section \<open>What one asynchronous call does\<close>

text \<open>The state after the request is recorded, and what the handler is given.\<close>

definition recorded :: "HostEnv \<Rightarrow> Agent \<Rightarrow> string \<Rightarrow> string \<Rightarrow> string \<Rightarrow> ProviderState" where
  "recorded env a cap origin body =
     fst (recordProviderRequest (providerState a) cap origin (Some body) (RecordTime env))"

definition handler_answers ::
  "HostEnv \<Rightarrow> Agent \<Rightarrow> string \<Rightarrow> string \<Rightarrow> string \<Rightarrow> CapabilityConfig \<Rightarrow> AsyncHandlerOutput \<Rightarrow> bool" where
  "handler_answers env a cap origin body cfg out \<longleftrightarrow>
     (case marshal_input (build_input (CacheResponse cfg)
             (getProviderState (recorded env a cap origin body) cap)) of
        None \<Rightarrow> False
      | Some inp \<Rightarrow>
          (case RunHandler env (handler_path cap)
                  [(''FORT_ORIGIN'', origin), (''FORT_CAPABILITY'', cap), (''FORT_MODE'', ''async'')] inp of
             ExecOk output \<Rightarrow> parseHandlerOutput output (Format cfg) = Some out
           | ExecExit stderr stdout \<Rightarrow> False
           | ExecFailed err \<Rightarrow> False))"

lemma saveProviderState_state [simp]: "providerState (snd (saveProviderState env a)) = providerState a"
  by (simp add: saveProviderState_def split: option.splits)

lemma finish_async_state [simp]: "providerState (fst (finish_async env a r cfg)) = providerState a"
  by (auto simp: finish_async_def Let_def split: prod.splits option.splits)

lemma executeAsync_answered:
  assumes "handler_answers env a cap origin body cfg out"
  defines "ps1 \<equiv> recorded env a cap origin body"
  shows "providerState (fst (executeAsyncHandler env a cap origin body cfg))
      = fst (process_responses (UpdateTime env) cap out ps1)"
    and "snd (snd (executeAsyncHandler env a cap origin body cfg)) =
      dispatchCallbacks cap (snd (process_responses (UpdateTime env) cap out ps1)) out
      @ (let revoked = revoked_keys
               (getProviderState (fst (process_responses (UpdateTime env) cap out ps1)) cap) out
         in dispatchCallbacks cap revoked (emptyResponses revoked))"
  using assms
  by (auto simp: executeAsyncHandler_def handler_answers_def recorded_def split_beta Let_def
      split: option.splits ExecResult.splits)

lemma handler_answers_ok: "handler_answers env a cap origin body cfg out \<Longrightarrow> gomap_ok out"
  by (auto simp: handler_answers_def parseHandlerOutput_ok split: option.splits ExecResult.splits)

lemma in_dispatch_one:
  "cb \<in> set (dispatch_one cap out k) \<longleftrightarrow>
     (\<exists>origin needID r. parseStateKey k = (origin, needID) \<and> needID \<noteq> [] \<and> map_of out k = Some r
        \<and> cb = sendCallback origin (callback_path cap needID) r)"
proof -
  obtain origin needID where k: "parseStateKey k = (origin, needID)" by (cases "parseStateKey k")
  show ?thesis by (cases "map_of out k") (simp_all add: dispatch_one_def k)
qed

lemma in_dispatch:
  "cb \<in> set (dispatchCallbacks cap ks out) \<longleftrightarrow>
     (\<exists>k\<in>set ks. \<exists>origin needID r. parseStateKey k = (origin, needID) \<and> needID \<noteq> [] \<and> map_of out k = Some r
        \<and> cb = sendCallback origin (callback_path cap needID) r)"
  by (simp add: dispatchCallbacks_def in_dispatch_one)

lemma map_of_emptyResponses: "map_of (emptyResponses ks) k = (if k \<in> set ks then Some (Some ''{}'') else None)"
  by (induction ks) (auto simp: emptyResponses_def)

lemma in_revoked_keys:
  assumes "gomap_ok state"
  shows "k \<in> set (revoked_keys state out) \<longleftrightarrow>
     map_of out k = None \<and> raw_len (response_of (map_of state k)) > 0"
proof -
  have "k \<in> set (revoked_keys state out) \<longleftrightarrow>
      (\<exists>e. (k, e) \<in> set state \<and> raw_len (Response e) > 0 \<and> map_of out k = None)"
    by (simp add: revoked_keys_def image_iff)
  also have "\<dots> \<longleftrightarrow> (\<exists>e. map_of state k = Some e \<and> raw_len (Response e) > 0 \<and> map_of out k = None)"
    using assms by simp
  also have "\<dots> \<longleftrightarrow> map_of out k = None \<and> raw_len (response_of (map_of state k)) > 0"
    by (cases "map_of state k") (auto simp: response_of_def raw_len_def)
  finally show ?thesis .
qed

lemma in_changed_keys:
  "gomap_ok out \<Longrightarrow> k \<in> set (snd (process_responses t c out ps)) \<longleftrightarrow>
     (\<exists>r. map_of out k = Some r \<and> response_changed (map_of (getProviderState ps c) k) r)"
  by (force simp: process_responses_changed)

end
