(* ===== verification/Provider_Calls.thy ===== *)
theory Provider_Calls
  imports Provider_Async
begin

text \<open>
  What one run of an asynchronous capability does as a whole: the entries it leaves, the
  callbacks it sends, what a failing handler and a malformed request leave behind, and the
  same for \<open>runTrigger\<close>.
\<close>

section \<open>What the callbacks of a handler run are\<close>

text \<open>
  The specification of the callbacks of one handler run: \<open>before\<close> gives the entries the run
  started from. A key the handler answered is called back with the answer when the answer
  differs from the stored one; a key it left out, and that had a response, is revoked with
  \<open>{}\<close>; a key without a need ID is never called back.
\<close>

definition expected_callback ::
  "string \<Rightarrow> (string \<Rightarrow> ProviderStateEntry option) \<Rightarrow> AsyncHandlerOutput \<Rightarrow> Callback \<Rightarrow> bool" where
  "expected_callback cap before out cb \<longleftrightarrow>
     (\<exists>k host needID r. parseStateKey k = (host, needID) \<and> needID \<noteq> []
        \<and> cb = sendCallback host (callback_path cap needID) r
        \<and> (case map_of out k of
             Some r' \<Rightarrow> r = r' \<and> response_changed (before k) r'
           | None \<Rightarrow> r = Some ''{}'' \<and> raw_len (response_of (before k)) > 0))"

lemma dispatch_expected:
  assumes changed: "\<And>k. k \<in> set changed \<longleftrightarrow> (\<exists>r. map_of out k = Some r \<and> response_changed (before k) r)"
    and revoked: "\<And>k. k \<in> set revoked \<longleftrightarrow> map_of out k = None \<and> raw_len (response_of (before k)) > 0"
  shows "cb \<in> set (dispatchCallbacks cap changed out @ dispatchCallbacks cap revoked (emptyResponses revoked))
    \<longleftrightarrow> expected_callback cap before out cb" (is "?l \<longleftrightarrow> ?r")
proof
  assume ?l
  then consider (c) k h n r where "k \<in> set changed" "parseStateKey k = (h, n)" "n \<noteq> []"
      "map_of out k = Some r" "cb = sendCallback h (callback_path cap n) r"
    | (v) k h n where "k \<in> set revoked" "parseStateKey k = (h, n)" "n \<noteq> []"
      "cb = sendCallback h (callback_path cap n) (Some ''{}'')"
    by (auto simp: in_dispatch map_of_emptyResponses)
  then show ?r
  proof cases
    case c
    then show ?thesis
      unfolding expected_callback_def by (intro exI [of _ k] exI [of _ h] exI [of _ n] exI [of _ r]) (auto simp: changed)
  next
    case v
    then show ?thesis
      unfolding expected_callback_def
      by (intro exI [of _ k] exI [of _ h] exI [of _ n] exI [of _ "Some ''{}''"]) (auto simp: revoked)
  qed
next
  assume ?r
  then obtain k h n r where k: "parseStateKey k = (h, n)" "n \<noteq> []" "cb = sendCallback h (callback_path cap n) r"
    and r: "case map_of out k of
             Some r' \<Rightarrow> r = r' \<and> response_changed (before k) r'
           | None \<Rightarrow> r = Some ''{}'' \<and> raw_len (response_of (before k)) > 0"
    unfolding expected_callback_def by blast
  show ?l
  proof (cases "map_of out k")
    case None
    then have "cb \<in> set (dispatchCallbacks cap revoked (emptyResponses revoked))"
      using r by (auto simp: in_dispatch map_of_emptyResponses k revoked intro!: bexI [of _ k])
    then show ?thesis by simp
  next
    case (Some r')
    then have "cb \<in> set (dispatchCallbacks cap changed out)"
      using r by (auto simp: in_dispatch k changed intro!: bexI [of _ k])
    then show ?thesis by simp
  qed
qed

text \<open>The entry under a key after the request of this call is recorded.\<close>

definition recorded_entry ::
  "HostEnv \<Rightarrow> Agent \<Rightarrow> string \<Rightarrow> string \<Rightarrow> string \<Rightarrow> string \<Rightarrow> ProviderStateEntry option" where
  "recorded_entry env a cap origin body k =
     (if k = makeStateKey origin (Some body)
      then Some \<lparr>Request = Some body, Response = None, UpdatedAt = RecordTime env\<rparr>
      else map_of (getProviderState (providerState a) cap) k)"

lemma recorded_entry:
  "map_of (getProviderState (recorded env a cap origin body) cap) k = recorded_entry env a cap origin body k"
  by (simp add: recorded_def recorded_entry_def recordProviderRequest_entry)

lemma state_ok_recorded: "state_ok (providerState a) \<Longrightarrow> state_ok (recorded env a cap origin body)"
  by (simp add: recorded_def state_ok_record)

lemma in_revoked_after:
  assumes "state_ok ps" and "gomap_ok out"
  shows "k \<in> set (revoked_keys (getProviderState (fst (process_responses t cap out ps)) cap) out) \<longleftrightarrow>
    map_of out k = None \<and> raw_len (response_of (map_of (getProviderState ps cap) k)) > 0"
  using assms by (auto simp: in_revoked_keys state_ok_get state_ok_process process_responses_entry)

definition trigger_answers ::
  "HostEnv \<Rightarrow> CapabilityConfig gomap \<Rightarrow> ProviderState \<Rightarrow> string \<Rightarrow> bool \<Rightarrow> AsyncHandlerOutput \<Rightarrow> bool" where
  "trigger_answers env caps ps cap force out \<longleftrightarrow>
     (case map_of caps cap of None \<Rightarrow> False
      | Some cfg \<Rightarrow> getProviderState ps cap \<noteq> [] \<and> HandlerExists env (handler_path cap)
        \<and> (case marshal_input (build_input (\<not> force \<and> CacheResponse cfg) (getProviderState ps cap)) of
             None \<Rightarrow> False
           | Some inp \<Rightarrow>
               (case RunHandler env (handler_path cap)
                       [(''FORT_CAPABILITY'', cap), (''FORT_MODE'', ''async''),
                        (''FORT_TRIGGER'', if force then ''force-refresh'' else ''systemd'')] inp of
                  ExecOk output \<Rightarrow> parseHandlerOutput output (Format cfg) = Some out
                | ExecExit stderr stdout \<Rightarrow> False
                | ExecFailed err \<Rightarrow> False)))"


lemma runTrigger_answered:
  assumes "trigger_answers env caps ps cap force out"
    and "runTrigger env (Loaded caps) (Loaded ps) cap force = (None, Loaded data, cbs)"
  shows "marshalProviderState
           (AList.update cap (fst (trigger_responses (UpdateTime env) out (getProviderState ps cap))) ps) = Some data"
    and "cbs = dispatchCallbacks cap (snd (trigger_responses (UpdateTime env) out (getProviderState ps cap))) out
          @ (let revoked = revoked_keys (fst (trigger_responses (UpdateTime env) out (getProviderState ps cap))) out
             in dispatchCallbacks cap revoked (emptyResponses revoked))"
    and "gomap_ok out"
  using assms
  by (auto simp: runTrigger_def trigger_answers_def Let_def split_beta parseHandlerOutput_ok
      split: option.splits if_splits ExecResult.splits)

lemma gomap_ok_trigger: "gomap_ok state \<Longrightarrow> gomap_ok (fst (trigger_responses t out state))"
  unfolding trigger_responses_def
  by (rule fold_invariant_all [where I = "\<lambda>s. gomap_ok (fst s)"])
    (auto simp: trigger_one_def Let_def gomap_ok_update split: prod.splits)

section \<open>Example\<close>

definition demo_env :: HostEnv where
  "demo_env = \<lparr>RunHandler = (\<lambda>path vars inp. ExecOk (js ''{~web:app-x~:{~url~:~u~},~old:app-y~:{~error~:~e~}}'')),
     HandlerExists = (\<lambda>p. True), WriteError = (\<lambda>p. None), JsonError = (\<lambda>s. ''bad''),
     RecordTime = 100, UpdateTime = (\<lambda>k. 101), HandleTime = 0, HashSha256 = (\<lambda>s. s)\<rparr>"

definition demo_cfg :: CapabilityConfig where
  "demo_cfg = zero_CapabilityConfig\<lparr>Mode := ''async''\<rparr>"

definition demo_caps :: "CapabilityConfig gomap" where
  "demo_caps = [(''app'', demo_cfg)]"

definition demo_state :: ProviderState where
  "demo_state = [(''app'',
     [(''old:app-y'', \<lparr>Request = Some (js ''{~_fort_need_id~:~app-y~}''), Response = Some (js ''{~url~:~v~}''), UpdatedAt = 7\<rparr>),
      (''gone:app-z'', \<lparr>Request = Some (js ''{~_fort_need_id~:~app-z~}''), Response = Some (js ''{~url~:~w~}''), UpdatedAt = 8\<rparr>)])]"

definition demo_agent :: Agent where
  "demo_agent = \<lparr>hosts = [(''web'', ''ssh-ed25519 AAAA'')], rbac = [(''app'', [''web''])], capabilities = demo_caps,
     needs = [], providerState = demo_state, providerFile = Absent ''none'', handleFiles = [],
     fulfillmentFile = Absent ''none''\<rparr>"

definition demo_body :: string where
  "demo_body = (js ''{~_fort_need_id~:~app-x~}'')"

definition demo_out :: AsyncHandlerOutput where
  "demo_out = [(''web:app-x'', Some (js ''{~url~:~u~}'')), (''old:app-y'', Some (js ''{~error~:~e~}''))]"

lemma demo_answers: "handler_answers demo_env demo_agent ''app'' ''web'' demo_body demo_cfg demo_out"
  by code_simp

lemma demo_trigger: "trigger_answers demo_env demo_caps demo_state ''app'' False demo_out"
  by code_simp

lemma demo_ok: "state_ok demo_state" by (simp add: state_ok_def demo_state_def)

definition demo_after :: ProviderState where
  "demo_after = [(''app'',
     [(''old:app-y'', \<lparr>Request = Some (js ''{~_fort_need_id~:~app-y~}''), Response = Some (js ''{~error~:~e~}''), UpdatedAt = 101\<rparr>),
      (''gone:app-z'', \<lparr>Request = Some (js ''{~_fort_need_id~:~app-z~}''), Response = Some (js ''{~url~:~w~}''), UpdatedAt = 8\<rparr>),
      (''web:app-x'', \<lparr>Request = Some ''null'', Response = Some (js ''{~url~:~u~}''), UpdatedAt = 101\<rparr>)])]"

lemma demo_trigger_run:
  "runTrigger demo_env (Loaded demo_caps) (Loaded demo_state) ''app'' False =
     (None, Loaded demo_after,
      [(''web'', ''needs/app/x'', js ''{~url~:~u~}''), (''old'', ''needs/app/y'', js ''{~error~:~e~}''),
       (''gone'', ''needs/app/z'', ''{}'')])"
  by code_simp

lemma demo_agent_ok: "state_ok (providerState demo_agent)"
  using demo_ok by (simp add: demo_agent_def)

section \<open>Properties\<close>

lemma async_state:
  assumes "handler_answers env a cap origin body cfg out"
  shows "map_of (getProviderState (providerState (fst (executeAsyncHandler env a cap origin body cfg))) c) k =
    (if c \<noteq> cap then map_of (getProviderState (providerState a) c) k
     else case map_of out k of
            None \<Rightarrow> recorded_entry env a cap origin body k
          | Some r \<Rightarrow> updated_entry (UpdateTime env k) r (recorded_entry env a cap origin body k))"
proof -
  have ok: "gomap_ok out" using assms by (rule handler_answers_ok)
  show ?thesis
  proof (cases "c = cap")
    case True
    then show ?thesis
      by (simp add: executeAsync_answered(1) [OF assms] process_responses_entry [OF ok] recorded_entry
          split: option.splits)
  next
    case False
    then show ?thesis
      by (simp add: executeAsync_answered(1) [OF assms] process_responses_other)
        (simp add: recorded_def recordProviderRequest_entry)
  qed
qed

text \<open>
  C4: a call whose handler answered leaves, under every key of its capability, the recorded
  entry updated with the handler's answer for that key if it gave one (an answer that is an
  error object changes nothing), and leaves every other capability alone, whatever order the
  output is walked in.
\<close>

theorem async_call_state:
  assumes "handler_answers env a cap origin body cfg out"
  shows "map_of (getProviderState (providerState (fst (executeAsyncHandler env a cap origin body cfg))) c) k =
    (if c \<noteq> cap then map_of (getProviderState (providerState a) c) k
     else case map_of out k of
            None \<Rightarrow> recorded_entry env a cap origin body k
          | Some r \<Rightarrow> updated_entry (UpdateTime env k) r (recorded_entry env a cap origin body k))"
  using assms by (rule async_state)

theorem async_call_state_witness:
  "handler_answers demo_env demo_agent ''app'' ''web'' demo_body demo_cfg demo_out
   \<and> map_of (getProviderState (providerState
        (fst (executeAsyncHandler demo_env demo_agent ''app'' ''web'' demo_body demo_cfg))) ''app'') ''web:app-x''
      = Some \<lparr>Request = Some demo_body, Response = Some (js ''{~url~:~u~}''), UpdatedAt = 101\<rparr>"
proof -
  have u: "updated_entry 101 r (Some e) = Some (e\<lparr>Response := r, UpdatedAt := 101\<rparr>)"
    if "\<not> is_error_response r" for r e using that by (simp add: updated_entry_def)
  have o: "map_of demo_out ''web:app-x'' = Some (Some (js ''{~url~:~u~}''))" by code_simp
  have n: "\<not> is_error_response (Some (js ''{~url~:~u~}''))" by code_simp
  have k: "makeStateKey ''web'' (Some demo_body) = ''web:app-x''" by code_simp
  have t: "UpdateTime demo_env ''web:app-x'' = 101" "RecordTime demo_env = 100" by (simp_all add: demo_env_def)
  show ?thesis
    using demo_answers async_call_state [OF demo_answers, of "''app''" "''web:app-x''"]
    by (simp add: o u [OF n] recorded_entry_def k t)
qed

lemma async_callbacks:
  assumes "state_ok (providerState a)" and "handler_answers env a cap origin body cfg out"
  shows "cb \<in> set (snd (snd (executeAsyncHandler env a cap origin body cfg))) \<longleftrightarrow>
    expected_callback cap (recorded_entry env a cap origin body) out cb"
proof -
  have ok: "gomap_ok out" using assms(2) by (rule handler_answers_ok)
  have sok: "state_ok (recorded env a cap origin body)" using assms(1) by (rule state_ok_recorded)
  show ?thesis
    unfolding executeAsync_answered(2) [OF assms(2)] Let_def
    by (rule dispatch_expected) (simp_all add: in_changed_keys [OF ok] in_revoked_after [OF sok ok] recorded_entry)
qed



lemma async_unanswered:
  "(\<exists>out. handler_answers env a cap origin body cfg out)
   \<or> (\<exists>msg. executeAsyncHandler env a cap origin body cfg
        = (a\<lparr>providerState := recorded env a cap origin body\<rparr>, errorResponse 500 msg, []))"
  unfolding executeAsyncHandler_def handler_answers_def recorded_def Let_def split_beta
  by (cases "marshal_input (build_input (CacheResponse cfg) (getProviderState
         (fst (recordProviderRequest (providerState a) cap origin (Some body) (RecordTime env))) cap))")
    (auto split: ExecResult.splits option.splits)

text \<open>
  the caller of an asynchronous capability is always called back with the handler's
  answer for its key, also when that answer is the one it was given before: recording the
  request drops the stored response, so the comparison finds a change.
\<close>

theorem caller_always_answered:
  assumes "state_ok (providerState a)" and "handler_answers env a cap origin body cfg out"
    and "CHR '':'' \<notin> set origin" and "extractNeedID (Some body) \<noteq> []"
    and "map_of out (makeStateKey origin (Some body)) = Some r" and "raw_len r > 0"
  shows "sendCallback origin (callback_path cap (extractNeedID (Some body))) r
    \<in> set (snd (snd (executeAsyncHandler env a cap origin body cfg)))"
proof -
  have "expected_callback cap (recorded_entry env a cap origin body) out
      (sendCallback origin (callback_path cap (extractNeedID (Some body))) r)"
    unfolding expected_callback_def
    by (rule exI [of _ "makeStateKey origin (Some body)"], rule exI [of _ origin],
        rule exI [of _ "extractNeedID (Some body)"], rule exI [of _ r])
      (use assms in \<open>auto simp: parse_makeStateKey recorded_entry_def response_changed_def response_of_def
        jsonEqual_def raw_len_bytes raw_bytes_def split: option.splits\<close>)
  then show ?thesis by (simp add: async_callbacks [OF assms(1,2)])
qed

theorem caller_always_answered_witness:
  "(''web'', ''needs/app/x'', js ''{~url~:~u~}'')
     \<in> set (snd (snd (executeAsyncHandler demo_env demo_agent ''app'' ''web'' demo_body demo_cfg)))"
proof -
  have o: "map_of demo_out (makeStateKey ''web'' (Some demo_body)) = Some (Some (js ''{~url~:~u~}''))" by code_simp
  have n: "extractNeedID (Some demo_body) = ''app-x''" by code_simp
  have s: "sendCallback ''web'' (callback_path ''app'' ''app-x'') (Some (js ''{~url~:~u~}''))
      = (''web'', ''needs/app/x'', js ''{~url~:~u~}'')" by code_simp
  have l: "raw_len (Some (js ''{~url~:~u~}'')) > 0" by code_simp
  show ?thesis
    using caller_always_answered [OF demo_agent_ok demo_answers _ _ o l] by (simp add: n s)
qed

text \<open>
  C20: one request with a body that is not JSON disables its capability: until the process is
  restarted, every call that does not overwrite the same key is answered 500 without running
  the handler, and the state of no capability can be saved any more.
\<close>

theorem malformed_request_poisons:
  fixes env env' :: HostEnv and cfg cfg' :: CapabilityConfig and a :: Agent and cap origin :: string
  assumes "\<not> json_valid body" and "makeStateKey origin' (Some body') \<noteq> origin"
  defines "a1 \<equiv> fst (executeAsyncHandler env a cap origin body cfg)"
  shows "fst (snd (executeAsyncHandler env' a1 cap origin' body' cfg')) = errorResponse 500 ''failed to marshal handler input''
    \<and> snd (snd (executeAsyncHandler env' a1 cap origin' body' cfg')) = []
    \<and> saveProviderState env' a1 = (Some ''marshal provider state'', a1)"
proof -
  let ?ps = "fst (recordProviderRequest (providerState a) cap origin (Some body) (RecordTime env))"
  have a1: "providerState a1 = ?ps" by (simp add: a1_def executeAsync_malformed [OF assms(1)])
  have e: "map_of (getProviderState (providerState a1) cap) origin
      = Some \<lparr>Request = Some body, Response = None, UpdatedAt = RecordTime env\<rparr>"
    by (simp add: a1 recordProviderRequest_entry makeStateKey_invalid [OF assms(1)])
  have r: "Request \<lparr>Request = Some body, Response = None, UpdatedAt = RecordTime env\<rparr> = Some body" by simp
  show ?thesis
    by (simp add: executeAsync_poisoned [OF e r assms(1,2)] saveProviderState_def
        marshalProviderState_None [OF e r assms(1)])
qed

theorem malformed_request_poisons_witness:
  "fst (snd (executeAsyncHandler demo_env
       (fst (executeAsyncHandler demo_env demo_agent ''app'' ''web'' ''bad{'' demo_cfg)) ''app'' ''web''
       demo_body demo_cfg)) = errorResponse 500 ''failed to marshal handler input''"
proof -
  have "\<not> json_valid ''bad{''" and "makeStateKey ''web'' (Some demo_body) \<noteq> ''web''" by code_simp+
  then show ?thesis by (rule malformed_request_poisons [THEN conjunct1])
qed



text \<open>
  a trigger run that returns an error has changed no file and sent no callback.
\<close>

theorem trigger_error:
  "runTrigger env capsFile stateFile cap force = (Some err, file, cbs) \<Longrightarrow> file = stateFile \<and> cbs = []"
  by (auto simp: runTrigger_def Let_def split_beta split: option.splits if_splits ExecResult.splits FileLoad.splits)

theorem trigger_error_witness:
  "runTrigger demo_env (Absent ''no such file'') (Loaded demo_state) ''app'' True
     = (Some (''read capabilities.json: no such file''), Loaded demo_state, [])"
proof -
  have r: "fst (runTrigger demo_env (Absent ''no such file'') (Loaded demo_state) ''app'' True)
      = Some (''read capabilities.json: no such file'')" by (simp add: runTrigger_def)
  then show ?thesis
    using trigger_error [of demo_env "Absent ''no such file''" "Loaded demo_state" "''app''" True]
    by (metis prod.collapse)
qed

text \<open>
  a callback arrives at the need it is for: the consumer reads from the path the provider
  built the capability and a name that make up the very need ID again, exactly when the need ID
  is the capability, a hyphen and a name; and the path is the one the garbage collector looks
  for in the consumer's list of needs.
\<close>

theorem callback_reaches_need:
  assumes "cap \<noteq> []" and "CHR ''/'' \<notin> set cap"
  shows "((\<exists>name. callback_of_path (callback_path cap needID) = Some (cap, name) \<and> cap @ ''-'' @ name = needID)
      \<longleftrightarrow> (\<exists>name. name \<noteq> [] \<and> needID = cap @ ''-'' @ name))
   \<and> callback_path cap (cap @ ''-'' @ name) = ''/fort/needs/'' @ needIDToPath cap (cap @ ''-'' @ name)"
proof -
  have cp: "callback_of_path (''/fort/needs/'' @ cap @ ''/'' @ n) = (if n = [] then None else Some (cap, n))" for n
    using assms TrimPrefix_append [of "''/fort/needs/''" "cap @ ''/'' @ n"]
    by (simp add: callback_of_path_def SplitN2_append)
  have tp: "TrimPrefix (cap @ ''-'' @ n) (cap @ ''-'') = n" for n
    using TrimPrefix_append [of "cap @ ''-''" n] by simp
  have "(\<exists>name. callback_of_path (callback_path cap needID) = Some (cap, name) \<and> cap @ ''-'' @ name = needID)
      \<longleftrightarrow> (\<exists>name. name \<noteq> [] \<and> needID = cap @ ''-'' @ name)"
  proof
    assume "\<exists>name. callback_of_path (callback_path cap needID) = Some (cap, name) \<and> cap @ ''-'' @ name = needID"
    then obtain n where "callback_of_path (callback_path cap needID) = Some (cap, n)" "cap @ ''-'' @ n = needID" by blast
    then show "\<exists>name. name \<noteq> [] \<and> needID = cap @ ''-'' @ name"
      using cp [of n] tp [of n] by (cases "n = []") (auto simp: callback_path_def)
  next
    assume "\<exists>name. name \<noteq> [] \<and> needID = cap @ ''-'' @ name"
    then obtain n where "n \<noteq> []" "needID = cap @ ''-'' @ n" by blast
    then show "\<exists>name. callback_of_path (callback_path cap needID) = Some (cap, name) \<and> cap @ ''-'' @ name = needID"
      using cp [of n] tp [of n] by (simp add: callback_path_def)
  qed
  moreover have "callback_path cap (cap @ ''-'' @ name) = ''/fort/needs/'' @ needIDToPath cap (cap @ ''-'' @ name)"
    using tp [of name] by (simp add: callback_path_def)
  ultimately show ?thesis by blast
qed

theorem callback_reaches_need_witness:
  "callback_of_path (callback_path ''oidc-register'' ''oidc-register-outline'') = Some (''oidc-register'', ''outline'')
   \<and> callback_path ''oidc-register'' ''oidc-register-outline''
       = ''/fort/needs/'' @ needIDToPath ''oidc-register'' ''oidc-register-outline''"
  using callback_reaches_need [of "''oidc-register''" "''oidc-register-outline''" "''outline''"] by auto

end
