(* ===== verification/Provider_GC.thy ===== *)
theory Provider_GC
  imports Provider_Calls
begin

text \<open>
  \<open>runGC\<close> of \<open>pkgs/fort-provider/main.go\<close>: the sweep that asks every origin for its
  declared needs and drops the entries of needs it no longer declares, the handler runs after
  it, and the rotation of responses that near their expiry.
\<close>

section \<open>Asking an origin\<close>

text \<open>
  \<open>queryOriginNeeds\<close> on the result of running \<open>fort <origin> needs {}\<close>: the declared
  need paths, or \<open>None\<close> for every failure (the process, the envelope, the status, the body).
\<close>

definition queryOriginNeeds :: "ExecResult \<Rightarrow> string list option" where
  "queryOriginNeeds res =
     (case res of
        ExecExit stderr stdout \<Rightarrow> None
      | ExecFailed err \<Rightarrow> None
      | ExecOk output \<Rightarrow>
          (case raw_object output of
             None \<Rightarrow> None
           | Some envelope \<Rightarrow>
               (case (dec_field ''body'' (\<lambda>x _. Some (Some x)) None envelope,
                      dec_field ''status'' (parse_raw dec_int) 0 envelope) of
                  (Some body, Some status) \<Rightarrow>
                    if status < 200 \<or> status \<ge> 300 then None
                    else (case raw_object (raw_bytes body) of
                            None \<Rightarrow> None
                          | Some resp \<Rightarrow> dec_field ''needs'' (parse_raw dec_strings) [] resp)
                | _ \<Rightarrow> None)))"

section \<open>Sweeping one capability\<close>

text \<open>An entry is an orphan when its origin answered and did not list its need.\<close>

definition is_orphan :: "(string \<Rightarrow> string list option) \<Rightarrow> string \<Rightarrow> string \<Rightarrow> bool" where
  "is_orphan query capName key =
     (case parseStateKey key of (origin, needID) \<Rightarrow>
        (case query origin of
           None \<Rightarrow> False
         | Some declared \<Rightarrow> needIDToPath capName needID \<notin> set declared))"

definition keysToRemove :: "(string \<Rightarrow> string list option) \<Rightarrow> string \<Rightarrow> CapState \<Rightarrow> string list" where
  "keysToRemove query capName state = filter (is_orphan query capName) (map fst state)"

definition gc_applies :: "CapabilityConfig \<Rightarrow> bool" where
  "gc_applies cfg \<longleftrightarrow> \<not> (Mode cfg = ''rpc'' \<and> \<not> NeedsGC cfg)"

text \<open>
  One turn of the first loop, on the provider state, the set of modified capabilities (in the
  order of the loop) and the number of entries removed.
\<close>

definition gc_sweep_one ::
  "(string \<Rightarrow> string \<Rightarrow> string list option) \<Rightarrow> string \<times> CapabilityConfig
     \<Rightarrow> ProviderState \<times> string list \<times> nat \<Rightarrow> ProviderState \<times> string list \<times> nat" where
  "gc_sweep_one query nc acc =
     (case (nc, acc) of ((capName, cfg), (ps, modified, removed)) \<Rightarrow>
        let state = getProviderState ps capName in
        if \<not> gc_applies cfg \<or> length state = 0 then (ps, modified, removed)
        else
          (let ks = keysToRemove (query capName) capName state in
           if ks = [] then (ps, modified, removed)
           else (AList.update capName (fold AList.delete ks state) ps,
                 modified @ [capName], removed + length ks)))"

definition gc_sweep ::
  "(string \<Rightarrow> string \<Rightarrow> string list option) \<Rightarrow> CapabilityConfig gomap \<Rightarrow> ProviderState
     \<Rightarrow> ProviderState \<times> string list \<times> nat" where
  "gc_sweep query caps ps = fold (gc_sweep_one query) caps (ps, [], 0)"

section \<open>Running a handler after the sweep\<close>

definition gc_store_one ::
  "(string \<Rightarrow> int) \<Rightarrow> bool \<Rightarrow> string \<times> raw \<Rightarrow> CapState \<times> string list \<Rightarrow> CapState \<times> string list" where
  "gc_store_one t dispatch kr acc =
     (case (kr, acc) of ((key, response), (state, changed)) \<Rightarrow>
        (case map_of state key of
           None \<Rightarrow> (state, changed)
         | Some entry \<Rightarrow>
             (AList.update key (entry\<lparr>Response := response, UpdatedAt := t key\<rparr>) state,
              if dispatch \<and> \<not> jsonEqual (raw_bytes (Response entry)) (raw_bytes response)
              then changed @ [key] else changed)))"

text \<open>
  The error, the state map as the call leaves it in memory, and the callbacks. The source
  changes the map in place and writes no file.
\<close>

definition invokeHandlerForGC ::
  "HostEnv \<Rightarrow> string \<Rightarrow> CapabilityConfig \<Rightarrow> CapState \<Rightarrow> bool \<Rightarrow> string option \<times> CapState \<times> Callback list" where
  "invokeHandlerForGC env capName cfg state dispatch =
     (if \<not> HandlerExists env (handler_path capName)
      then (Some (''handler not found: '' @ handler_path capName), state, [])
      else
        (case marshal_input (build_input (CacheResponse cfg) state) of
           None \<Rightarrow> (Some ''marshal input'', state, [])
         | Some inputBytes \<Rightarrow>
             (case RunHandler env (handler_path capName)
                     [(''FORT_CAPABILITY'', capName), (''FORT_MODE'', ''async''), (''FORT_TRIGGER'', ''gc'')]
                     inputBytes of
                ExecExit stderr stdout \<Rightarrow> (Some (exec_error stderr stdout), state, [])
              | ExecFailed err \<Rightarrow> (Some (''handler exec failed: '' @ err), state, [])
              | ExecOk output \<Rightarrow>
                  (case parseHandlerOutput output (Format cfg) of
                     None \<Rightarrow> (Some (''handler returned invalid JSON: '' @ JsonError env output), state, [])
                   | Some out \<Rightarrow>
                       (let (state2, changed) = fold (gc_store_one (UpdateTime env) dispatch) out (state, [])
                        in (None, state2,
                            if dispatch \<and> changed \<noteq> [] then dispatchCallbacks capName changed out else []))))))"

text \<open>The same on the provider state, for the loops that call it for one capability after another.\<close>

definition gc_invoke ::
  "HostEnv \<Rightarrow> CapabilityConfig gomap \<Rightarrow> bool \<Rightarrow> string \<Rightarrow> ProviderState \<times> Callback list
     \<Rightarrow> ProviderState \<times> Callback list" where
  "gc_invoke env caps dispatch capName acc =
     (case acc of (ps, sent) \<Rightarrow>
        (case invokeHandlerForGC env capName (capability_config caps capName)
                (getProviderState ps capName) dispatch of
           (err, state2, cbs) \<Rightarrow>
             (if map_of ps capName = None then ps else AList.update capName state2 ps, sent @ cbs)))"

section \<open>Rotation\<close>

definition rotationThreshold :: int where
  "rotationThreshold = 2 * 60 * 60"

definition nears_expiry :: "int \<Rightarrow> int \<Rightarrow> ProviderStateEntry \<Rightarrow> bool" where
  "nears_expiry ttl now entry \<longleftrightarrow>
     raw_len (Response entry) \<noteq> 0
     \<and> wrap64 (wrap64 (UpdatedAt entry + ttl) - now) \<le> rotationThreshold"

definition rotation_needed :: "int \<Rightarrow> ProviderState \<Rightarrow> string \<times> CapabilityConfig \<Rightarrow> bool" where
  "rotation_needed now ps nc \<longleftrightarrow>
     (case nc of (capName, cfg) \<Rightarrow>
        TTL cfg > 0 \<and> list_ex (\<lambda>(key, entry). nears_expiry (TTL cfg) now entry) (getProviderState ps capName))"

section \<open>The sweep\<close>

record GcResult =
  GcError :: "string option"
  GcFile :: "ProviderState FileLoad"
  GcMemory :: ProviderState
  GcCallbacks :: "Callback list"
  GcRemoved :: nat
  GcRotated :: "string list"

definition gc_failed :: "string \<Rightarrow> ProviderState FileLoad \<Rightarrow> GcResult" where
  "gc_failed err file =
     \<lparr>GcError = Some err, GcFile = file, GcMemory = [], GcCallbacks = [], GcRemoved = 0, GcRotated = []\<rparr>"

definition gc_nothing :: "ProviderState FileLoad \<Rightarrow> GcResult" where
  "gc_nothing file =
     \<lparr>GcError = None, GcFile = file, GcMemory = [], GcCallbacks = [], GcRemoved = 0, GcRotated = []\<rparr>"

text \<open>What follows the first loop and the write: the two loops of handler runs.\<close>

definition gc_finish ::
  "HostEnv \<Rightarrow> CapabilityConfig gomap \<Rightarrow> int \<Rightarrow> ProviderState FileLoad \<Rightarrow> ProviderState \<Rightarrow> string list \<Rightarrow> nat
     \<Rightarrow> GcResult" where
  "gc_finish env caps now file ps1 modified removed =
     (let (ps2, sent1) = fold (gc_invoke env caps False) modified (ps1, []);
          rotate = map fst (filter (rotation_needed now ps2) caps);
          (ps3, sent2) = fold (gc_invoke env caps True) (filter (\<lambda>c. c \<notin> set modified) rotate) (ps2, sent1)
      in \<lparr>GcError = None, GcFile = file, GcMemory = ps3, GcCallbacks = sent2,
          GcRemoved = removed, GcRotated = rotate\<rparr>)"

definition runGC ::
  "HostEnv \<Rightarrow> (string \<Rightarrow> string \<Rightarrow> ExecResult) \<Rightarrow> int \<Rightarrow> CapabilityConfig gomap FileLoad
     \<Rightarrow> ProviderState FileLoad \<Rightarrow> GcResult" where
  "runGC env fortNeeds now capsFile stateFile =
     (case capsFile of
        Absent e \<Rightarrow> gc_failed (''read capabilities.json: '' @ e) stateFile
      | Corrupt e \<Rightarrow> gc_failed (''parse capabilities.json: '' @ e) stateFile
      | Loaded caps \<Rightarrow>
          (case stateFile of
             Absent e \<Rightarrow> gc_nothing stateFile
           | Corrupt e \<Rightarrow> gc_failed (''parse provider-state.json: '' @ e) stateFile
           | Loaded ps \<Rightarrow>
               if length ps = 0 then gc_nothing stateFile
               else
                 (case gc_sweep (\<lambda>c o'. queryOriginNeeds (fortNeeds c o')) caps ps of
                    (ps1, modified, removed) \<Rightarrow>
                      if removed > 0 then
                        (case marshalProviderState ps1 of
                           None \<Rightarrow> gc_failed ''marshal provider state'' stateFile
                         | Some data \<Rightarrow>
                             (case WriteError env ''/var/lib/fort/provider-state.json'' of
                                Some err \<Rightarrow> gc_failed (''write provider state: '' @ err) stateFile
                              | None \<Rightarrow> gc_finish env caps now (Loaded data) ps1 modified removed))
                      else gc_finish env caps now stateFile ps1 modified removed)))"

section \<open>The sweep\<close>

lemma map_of_delete_all: "map_of (fold AList.delete ks m) k = (if k \<in> set ks then None else map_of m k)"
  by (induction ks arbitrary: m) (auto simp: gomap)

text \<open>The entries the sweep is to remove.\<close>

definition gc_orphaned ::
  "(string \<Rightarrow> string \<Rightarrow> string list option) \<Rightarrow> CapabilityConfig gomap \<Rightarrow> string \<Rightarrow> string \<Rightarrow> bool" where
  "gc_orphaned query caps c k \<longleftrightarrow>
     (\<exists>cfg host needID declared. map_of caps c = Some cfg \<and> gc_applies cfg
        \<and> parseStateKey k = (host, needID) \<and> query c host = Some declared
        \<and> needIDToPath c needID \<notin> set declared)"

lemma gc_sweep_one_entry:
  "map_of (getProviderState (fst (gc_sweep_one query (c, cfg) (ps, modified, n))) c') k =
    (if c' = c \<and> gc_applies cfg \<and> is_orphan (query c) c k then None else map_of (getProviderState ps c') k)"
proof (cases "map_of (getProviderState ps c) k")
  case None
  then show ?thesis
    by (auto simp: gc_sweep_one_def Let_def gomap map_of_delete_all)
next
  case (Some e)
  then have "k \<in> fst ` set (getProviderState ps c)" by (force dest: map_of_SomeD)
  then show ?thesis
    by (auto simp: gc_sweep_one_def Let_def gomap map_of_delete_all keysToRemove_def filter_empty_conv)
qed

lemma gc_sweep_fold:
  "gomap_ok caps \<Longrightarrow> map_of (getProviderState (fst (fold (gc_sweep_one query) caps (ps, modified, n))) c) k =
    (case map_of caps c of
       None \<Rightarrow> map_of (getProviderState ps c) k
     | Some cfg \<Rightarrow> if gc_applies cfg \<and> is_orphan (query c) c k then None else map_of (getProviderState ps c) k)"
proof (induction caps arbitrary: ps modified n)
  case (Cons x caps)
  obtain c' cfg where x: "x = (c', cfg)" by (cases x)
  obtain ps' m' n' where s: "gc_sweep_one query x (ps, modified, n) = (ps', m', n')" by (metis prod.collapse)
  have e: "map_of (getProviderState ps' c) k =
    (if c = c' \<and> gc_applies cfg \<and> is_orphan (query c') c' k then None else map_of (getProviderState ps c) k)"
    using gc_sweep_one_entry [of query c' cfg ps modified n c k] s by (simp add: x)
  have f: "fold (gc_sweep_one query) (x # caps) (ps, modified, n) = fold (gc_sweep_one query) caps (ps', m', n')"
    by (simp add: s)
  show ?case
  proof (cases "c = c'")
    case True
    then have "map_of caps c = None" using Cons.prems by (simp add: x map_of_eq_None_iff)
    then show ?thesis unfolding f using Cons.IH [of ps' m' n'] Cons.prems e True by (simp add: x)
  next
    case False
    then show ?thesis unfolding f using Cons.IH [of ps' m' n'] Cons.prems e
      by (simp add: x split: option.splits)
  qed
qed simp

lemma gc_finish_file [simp]: "GcFile (gc_finish env caps now file ps m n) = file" "GcError (gc_finish env caps now file ps m n) = None"
  and gc_finish_removed: "GcRemoved (gc_finish env caps now file ps m n) = n"
  by (simp_all add: gc_finish_def split_beta Let_def)

lemma runGC_loaded:
  assumes "GcError (runGC env fortNeeds now (Loaded caps) (Loaded ps)) = None" and "ps \<noteq> []"
  defines "sw \<equiv> gc_sweep (\<lambda>c h. queryOriginNeeds (fortNeeds c h)) caps ps"
  shows "GcRemoved (runGC env fortNeeds now (Loaded caps) (Loaded ps)) = snd (snd sw)"
    and "if snd (snd sw) = 0 then GcFile (runGC env fortNeeds now (Loaded caps) (Loaded ps)) = Loaded ps
         else \<exists>data. marshalProviderState (fst sw) = Some data
                \<and> GcFile (runGC env fortNeeds now (Loaded caps) (Loaded ps)) = Loaded data"
  using assms
  by (auto simp: runGC_def gc_failed_def split_beta Let_def gc_finish_removed split: option.splits if_splits)

section \<open>The handler runs\<close>

interpretation gc_loop: response_loop
  "\<lambda>state k. map_of state k"
  "\<lambda>k r state. (case map_of state k of None \<Rightarrow> state
      | Some e \<Rightarrow> AList.update k (e\<lparr>Response := r, UpdatedAt := t k\<rparr>) state)"
  "\<lambda>k r e. map_option (\<lambda>x. x\<lparr>Response := r, UpdatedAt := t k\<rparr>) e"
  "\<lambda>e r. dispatch \<and> e \<noteq> None \<and> response_changed e r"
  "gc_store_one t dispatch" for t dispatch
  by unfold_locales
    (auto simp: gomap gc_store_one_def response_changed_def response_of_def split: option.splits)

definition gc_answers ::
  "HostEnv \<Rightarrow> string \<Rightarrow> CapabilityConfig \<Rightarrow> CapState \<Rightarrow> AsyncHandlerOutput \<Rightarrow> bool" where
  "gc_answers env cap cfg state out \<longleftrightarrow> HandlerExists env (handler_path cap)
     \<and> (case marshal_input (build_input (CacheResponse cfg) state) of
          None \<Rightarrow> False
        | Some inp \<Rightarrow>
            (case RunHandler env (handler_path cap)
                    [(''FORT_CAPABILITY'', cap), (''FORT_MODE'', ''async''), (''FORT_TRIGGER'', ''gc'')] inp of
               ExecOk output \<Rightarrow> parseHandlerOutput output (Format cfg) = Some out
             | ExecExit stderr stdout \<Rightarrow> False
             | ExecFailed err \<Rightarrow> False))"

lemma invokeGC_answered:
  assumes "gc_answers env cap cfg state out"
  shows "invokeHandlerForGC env cap cfg state dispatch =
    (None, fst (fold (gc_store_one (UpdateTime env) dispatch) out (state, [])),
     dispatchCallbacks cap (snd (fold (gc_store_one (UpdateTime env) dispatch) out (state, []))) out)"
    and "gomap_ok out"
proof -
  have nil: "dispatchCallbacks cap [] out = []" by (simp add: dispatchCallbacks_def)
  show ok: "gomap_ok out" using assms
    by (auto simp: gc_answers_def parseHandlerOutput_ok split: option.splits ExecResult.splits)
  have "snd (fold (gc_store_one (UpdateTime env) False) out (state, [])) = []"
    by (simp add: gc_loop.loop_changed [OF ok])
  then show "invokeHandlerForGC env cap cfg state dispatch =
    (None, fst (fold (gc_store_one (UpdateTime env) dispatch) out (state, [])),
     dispatchCallbacks cap (snd (fold (gc_store_one (UpdateTime env) dispatch) out (state, []))) out)"
    using assms
    by (cases dispatch)
      (auto simp: invokeHandlerForGC_def gc_answers_def split_beta nil split: option.splits ExecResult.splits)
qed

section \<open>Example\<close>

definition demo_needs :: "string \<Rightarrow> string \<Rightarrow> ExecResult" where
  "demo_needs cap host =
     (if host = ''old'' then ExecOk (js ''{~body~:{~needs~:[~app/y~]},~status~:200}'')
      else if host = ''gone'' then ExecOk (js ''{~body~:{~needs~:[]},~status~:200}'')
      else ExecFailed ''unreachable'')"

definition demo_swept :: ProviderState where
  "demo_swept = [(''app'',
     [(''old:app-y'', \<lparr>Request = Some (js ''{~_fort_need_id~:~app-y~}''), Response = Some (js ''{~url~:~v~}''), UpdatedAt = 7\<rparr>)])]"

definition demo_env2 :: HostEnv where
  "demo_env2 = demo_env\<lparr>RunHandler := (\<lambda>path vars inp. ExecFailed ''no such file''), UpdateTime := (\<lambda>k. 900)\<rparr>"

section \<open>Properties\<close>

lemma gc_sweep_entries:
  assumes "gomap_ok caps"
  shows "map_of (getProviderState (fst (gc_sweep query caps ps)) c) k =
    (if gc_orphaned query caps c k then None else map_of (getProviderState ps c) k)"
  unfolding gc_sweep_def gc_sweep_fold [OF assms]
  by (auto simp: gc_orphaned_def is_orphan_def split: option.splits prod.splits)



text \<open>
  what a collection leaves in the state file does not depend on what the handlers answer: two
  runs that differ only in the handlers and in the clock leave the same file. The responses of a
  rotation are therefore never saved, and the next collection finds the old ones again.
\<close>

theorem gc_file_ignores_handlers:
  assumes "WriteError env ''/var/lib/fort/provider-state.json'' = WriteError env' ''/var/lib/fort/provider-state.json''"
  shows "GcFile (runGC env fortNeeds now capsFile stateFile) = GcFile (runGC env' fortNeeds now' capsFile stateFile)"
  using assms by (auto simp: runGC_def Let_def split: FileLoad.splits option.splits prod.splits)

theorem gc_file_ignores_handlers_witness:
  "GcFile (runGC demo_env demo_needs 1000 (Loaded demo_caps) (Loaded demo_state))
     = GcFile (runGC demo_env2 demo_needs 2000 (Loaded demo_caps) (Loaded demo_state))"
  by (rule gc_file_ignores_handlers) (simp add: demo_env2_def)

text \<open>
  a handler run of the collection answers existing entries only: it makes no entry, revokes
  nothing, and calls back exactly the keys whose answer changed, and only when it runs for a
  rotation.
\<close>

theorem gc_handler_run:
  assumes "gc_answers env cap cfg state out"
    and "invokeHandlerForGC env cap cfg state dispatch = (err, state2, cbs)"
  shows "err = None
    \<and> map_of state2 k = map_option (\<lambda>e. case map_of out k of None \<Rightarrow> e
         | Some r \<Rightarrow> e\<lparr>Response := r, UpdatedAt := UpdateTime env k\<rparr>) (map_of state k)
    \<and> (cb \<in> set cbs \<longleftrightarrow> dispatch \<and> (\<exists>k host needID e r. parseStateKey k = (host, needID) \<and> needID \<noteq> []
          \<and> map_of state k = Some e \<and> map_of out k = Some r \<and> response_changed (Some e) r
          \<and> cb = sendCallback host (callback_path cap needID) r))"
proof -
  note r = invokeGC_answered [OF assms(1)]
  have e: "err = None" "state2 = fst (fold (gc_store_one (UpdateTime env) dispatch) out (state, []))"
    "cbs = dispatchCallbacks cap (snd (fold (gc_store_one (UpdateTime env) dispatch) out (state, []))) out"
    using r(1) [of dispatch] assms(2) by simp_all
  have m: "map_of state2 k = map_option (\<lambda>e. case map_of out k of None \<Rightarrow> e
         | Some r \<Rightarrow> e\<lparr>Response := r, UpdatedAt := UpdateTime env k\<rparr>) (map_of state k)"
    unfolding e(2) gc_loop.loop_read [OF r(2)] by (auto simp: option.map_ident split: option.splits)
  have ch: "k \<in> set (snd (fold (gc_store_one (UpdateTime env) dispatch) out (state, []))) \<longleftrightarrow>
      dispatch \<and> (\<exists>e r. map_of state k = Some e \<and> map_of out k = Some r \<and> response_changed (Some e) r)" for k
    using r(2) by (force simp: gc_loop.loop_changed [OF r(2)])
  have "cb \<in> set cbs \<longleftrightarrow> dispatch \<and> (\<exists>k host needID e r. parseStateKey k = (host, needID) \<and> needID \<noteq> []
          \<and> map_of state k = Some e \<and> map_of out k = Some r \<and> response_changed (Some e) r
          \<and> cb = sendCallback host (callback_path cap needID) r)" (is "?l \<longleftrightarrow> ?r")
  proof
    assume ?l
    then obtain k h n r where k: "k \<in> set (snd (fold (gc_store_one (UpdateTime env) dispatch) out (state, [])))"
      "parseStateKey k = (h, n)" "n \<noteq> []" "map_of out k = Some r" "cb = sendCallback h (callback_path cap n) r"
      unfolding e(3) in_dispatch by blast
    then show ?r unfolding ch by (metis option.inject)
  next
    assume ?r
    then show ?l unfolding e(3) in_dispatch Bex_def ch by blast
  qed
  then show ?thesis using e(1) m by blast
qed

theorem gc_handler_run_witness:
  "gc_answers demo_env ''app'' demo_cfg (getProviderState demo_state ''app'') demo_out
   \<and> map_of (fst (snd (invokeHandlerForGC demo_env ''app'' demo_cfg (getProviderState demo_state ''app'') True))) ''web:app-x'' = None"
proof -
  have a: "gc_answers demo_env ''app'' demo_cfg (getProviderState demo_state ''app'') demo_out" by code_simp
  have n: "map_of (getProviderState demo_state ''app'') ''web:app-x'' = None" by code_simp
  obtain err s2 cbs where i: "invokeHandlerForGC demo_env ''app'' demo_cfg (getProviderState demo_state ''app'') True = (err, s2, cbs)"
    by (rule prod_cases3)
  show ?thesis using a gc_handler_run [OF a i, of "''web:app-x''"] n by (simp add: i)
qed

text \<open>
  an entry is due for rotation exactly when it has a response that expires within two hours,
  for times and lifetimes in the range where the sums do not wrap.
\<close>

theorem rotation_window:
  assumes "0 \<le> UpdatedAt e" "UpdatedAt e < 2 ^ 62" "0 \<le> now" "now < 2 ^ 62" "0 \<le> ttl" "ttl < 2 ^ 62"
  shows "nears_expiry ttl now e \<longleftrightarrow> raw_len (Response e) \<noteq> 0 \<and> UpdatedAt e + ttl \<le> now + 7200"
  using assms by (auto simp: nears_expiry_def rotationThreshold_def wrap64_def)

theorem rotation_window_witness:
  "nears_expiry 86400 1700080000 \<lparr>Request = None, Response = Some ''{}'', UpdatedAt = 1700000000\<rparr>"
  using rotation_window [of "\<lparr>Request = None, Response = Some ''{}'', UpdatedAt = 1700000000\<rparr>" 1700080000 86400]
  by (simp add: raw_len_def)

end
