(* ===== verification/Provider_Serve.thy ===== *)
theory Provider_Serve
  imports Provider_GC
begin

text \<open>
  The consumer side of \<open>pkgs/fort-provider/main.go\<close> (\<open>handleCallback\<close>,
  \<open>updateFulfillmentState\<close>), \<open>NewAgentHandler\<close>, and \<open>ServeHTTP\<close> as a whole.
\<close>

definition updateFulfillmentState ::
  "HostEnv \<Rightarrow> FulfillmentState gomap FileLoad \<Rightarrow> string \<Rightarrow> bool
     \<Rightarrow> string option \<times> FulfillmentState gomap FileLoad" where
  "updateFulfillmentState env file needID sat =
     (let state = (case file of Loaded m \<Rightarrow> m | Absent _ \<Rightarrow> [] | Corrupt _ \<Rightarrow> []);
          entry = (case map_of state needID of None \<Rightarrow> \<lparr>Satisfied = False, LastSought = 0\<rparr> | Some e \<Rightarrow> e);
          state2 = AList.update needID (entry\<lparr>Satisfied := sat\<rparr>) state
      in case WriteError env ''/var/lib/fort/fulfillment-state.json'' of
           Some err \<Rightarrow> (Some (''write state: '' @ err), file)
         | None \<Rightarrow> (None, Loaded state2))"

text \<open>Whether a callback satisfies its need: the need's handler decides, or the payload.\<close>

definition callback_satisfied ::
  "HostEnv \<Rightarrow> NeedConfig \<Rightarrow> string \<Rightarrow> string \<Rightarrow> string \<Rightarrow> string \<Rightarrow> bool" where
  "callback_satisfied env need origin needID capability body =
     (if Handler need \<noteq> [] then
        (case RunHandler env (Handler need)
                [(''FORT_ORIGIN'', origin), (''FORT_NEED_ID'', needID), (''FORT_CAPABILITY'', capability)] body of
           ExecOk output \<Rightarrow> True
         | ExecExit stderr stdout \<Rightarrow> False
         | ExecFailed err \<Rightarrow> False)
      else length (TrimSpace body) > 0)"

definition bool_text :: "bool \<Rightarrow> string" where
  "bool_text b = (if b then ''true'' else ''false'')"

definition handleCallback ::
  "AuthEnv \<Rightarrow> HostEnv \<Rightarrow> Agent \<Rightarrow> HttpRequest \<Rightarrow> Agent \<times> HttpResponse" where
  "handleCallback auth env a r =
     (case callback_of_path (ReqPath r) of
        None \<Rightarrow> (a, errorResponse 404 ''invalid callback path'')
      | Some (capability, name) \<Rightarrow>
          (let needID = capability @ ''-'' @ name in
           case authenticate auth (hosts a) r of
             Inl (status, msg) \<Rightarrow> (a, errorResponse status msg)
           | Inr (origin, body) \<Rightarrow>
               (case map_of (needs a) needID of
                  None \<Rightarrow> (a, errorResponse 404 ''need not found'')
                | Some need \<Rightarrow>
                    if origin \<noteq> From need
                    then (a, errorResponse 403
                            (''caller '' @ origin @ '' is not the declared provider '' @ From need))
                    else
                      (let sat = callback_satisfied env need origin needID capability body in
                       case updateFulfillmentState env (fulfillmentFile a) needID sat of
                         (Some err, file) \<Rightarrow>
                           (a\<lparr>fulfillmentFile := file\<rparr>, errorResponse 500 (''failed to update state: '' @ err))
                       | (None, file) \<Rightarrow>
                           (a\<lparr>fulfillmentFile := file\<rparr>,
                            \<lparr>Status = 200, Headers = jsonContent,
                             RespBody = obj_text [(''need_id'', json_quote needID),
                                                  (''satisfied'', bool_text sat)] @ [CHR 0x0A]\<rparr>)))))"

definition serveHTTP ::
  "AuthEnv \<Rightarrow> HostEnv \<Rightarrow> Agent \<Rightarrow> HttpRequest \<Rightarrow> Agent \<times> HttpResponse \<times> Callback list" where
  "serveHTTP auth env a r =
     (if HasPrefix (ReqPath r) ''/fort/needs/''
      then (case handleCallback auth env a r of (a2, resp) \<Rightarrow> (a2, resp, []))
      else
        (case admit auth (hosts a) (rbac a) (HandlerExists env) r of
           Inl (status, msg) \<Rightarrow> (a, errorResponse status msg, [])
         | Inr (capability, origin, body) \<Rightarrow>
             executeHandler env a capability origin body (capability_config (capabilities a) capability)))"

section \<open>Start-up\<close>

text \<open>
  \<open>NewAgentHandler\<close>: \<open>hosts.json\<close> is required, the other files are optional, and a
  file that exists and does not parse is an error. The needs are indexed by their id.
\<close>

definition optional_file :: "string \<Rightarrow> 'a \<Rightarrow> 'a FileLoad \<Rightarrow> string + 'a" where
  "optional_file name dflt file =
     (case file of
        Absent _ \<Rightarrow> Inr dflt
      | Corrupt e \<Rightarrow> Inl (''parse '' @ name @ '': '' @ e)
      | Loaded x \<Rightarrow> Inr x)"

definition index_needs :: "NeedConfig list \<Rightarrow> NeedConfig gomap" where
  "index_needs ns = fold (\<lambda>need m. AList.update (NeedID need) need m) ns []"

definition NewAgentHandler ::
  "HostEnv \<Rightarrow> string gomap FileLoad \<Rightarrow> string list gomap FileLoad \<Rightarrow> CapabilityConfig gomap FileLoad
     \<Rightarrow> NeedConfig list FileLoad \<Rightarrow> ProviderState FileLoad \<Rightarrow> string gomap
     \<Rightarrow> FulfillmentState gomap FileLoad \<Rightarrow> string + (Agent \<times> Callback list)" where
  "NewAgentHandler env hostsFile rbacFile capsFile needsFile stateFile handles fulfillment =
     (case hostsFile of
        Absent e \<Rightarrow> Inl (''read hosts.json: '' @ e)
      | Corrupt e \<Rightarrow> Inl (''parse hosts.json: '' @ e)
      | Loaded hs \<Rightarrow>
          (case optional_file ''rbac.json'' [] rbacFile of Inl e \<Rightarrow> Inl e
           | Inr rb \<Rightarrow>
             (case optional_file ''capabilities.json'' [] capsFile of Inl e \<Rightarrow> Inl e
              | Inr caps \<Rightarrow>
                (case optional_file ''needs.json'' [] needsFile of Inl e \<Rightarrow> Inl e
                 | Inr ns \<Rightarrow>
                   (case optional_file ''provider-state.json'' [] stateFile of Inl e \<Rightarrow> Inl e
                    | Inr ps \<Rightarrow>
                      Inr (initializeCapabilities env
                        \<lparr>hosts = hs, rbac = rb, capabilities = caps, needs = index_needs ns,
                         providerState = ps, providerFile = stateFile, handleFiles = handles,
                         fulfillmentFile = fulfillment\<rparr>))))))"

section \<open>What a request can change\<close>

lemma executeHandler_config:
  "hosts (fst (executeHandler env a cap origin body cfg)) = hosts a
   \<and> rbac (fst (executeHandler env a cap origin body cfg)) = rbac a
   \<and> capabilities (fst (executeHandler env a cap origin body cfg)) = capabilities a
   \<and> needs (fst (executeHandler env a cap origin body cfg)) = needs a"
proof -
  have s: "hosts (snd (saveProviderState env a)) = hosts a \<and> rbac (snd (saveProviderState env a)) = rbac a
   \<and> capabilities (snd (saveProviderState env a)) = capabilities a \<and> needs (snd (saveProviderState env a)) = needs a" for a
    by (simp add: saveProviderState_def split: option.splits)
  have f: "hosts (fst (finish_async env a r cfg)) = hosts a \<and> rbac (fst (finish_async env a r cfg)) = rbac a
   \<and> capabilities (fst (finish_async env a r cfg)) = capabilities a \<and> needs (fst (finish_async env a r cfg)) = needs a" for a r
    by (auto simp: finish_async_def Let_def split: prod.splits option.splits)
  show ?thesis
    by (auto simp: executeHandler_def executeAsyncHandler_def split_beta Let_def s f
        split: option.splits ExecResult.splits)
qed

inductive agent_runs :: "Agent \<Rightarrow> Agent \<Rightarrow> bool" for a0 where
  start: "agent_runs a0 a0"
| request: "agent_runs a0 a \<Longrightarrow> agent_runs a0 (fst (serveHTTP auth env a r))"

definition entry_owned :: "Agent \<Rightarrow> string \<Rightarrow> string \<Rightarrow> ProviderStateEntry \<Rightarrow> bool" where
  "entry_owned a c k e \<longleftrightarrow> (\<exists>origin allowed. map_of (rbac a) c = Some allowed \<and> origin \<in> set allowed
     \<and> map_of (hosts a) origin \<noteq> None \<and> k = makeStateKey origin (Request e))"

lemma updated_entry_Request: "updated_entry n r e0 = Some e \<Longrightarrow> \<exists>e'. e0 = Some e' \<and> Request e = Request e'"
  by (auto simp: updated_entry_def split: if_splits)

lemma executeHandler_entry:
  assumes "map_of (getProviderState (providerState (fst (executeHandler env a cap origin body cfg))) c) k = Some e"
  shows "(\<exists>e'. map_of (getProviderState (providerState a) c) k = Some e' \<and> Request e = Request e')
    \<or> (c = cap \<and> k = makeStateKey origin (Some body) \<and> Request e = Some body)"
proof -
  have rec: "(\<exists>e'. map_of (getProviderState (providerState a) cap) k = Some e' \<and> Request e'' = Request e')
    \<or> (k = makeStateKey origin (Some body) \<and> Request e'' = Some body)"
    if "recorded_entry env a cap origin body k = Some e''" for e''
    using that by (auto simp: recorded_entry_def split: if_splits)
  show ?thesis
  proof (cases "is_async cfg")
    case False
    then show ?thesis using assms by (simp add: executeHandler_def)
  next
    case True
    note as = assms [unfolded executeHandler_def if_P [OF True]]
    consider (ok) out where "handler_answers env a cap origin body cfg out"
      | (bad) "providerState (fst (executeAsyncHandler env a cap origin body cfg)) = recorded env a cap origin body"
      using async_unanswered [of env a cap origin body cfg] by auto
    then show ?thesis
    proof cases
      case ok
      note st = as [unfolded async_state [OF ok]]
      show ?thesis
      proof (cases "c = cap")
        case False
        then show ?thesis using st by simp
      next
        case True
        then obtain e'' where "recorded_entry env a cap origin body k = Some e''" "Request e = Request e''"
          using st by (auto split: option.splits dest: updated_entry_Request)
        then show ?thesis using rec [of e''] True by simp
      qed
    next
      case bad
      then show ?thesis using as rec
        by (cases "c = cap") (simp_all add: recorded_entry, simp add: recorded_def recordProviderRequest_entry)
    qed
  qed
qed

definition fulfillment_of :: "Agent \<Rightarrow> FulfillmentState gomap" where
  "fulfillment_of a = (case fulfillmentFile a of Loaded m \<Rightarrow> m | Absent _ \<Rightarrow> [] | Corrupt _ \<Rightarrow> [])"

section \<open>Example\<close>

definition demo_auth :: AuthEnv where
  "demo_auth = \<lparr>Now = 1700000000000000000, Sha256 = (\<lambda>s. s), SshKeygenVerify = (\<lambda>signers ns who sig msg. None),
     TempFilesError = None, Base64Error = (\<lambda>s. ''bad'')\<rparr>"

definition demo_request :: "string \<Rightarrow> string \<Rightarrow> HttpRequest" where
  "demo_request path body = \<lparr>ReqMethod = ''POST'', ReqPath = path, ReqBody = Some body,
     ReqHeader = (\<lambda>h. if h = ''X-Fort-Origin'' then ''web'' else if h = ''X-Fort-Timestamp'' then ''1700000001'' else ''AAAA'')\<rparr>"

definition demo_fresh :: Agent where
  "demo_fresh = demo_agent\<lparr>providerState := []\<rparr>"

definition demo_consumer :: Agent where
  "demo_consumer = demo_agent\<lparr>
     needs := [(''dns-www'', \<lparr>NeedID = ''dns-www'', NeedCapability = ''dns'', From = ''web'', Handler = [], NagSeconds = 60\<rparr>)],
     fulfillmentFile := Loaded [(''dns-www'', \<lparr>Satisfied = False, LastSought = 12\<rparr>)]\<rparr>"

section \<open>Properties\<close>

lemma serve_cases:
  "serveHTTP auth env a r = (a, snd (serveHTTP auth env a r))
     \<and> snd (snd (serveHTTP auth env a r)) = []
   \<or> (\<exists>cap origin body. admit auth (hosts a) (rbac a) (HandlerExists env) r = Inr (cap, origin, body)
        \<and> serveHTTP auth env a r
            = executeHandler env a cap origin body (capability_config (capabilities a) cap))
   \<or> (\<exists>cap name origin body need. callback_of_path (ReqPath r) = Some (cap, name)
        \<and> authenticate auth (hosts a) r = Inr (origin, body)
        \<and> map_of (needs a) (cap @ ''-'' @ name) = Some need \<and> From need = origin
        \<and> providerState (fst (serveHTTP auth env a r)) = providerState a)"
proof (cases "HasPrefix (ReqPath r) ''/fort/needs/''")
  case True
  then show ?thesis
    by (auto simp: serveHTTP_def handleCallback_def Let_def split: option.splits sum.splits prod.splits)
next
  case False
  then show ?thesis
    by (cases "admit auth (hosts a) (rbac a) (HandlerExists env) r")
      (auto simp: serveHTTP_def split: prod.splits)
qed

text \<open>
  A refusal: an error response that says nothing of the handlers (it is the same whatever they
  would print), the agent as it was, and no callback.
\<close>

definition refused :: "AuthEnv \<Rightarrow> HostEnv \<Rightarrow> Agent \<Rightarrow> HttpRequest \<Rightarrow> bool" where
  "refused auth env a r \<longleftrightarrow> (\<exists>status msg. status \<in> {400, 401, 403, 404}
     \<and> (\<forall>run. serveHTTP auth (env\<lparr>RunHandler := run\<rparr>) a r = (a, errorResponse status msg, [])))"

text \<open>An authenticated request to the callback path of a need, from the provider the need declares.\<close>

definition provider_calls_back :: "AuthEnv \<Rightarrow> Agent \<Rightarrow> HttpRequest \<Rightarrow> string \<Rightarrow> string \<Rightarrow> NeedConfig \<Rightarrow> string \<Rightarrow> bool" where
  "provider_calls_back auth a r capability needID need body \<longleftrightarrow>
     HasPrefix (ReqPath r) ''/fort/needs/''
     \<and> (\<exists>name. callback_of_path (ReqPath r) = Some (capability, name) \<and> needID = capability @ ''-'' @ name)
     \<and> authenticate auth (hosts a) r = Inr (From need, body) \<and> map_of (needs a) needID = Some need"

lemma admit_status:
  assumes "admit auth hs rb ex r = Inl (status, msg)"
  shows "status \<in> {400, 401, 403, 404}"
proof (cases "capability_of_path (ReqPath r)")
  case (Inl e)
  then show ?thesis using assms by (simp add: admit_def)
next
  case cap: (Inr capability)
  show ?thesis
  proof (cases "authenticate auth hs r")
    case (Inl e)
    then have "e = (status, msg)" using assms cap by (simp add: admit_def)
    then have "authenticate auth hs r = Inl (status, msg)" using Inl by simp
    then show ?thesis using authenticate_status by blast
  next
    case (Inr x)
    then show ?thesis using assms cap
      by (cases x) (auto simp: admit_def check_rbac_def split: option.splits if_splits)
  qed
qed

lemma serve_admitted:
  assumes "\<not> HasPrefix (ReqPath r) ''/fort/needs/''" "admit auth (hosts a) (rbac a) (HandlerExists env) r = Inr (cap, origin, body)"
  shows "serveHTTP auth env a r = executeHandler env a cap origin body (capability_config (capabilities a) cap)"
  using assms by (simp add: serveHTTP_def)

lemma serve_refused:
  assumes "\<not> HasPrefix (ReqPath r) ''/fort/needs/''" "admit auth (hosts a) (rbac a) (HandlerExists env) r = Inl (status, msg)"
  shows "refused auth env a r"
  unfolding refused_def
  by (intro exI [of _ status] exI [of _ msg] conjI allI)
    (use admit_status [OF assms(2)] assms in \<open>simp_all add: serveHTTP_def\<close>)

lemma serve_callback:
  fixes env :: HostEnv
  assumes "provider_calls_back auth a r capability needID need body"
  defines "sat \<equiv> callback_satisfied env need (From need) needID capability body"
  shows "serveHTTP auth env a r =
    (case updateFulfillmentState env (fulfillmentFile a) needID sat of
       (Some err, file) \<Rightarrow> (a\<lparr>fulfillmentFile := file\<rparr>, errorResponse 500 (''failed to update state: '' @ err), [])
     | (None, file) \<Rightarrow>
         (a\<lparr>fulfillmentFile := file\<rparr>,
          \<lparr>Status = 200, Headers = jsonContent,
           RespBody = obj_text [(''need_id'', json_quote needID), (''satisfied'', bool_text sat)] @ [CHR 0x0A]\<rparr>, []))"
  using assms by (auto simp: provider_calls_back_def serveHTTP_def handleCallback_def Let_def split: option.splits prod.splits)

lemma callback_refused:
  assumes "HasPrefix (ReqPath r) ''/fort/needs/''" "\<And>capability needID need body. \<not> provider_calls_back auth a r capability needID need body"
  shows "refused auth env a r"
proof (cases "callback_of_path (ReqPath r)")
  case None
  then show ?thesis unfolding refused_def
    by (intro exI [of _ 404] exI [of _ "''invalid callback path''"]) (simp add: serveHTTP_def handleCallback_def assms(1))
next
  case (Some cn)
  obtain capability name where cn: "cn = (capability, name)" by (cases cn)
  let ?id = "capability @ ''-'' @ name"
  show ?thesis
  proof (cases "authenticate auth (hosts a) r")
    case (Inl e)
    obtain status msg where e: "e = (status, msg)" by (cases e)
    have "status = 400 \<or> status = 401" using authenticate_status Inl e by blast
    then show ?thesis unfolding refused_def using Some Inl
      by (intro exI [of _ status] exI [of _ msg] conjI allI)
        (simp_all add: serveHTTP_def handleCallback_def assms(1) cn e Let_def, blast)
  next
    case (Inr ob)
    obtain origin body where ob: "ob = (origin, body)" by (cases ob)
    show ?thesis
    proof (cases "map_of (needs a) ?id")
      case None
      then show ?thesis unfolding refused_def using Some Inr
        by (intro exI [of _ 404] exI [of _ "''need not found''"])
          (simp add: serveHTTP_def handleCallback_def assms(1) cn ob Let_def)
    next
      case need: (Some need)
      have "origin \<noteq> From need"
        using assms(2) [of capability ?id need body] Some Inr need by (auto simp: provider_calls_back_def assms(1) cn ob)
      then show ?thesis unfolding refused_def using Some Inr need
        by (intro exI [of _ 403] exI [of _ "''caller '' @ origin @ '' is not the declared provider '' @ From need"])
          (simp add: serveHTTP_def handleCallback_def assms(1) cn ob Let_def)
    qed
  qed
qed

text \<open>
  C1: a request gets one of three treatments. It is admitted, with full authentication and
  authorization, and the answer, the new state and the callbacks are those of its capability. Or it
  is an authenticated callback of the declared provider of a need, which records in the file of
  fulfilments whether this need is satisfied, answers that, and changes nothing else. Or it is
  refused with an error: then nothing changes, nobody is called back, and no handler has any part in
  the answer.
\<close>

theorem serve_authorized:
  "if HasPrefix (ReqPath r) ''/fort/needs/''
   then if \<exists>capability needID need body. provider_calls_back auth a r capability needID need body
     then \<exists>capability needID need body. provider_calls_back auth a r capability needID need body
          \<and> (let sat = callback_satisfied env need (From need) needID capability body in
             serveHTTP auth env a r =
               (case updateFulfillmentState env (fulfillmentFile a) needID sat of
                  (Some err, file) \<Rightarrow>
                    (a\<lparr>fulfillmentFile := file\<rparr>, errorResponse 500 (''failed to update state: '' @ err), [])
                | (None, file) \<Rightarrow>
                    (a\<lparr>fulfillmentFile := file\<rparr>,
                     \<lparr>Status = 200, Headers = jsonContent,
                      RespBody = obj_text [(''need_id'', json_quote needID), (''satisfied'', bool_text sat)] @ [CHR 0x0A]\<rparr>,
                     [])))
     else refused auth env a r
   else case admit auth (hosts a) (rbac a) (HandlerExists env) r of
          Inl e \<Rightarrow> refused auth env a r
        | Inr (cap, origin, body) \<Rightarrow>
            serveHTTP auth env a r = executeHandler env a cap origin body (capability_config (capabilities a) cap)"
proof (cases "HasPrefix (ReqPath r) ''/fort/needs/''")
  case True
  show ?thesis
  proof (cases "\<exists>capability needID need body. provider_calls_back auth a r capability needID need body")
    case called: True
    then obtain capability needID need body where c: "provider_calls_back auth a r capability needID need body" by blast
    show ?thesis unfolding if_P [OF True] if_P [OF called] Let_def using c serve_callback [OF c, of env] by blast
  next
    case False
    then have "refused auth env a r" by (intro callback_refused [OF True]) blast
    then show ?thesis unfolding if_P [OF True] if_not_P [OF False] .
  qed
next
  case False
  show ?thesis
  proof (cases "admit auth (hosts a) (rbac a) (HandlerExists env) r")
    case (Inl e)
    then have "refused auth env a r" by (cases e) (simp add: serve_refused [OF False])
    then show ?thesis by (simp only: if_not_P [OF False] Inl sum.case)
  next
    case (Inr x)
    obtain cap origin body where x: "x = (cap, origin, body)" by (rule prod_cases3)
    from Inr have "serveHTTP auth env a r = executeHandler env a cap origin body (capability_config (capabilities a) cap)"
      unfolding x by (rule serve_admitted [OF False])
    then show ?thesis by (simp only: if_not_P [OF False] Inr x sum.case prod.case)
  qed
qed

lemma serve_config:
  "hosts (fst (serveHTTP auth env a r)) = hosts a \<and> rbac (fst (serveHTTP auth env a r)) = rbac a
   \<and> capabilities (fst (serveHTTP auth env a r)) = capabilities a \<and> needs (fst (serveHTTP auth env a r)) = needs a"
  using executeHandler_config
  by (auto simp: serveHTTP_def handleCallback_def Let_def split: option.splits sum.splits prod.splits)

text \<open>
  in every state a process can reach by serving requests from an empty provider state, every
  entry of a capability is filed under the key of its own request and of an origin that is a
  known host and is on the capability's access list.
\<close>

theorem state_only_from_authorized:
  assumes "agent_runs a0 a" and "providerState a0 = []"
    and "map_of (getProviderState (providerState a) c) k = Some e"
  shows "entry_owned a c k e"
  using assms(1,3)
proof (induction arbitrary: e)
  case start
  then show ?case using assms(2) by (simp add: getProviderState_def)
next
  case (request a auth env r)
  let ?a = "fst (serveHTTP auth env a r)"
  have cfg: "hosts ?a = hosts a" "rbac ?a = rbac a" using serve_config by blast+
  then have same: "entry_owned ?a c k x = entry_owned a c k x" for x by (simp add: entry_owned_def)
  have own: "entry_owned a c k e'" if "map_of (getProviderState (providerState a) c) k = Some e'" for e'
    using request.IH that by blast
  from serve_cases [of auth env a r] consider
      (same) "providerState ?a = providerState a"
    | (run) cap origin body where "admit auth (hosts a) (rbac a) (HandlerExists env) r = Inr (cap, origin, body)"
        "serveHTTP auth env a r = executeHandler env a cap origin body (capability_config (capabilities a) cap)"
    by (metis fst_conv)
  then show ?case
  proof cases
    case same
    then show ?thesis using request.prems own \<open>entry_owned ?a c k e = entry_owned a c k e\<close> by simp
  next
    case run
    from run(1) have auth: "map_of (hosts a) origin \<noteq> None" "\<exists>allowed. map_of (rbac a) cap = Some allowed \<and> origin \<in> set allowed"
      by (auto simp: admit_Inr authenticate_Inr check_rbac_Inr)
    from executeHandler_entry [OF request.prems [unfolded run(2)]] show ?thesis
    proof (elim disjE exE conjE)
      fix e'
      assume "map_of (getProviderState (providerState a) c) k = Some e'" "Request e = Request e'"
      then show ?thesis using own [of e'] unfolding same by (simp add: entry_owned_def)
    next
      assume "c = cap" "k = makeStateKey origin (Some body)" "Request e = Some body"
      then show ?thesis using auth unfolding same by (auto simp: entry_owned_def)
    qed
  qed
qed

theorem state_only_from_authorized_witness:
  "entry_owned (fst (serveHTTP demo_auth demo_env demo_fresh (demo_request ''/fort/app'' demo_body))) ''app'' ''web:app-x''
     \<lparr>Request = Some demo_body, Response = Some (js ''{~url~:~u~}''), UpdatedAt = 101\<rparr>"
proof -
  have r: "agent_runs demo_fresh (fst (serveHTTP demo_auth demo_env demo_fresh (demo_request ''/fort/app'' demo_body)))"
    by (rule agent_runs.request [OF agent_runs.start])
  have e: "providerState demo_fresh = []" by (simp add: demo_fresh_def)
  have "map_of (getProviderState (providerState
      (fst (serveHTTP demo_auth demo_env demo_fresh (demo_request ''/fort/app'' demo_body)))) ''app'') ''web:app-x''
    = Some \<lparr>Request = Some demo_body, Response = Some (js ''{~url~:~u~}''), UpdatedAt = 101\<rparr>"
    by code_simp
  then show ?thesis by (rule state_only_from_authorized [OF r e])
qed


text \<open>
  a callback answered 200 comes from the provider its need names, and it changes one thing:
  whether that need is satisfied. The time it was last sought and all other needs stay.
\<close>

theorem callback_effect:
  assumes "handleCallback auth env a r = (a', resp)" and "Status resp = 200"
  shows "\<exists>cap name body need.
     callback_of_path (ReqPath r) = Some (cap, name)
     \<and> authenticate auth (hosts a) r = Inr (From need, body)
     \<and> map_of (needs a) (cap @ ''-'' @ name) = Some need
     \<and> a' = a\<lparr>fulfillmentFile := fulfillmentFile a'\<rparr>
     \<and> (\<forall>n. map_of (fulfillment_of a') n =
          (if n = cap @ ''-'' @ name
           then Some \<lparr>Satisfied = callback_satisfied env need (From need) n cap body,
                      LastSought = (case map_of (fulfillment_of a) n of None \<Rightarrow> 0 | Some f \<Rightarrow> LastSought f)\<rparr>
           else map_of (fulfillment_of a) n))"
proof -
  from assms obtain cap name body need where
    p: "callback_of_path (ReqPath r) = Some (cap, name)"
    and au: "authenticate auth (hosts a) r = Inr (From need, body)"
    and n: "map_of (needs a) (cap @ ''-'' @ name) = Some need"
    by (auto simp: handleCallback_def Let_def errorResponse_def dest!: authenticate_status
        split: option.splits sum.splits prod.splits if_splits)
  have u: "a' = a\<lparr>fulfillmentFile := Loaded
      (AList.update (cap @ ''-'' @ name)
        ((case map_of (fulfillment_of a) (cap @ ''-'' @ name) of None \<Rightarrow> \<lparr>Satisfied = False, LastSought = 0\<rparr> | Some e \<Rightarrow> e)
          \<lparr>Satisfied := callback_satisfied env need (From need) (cap @ ''-'' @ name) cap body\<rparr>) (fulfillment_of a))\<rparr>"
    using assms p au n
    by (auto simp: handleCallback_def Let_def errorResponse_def updateFulfillmentState_def fulfillment_of_def
        split: option.splits prod.splits if_splits FileLoad.splits)
  show ?thesis
    using p au n
    by (intro exI [of _ cap] exI [of _ name] exI [of _ body] exI [of _ need])
      (auto simp: u gomap fulfillment_of_def [of "a\<lparr>fulfillmentFile := _\<rparr>"] split: option.splits)
qed

theorem callback_effect_witness:
  "map_of (fulfillment_of (fst (handleCallback demo_auth demo_env demo_consumer (demo_request ''/fort/needs/dns/www'' ''{}''))))
     ''dns-www'' = Some \<lparr>Satisfied = True, LastSought = 12\<rparr>"
proof -
  let ?h = "handleCallback demo_auth demo_env demo_consumer (demo_request ''/fort/needs/dns/www'' ''{}'')"
  have s: "Status (snd ?h) = 200" by code_simp
  have p: "callback_of_path (ReqPath (demo_request ''/fort/needs/dns/www'' ''{}'')) = Some (''dns'', ''www'')" by code_simp
  have n: "map_of (needs demo_consumer) ''dns-www''
      = Some \<lparr>NeedID = ''dns-www'', NeedCapability = ''dns'', From = ''web'', Handler = [], NagSeconds = 60\<rparr>"
    and f: "map_of (fulfillment_of demo_consumer) ''dns-www'' = Some \<lparr>Satisfied = False, LastSought = 12\<rparr>"
    by (simp_all add: demo_consumer_def fulfillment_of_def)
  have b: "authenticate demo_auth (hosts demo_consumer) (demo_request ''/fort/needs/dns/www'' ''{}'') = Inr (''web'', ''{}'')"
    by code_simp
  have "\<exists>a' resp. ?h = (a', resp)" by (cases ?h) blast
  then obtain a' resp where h: "?h = (a', resp)" by blast
  have sat: "callback_satisfied demo_env \<lparr>NeedID = ''dns-www'', NeedCapability = ''dns'', From = ''web'', Handler = [], NagSeconds = 60\<rparr>
      ''web'' ''dns-www'' ''dns'' ''{}''" by code_simp
  have "Status resp = 200" using s by (simp add: h)
  from callback_effect [OF h this] obtain cap name body need where
      c: "callback_of_path (ReqPath (demo_request ''/fort/needs/dns/www'' ''{}'')) = Some (cap, name)"
        "authenticate demo_auth (hosts demo_consumer) (demo_request ''/fort/needs/dns/www'' ''{}'') = Inr (From need, body)"
        "map_of (needs demo_consumer) (cap @ ''-'' @ name) = Some need"
    and e: "\<And>n. map_of (fulfillment_of a') n =
          (if n = cap @ ''-'' @ name
           then Some \<lparr>Satisfied = callback_satisfied demo_env need (From need) n cap body,
                      LastSought = (case map_of (fulfillment_of demo_consumer) n of None \<Rightarrow> 0 | Some f \<Rightarrow> LastSought f)\<rparr>
           else map_of (fulfillment_of demo_consumer) n)" by blast
  have i: "cap = ''dns''" "name = ''www''" "body = ''{}''" "From need = ''web''" using c(1,2) p b by simp_all
  have k: "''dns-www'' = cap @ ''-'' @ name" by (simp add: i)
  have need: "need = \<lparr>NeedID = ''dns-www'', NeedCapability = ''dns'', From = ''web'', Handler = [], NagSeconds = 60\<rparr>"
    using c(3) n unfolding k [symmetric] by simp
  have "map_of (fulfillment_of a') ''dns-www'' = Some \<lparr>Satisfied =
      callback_satisfied demo_env need (From need) ''dns-www'' cap body, LastSought = 12\<rparr>"
    using e [of "''dns-www''"] unfolding if_P [OF k] f by simp
  then show ?thesis using sat unfolding h fst_conv i need by simp
qed


text \<open>
  every revocation the provider sends leaves a need without a handler satisfied: the payload
  \<open>{}\<close> is not blank, and only a blank payload counts as a revocation.
\<close>

theorem revocation_still_satisfied:
  assumes "Handler need = []" and "cb \<in> set (dispatchCallbacks cap revoked (emptyResponses revoked))"
  shows "callback_satisfied env need origin needID c (snd (snd cb))"
proof -
  obtain host path where "cb = sendCallback host path (Some ''{}'')"
    using assms(2) unfolding in_dispatch map_of_emptyResponses by (metis option.inject option.distinct(1))
  then have "snd (snd cb) = ''{}''" by (simp add: sendCallback_def raw_bytes_def)
  moreover have "length (TrimSpace ''{}'') > 0" by code_simp
  ultimately show ?thesis using assms(1) by (simp add: callback_satisfied_def)
qed

theorem revocation_still_satisfied_witness:
  "callback_satisfied demo_env \<lparr>NeedID = ''app-z'', NeedCapability = ''app'', From = ''web'', Handler = [], NagSeconds = 60\<rparr>
     ''web'' ''app-z'' ''app'' ''{}''"
proof -
  have c: "(''gone'', ''needs/app/z'', ''{}'')
      \<in> set (dispatchCallbacks ''app'' [''gone:app-z''] (emptyResponses [''gone:app-z'']))" by code_simp
  show ?thesis using revocation_still_satisfied [OF _ c] by simp
qed

end
