(* ===== verification/Json_Text.thy ===== *)
theory Json_Text
  imports Json_Decode
begin

text \<open>
  The text that \<open>json.Marshal\<close> writes for a value, and that the parser reads the value back
  from it: quoting undone by the scanner of strings, decimal integers by the scanner of numbers,
  and the nesting within the fuel of \<open>json_parse\<close>.
\<close>

section \<open>Printing\<close>

fun json_print :: "json \<Rightarrow> string" where
  "json_print JNull = ''null''"
| "json_print (JBool b) = (if b then ''true'' else ''false'')"
| "json_print (JNum s) = s"
| "json_print (JStr s) = json_quote s"
| "json_print (JArr vs) = ''['' @ Join (map json_print vs) '','' @ '']''"
| "json_print (JObj ms) = ''{'' @ Join (map (\<lambda>m. json_quote (fst m) @ '':'' @ json_print (snd m)) ms) '','' @ ''}''"

text \<open>The values the programs write: their numbers are integers.\<close>

fun json_ints :: "json \<Rightarrow> bool" where
  "json_ints (JNum s) = (\<exists>i. s = Itoa i)"
| "json_ints (JArr vs) = (\<forall>v \<in> set vs. json_ints v)"
| "json_ints (JObj ms) = (\<forall>m \<in> set ms. json_ints (snd m))"
| "json_ints _ = True"

section \<open>Strings\<close>

lemma hex_val_digit [simp]: "n < 16 \<Longrightarrow> hex_val (hex_digit n) = Some n"
  by (auto simp: hex_val_def hex_digit_def Let_def)

lemma char_of_byte [simp]: "char_of (byte c) = c"
  by simp

definition unescape :: "string \<Rightarrow> string \<Rightarrow> bool" where
  "unescape e s \<longleftrightarrow> (\<forall>r. jstring (e @ r) = map_option (\<lambda>(y, q). (s @ y, q)) (jstring r))"

lemma unescape_Nil: "unescape [] []"
  by (auto simp: unescape_def option.map_ident_strong split: prod.splits)

lemma unescape_append:
  assumes "unescape e s" "unescape f t"
  shows "unescape (e @ f) (s @ t)"
  using assms by (auto simp: unescape_def option.map_comp o_def case_prod_unfold)

lemma unescape_plain:
  assumes "c \<noteq> quote_char" "c \<noteq> backslash" "\<not> byte c < 32"
  shows "unescape [c] [c]"
  using assms by (simp add: unescape_def jstring.simps [of "c # _"])

lemma unescape_simple: "simple_escape e = Some x \<Longrightarrow> e \<noteq> CHR ''u'' \<Longrightarrow> unescape [backslash, e] [x]"
  by (simp add: unescape_def jstring.simps [of "_ # _"])

lemma unescape_u:
  assumes "\<And>r. u_escape (h @ r) = Some (x, r)"
  shows "unescape ([backslash, CHR ''u''] @ h) x"
  using assms by (simp add: unescape_def jstring.simps [of "_ # _"])

lemma hex4_u00: "hex4 (CHR ''0'' # CHR ''0'' # hex_digit (byte c div 16) # hex_digit (byte c mod 16) # r) = Some (byte c)"
proof -
  have z: "hex_val (CHR ''0'') = Some 0" by (simp add: hex_val_def)
  show ?thesis by (simp add: z)
qed

lemma unescape_u00:
  assumes "byte c < 128"
  shows "unescape (u00 c) [c]"
proof -
  have "u_escape ([CHR ''0'', CHR ''0'', hex_digit (byte c div 16), hex_digit (byte c mod 16)] @ r) = Some ([c], r)" for r
    using assms by (simp add: u_escape_def Let_def utf8_def hex4_u00 del: hex4.simps)
  from unescape_u [OF this] show ?thesis by (simp add: u00_def)
qed

lemma utf8_lines: "utf8 8232 = [CHR 0xE2, CHR 0x80, CHR 0xA8]" "utf8 8233 = [CHR 0xE2, CHR 0x80, CHR 0xA9]"
  by code_simp+

lemma hex4_lines: "hex4 (''2028'' @ r) = Some 8232" "hex4 (''2029'' @ r) = Some 8233"
  by (simp_all add: hex_val_def)

lemma u_escape_lines:
  "u_escape (''2028'' @ r) = Some ([CHR 0xE2, CHR 0x80, CHR 0xA8], r)"
  "u_escape (''2029'' @ r) = Some ([CHR 0xE2, CHR 0x80, CHR 0xA9], r)"
  unfolding u_escape_def hex4_lines by (simp_all add: Let_def utf8_lines)

lemma unescape_line:
  assumes "x = CHR 0xA8 \<or> x = CHR 0xA9"
  shows "unescape ([backslash] @ ''u202'' @ [if x = CHR 0xA8 then CHR ''8'' else CHR ''9'']) [CHR 0xE2, CHR 0x80, x]"
  using assms unescape_u [OF u_escape_lines(1)] unescape_u [OF u_escape_lines(2)] by auto

lemma html_escape_append_ascii:
  "set e \<inter> {CHR ''<'', CHR ''>'', CHR ''&'', CHR 0xE2} = {} \<Longrightarrow> html_escape (e @ r) = e @ html_escape r"
  by (induction e) auto

lemma hex_digit_ascii: "n < 16 \<Longrightarrow> hex_digit n \<notin> {CHR ''<'', CHR ''>'', CHR ''&'', CHR 0xE2}"
  using hex_digit_range [of n] by (auto simp: is_hex_def)

definition special :: "char \<Rightarrow> bool" where
  "special c \<longleftrightarrow> c \<in> {CHR ''<'', CHR ''>'', CHR ''&'', CHR 0xE2}"

lemma html_escape_keep: "(\<And>c. c \<in> set e \<Longrightarrow> \<not> special c) \<Longrightarrow> html_escape (e @ r) = e @ html_escape r"
  by (rule html_escape_append_ascii) (auto simp: special_def)

lemma u00_keep: "x \<in> set (u00 c) \<Longrightarrow> \<not> special x"
  using hex_digit_ascii [of "byte c div 16"] hex_digit_ascii [of "byte c mod 16"] by (auto simp: u00_def special_def)

lemma quote_byte_keep: "quote_byte c \<noteq> [c] \<Longrightarrow> x \<in> set (quote_byte c) \<Longrightarrow> \<not> special x"
  using u00_keep [of x c] by (auto simp: quote_byte_def special_def split: if_splits)

lemma quote_byte_unescape:
  assumes "quote_byte c \<noteq> [c]"
  shows "unescape (quote_byte c) [c]"
proof -
  consider "byte c < 32" "quote_byte c = u00 c"
    | e where "quote_byte c = [backslash, e]" "simple_escape e = Some c" "e \<noteq> CHR ''u''"
    using assms by (auto simp: quote_byte_def simple_escape_def split: if_splits)
  then show ?thesis
  proof cases
    case 1
    then show ?thesis using unescape_u00 [of c] by simp
  next
    case 2
    then show ?thesis using unescape_simple by simp
  qed
qed

lemma quote_byte_high: "quote_byte c = d # u \<Longrightarrow> 128 \<le> byte d \<Longrightarrow> c = d \<and> u = []"
  by (auto simp: quote_byte_def u00_def split: if_splits)

lemma quote_byte_ne: "quote_byte c \<noteq> []"
  by (auto simp: quote_byte_def u00_def)

lemma quote_bytes_high:
  assumes "concat (map quote_byte s) = d # u" "128 \<le> byte d"
  shows "\<exists>t. s = d # t \<and> u = concat (map quote_byte t)"
proof (cases s)
  case (Cons c t)
  obtain d' u' where q: "quote_byte c = d' # u'" using quote_byte_ne [of c] by (cases "quote_byte c") auto
  then have "d' = d" "u = u' @ concat (map quote_byte t)" using assms(1) Cons by auto
  with quote_byte_high [OF q] assms(2) Cons show ?thesis by auto
qed (use assms in simp)

lemma take2_iff: "take 2 q = [a, b] \<longleftrightarrow> (\<exists>r. q = a # b # r)"
  by (cases q; cases "tl q") (auto simp: numeral_2_eq_2)

lemma html_escape_cases:
  obtains "c \<in> {CHR ''<'', CHR ''>'', CHR ''&''}"
  | x r where "c = CHR 0xE2" "x = CHR 0xA8 \<or> x = CHR 0xA9" "q = CHR 0x80 # x # r"
  | "html_escape (c # q) = c # html_escape q"
proof (cases "c = CHR 0xE2 \<and> (\<exists>x. x \<in> {CHR 0xA8, CHR 0xA9} \<and> take 2 q = [CHR 0x80, x])")
  case True
  then show thesis using that(2) by (auto simp: take2_iff)
next
  case False
  show thesis
  proof (cases "c \<in> {CHR ''<'', CHR ''>'', CHR ''&''}")
    case F: False
    then have "html_escape (c # q) = c # html_escape q" unfolding html_escape.simps(2) if_not_P [OF False] by simp
    then show thesis by (rule that(3))
  qed (rule that(1))
qed

lemma html_escape_line:
  "x = CHR 0xA8 \<or> x = CHR 0xA9 \<Longrightarrow> html_escape (CHR 0xE2 # CHR 0x80 # x # r)
     = ([backslash] @ ''u202'' @ [if x = CHR 0xA8 then CHR ''8'' else CHR ''9'']) @ html_escape r"
  by auto

lemma unescape_quoted: "unescape (html_escape (concat (map quote_byte s))) s"
proof (induction s rule: length_induct)
  case (1 s)
  show ?case
  proof (cases s)
    case Nil
    then show ?thesis by (simp add: unescape_Nil)
  next
    case (Cons c t)
    have IH: "unescape (html_escape (concat (map quote_byte t))) t" using 1 Cons by simp
    let ?q = "concat (map quote_byte t)"
    show ?thesis
    proof (cases "quote_byte c = [c]")
      case False
      then have "html_escape (quote_byte c @ ?q) = quote_byte c @ html_escape ?q"
        using quote_byte_keep by (intro html_escape_keep) blast
      then show ?thesis using unescape_append [OF quote_byte_unescape [OF False] IH] Cons by simp
    next
      case q: True
      then have pl: "unescape [c] [c]"
        by (intro unescape_plain) (auto simp: quote_byte_def u00_def split: if_splits)
      show ?thesis
      proof (cases rule: html_escape_cases [where c = c and q = ?q])
        case 1
        then have "html_escape (c # ?q) = u00 c @ html_escape ?q" by auto
        moreover have "unescape (u00 c) [c]" using 1 by (intro unescape_u00) auto
        ultimately show ?thesis using unescape_append [OF _ IH, of "u00 c" "[c]"] Cons q by simp
      next
        case (2 x r)
        obtain t1 where t1: "t = CHR 0x80 # t1" "x # r = concat (map quote_byte t1)"
          using quote_bytes_high [OF 2(3)] by auto
        obtain u where u: "t1 = x # u" "r = concat (map quote_byte u)"
          using quote_bytes_high [OF t1(2) [symmetric]] 2(2) by auto
        have IH': "unescape (html_escape r) u" using "1.IH" Cons t1(1) u by simp
        have "html_escape (c # ?q) = ([backslash] @ ''u202'' @ [if x = CHR 0xA8 then CHR ''8'' else CHR ''9'']) @ html_escape r"
          unfolding 2(1,3) by (rule html_escape_line [OF 2(2)])
        then show ?thesis using unescape_append [OF unescape_line [OF 2(2)] IH'] Cons q t1(1) u(1) 2(1) by simp
      next
        case 3
        then show ?thesis using unescape_append [OF pl IH] Cons q by simp
      qed
    qed
  qed
qed

text \<open>The scanner undoes the quoting.\<close>

lemma jstring_quote: "jstring (tl (json_quote s) @ r) = Some (s, r)"
  using unescape_quoted [of s] by (simp add: json_quote_def unescape_def jstring.simps [of "quote_char # _"])

lemma json_quote_Cons: "json_quote s = quote_char # tl (json_quote s)"
  by (simp add: json_quote_def)

declare jvalue.simps [simp del] jelems.simps [simp del] jmembers.simps [simp del]

section \<open>Numbers\<close>

text \<open>What may follow a value: the end of the text, or a byte that is no part of a number.\<close>

definition delimited :: "string \<Rightarrow> bool" where
  "delimited r \<longleftrightarrow> r = [] \<or> hd r \<in> {CHR '','', CHR '']'', CHR ''}''}"

lemma delimited_simps [simp]: "delimited []" "delimited (CHR '','' # r)" "delimited (CHR '']'' # r)" "delimited (CHR ''}'' # r)"
  by (simp_all add: delimited_def)

lemma delimited_no_digit: "delimited r \<Longrightarrow> takeWhile is_digit r = [] \<and> dropWhile is_digit r = r"
  by (cases r) (auto simp: delimited_def is_digit_def)

lemma span_digits:
  assumes "list_all is_digit ds" "delimited r"
  shows "takeWhile is_digit (ds @ r) = ds \<and> dropWhile is_digit (ds @ r) = r"
  using assms delimited_no_digit [of r] by (simp add: list_all_iff)

lemma jfrac_jexp_end:
  assumes "delimited r"
  shows "jfrac_part r = Some ([], r)" "jexp_part r = Some ([], r)"
proof -
  have "r = [] \<or> (\<exists>c t. r = c # t \<and> c \<in> {CHR '','', CHR '']'', CHR ''}''})"
    using assms by (cases r) (auto simp: delimited_def)
  then show "jfrac_part r = Some ([], r)" "jexp_part r = Some ([], r)"
    by (auto simp: jfrac_part_def jexp_part_def)
qed

lemma nat_digits_head: "nat_digits n = CHR ''0'' # ds \<Longrightarrow> ds = []"
proof (induction n arbitrary: ds rule: nat_digits.induct)
  case (1 n)
  show ?case
  proof (cases "n < 10")
    case True
    then show ?thesis using 1(2) by (simp add: nat_digits.simps [of n])
  next
    case False
    then have e: "nat_digits (n div 10) @ [char_of (48 + n mod 10)] = CHR ''0'' # ds" using 1(2) by (simp add: nat_digits.simps [of n])
    then obtain ds' where d: "nat_digits (n div 10) = CHR ''0'' # ds'" by (cases "nat_digits (n div 10)") auto
    with 1(1) [OF False] have "nat_digits (n div 10) = ''0''" by simp
    then have "n div 10 = 0" using digits_val_nat_digits [of "n div 10"] by (simp add: digits_val_def digit_val_def)
    then show ?thesis using False by auto
  qed
qed

lemma jint_digits:
  assumes "delimited r"
  shows "jint_part (nat_digits n @ r) = Some (nat_digits n, r)"
proof -
  obtain c ds where d: "nat_digits n = c # ds" by (cases "nat_digits n") auto
  show ?thesis
  proof (cases "c = CHR ''0''")
    case True
    then have "nat_digits n = ''0''" using d nat_digits_head by auto
    then show ?thesis by (simp add: jint_part_def)
  next
    case False
    have "jdigits1 (nat_digits n @ r) = Some (nat_digits n, r)"
      unfolding jdigits1_def using span_digits [OF nat_digits_all assms] by simp
    then show ?thesis unfolding jint_part_def d using False by (auto split: char.splits bool.splits)
  qed
qed

lemma jnumber_Itoa:
  assumes "delimited r"
  shows "jnumber (Itoa i @ r) = Some (Itoa i, r)"
proof -
  obtain c ds where d: "nat_digits (nat i) = c # ds" by (cases "nat_digits (nat i)") auto
  then have "c \<noteq> CHR ''-''" using nat_digits_all [of "nat i"] by (auto simp: is_digit_def)
  then have m: "(case nat_digits (nat i) @ r of CHR ''-'' # t \<Rightarrow> (''-'', t) | _ \<Rightarrow> ([], nat_digits (nat i) @ r))
      = ([], nat_digits (nat i) @ r)"
    unfolding d by (auto split: char.splits bool.splits)
  show ?thesis
  proof (cases "i < 0")
    case True
    then show ?thesis
      by (simp add: jnumber_def Itoa_def jint_digits [OF assms] jfrac_jexp_end [OF assms])
  next
    case False
    then show ?thesis
      by (simp add: jnumber_def Itoa_def m jint_digits [OF assms] jfrac_jexp_end [OF assms])
  qed
qed

section \<open>Values\<close>

lemma jskip_delimited: "delimited r \<Longrightarrow> jskip r = r"
  by (cases r) (auto simp: delimited_def jskip_def jspace_def)

definition value_head :: "char \<Rightarrow> bool" where
  "value_head c \<longleftrightarrow> \<not> jspace c \<and> c \<notin> {CHR '']'', CHR ''}''}"

lemma Itoa_head: "\<exists>c s. Itoa i = c # s \<and> (is_digit c \<or> c = CHR ''-'')"
proof (cases "i < 0")
  case False
  obtain c ds where d: "nat_digits (nat i) = c # ds" by (cases "nat_digits (nat i)") auto
  then show ?thesis using nat_digits_all [of "nat i"] False by (auto simp: Itoa_def)
qed (simp add: Itoa_def)

section \<open>Texts of values\<close>

text \<open>
  A text that the parser reads as a value, whatever follows it that can follow a value, with fuel
  in proportion to its length.
\<close>

definition reads :: "string \<Rightarrow> json \<Rightarrow> bool" where
  "reads t v \<longleftrightarrow> (\<exists>c s. t = c # s \<and> value_head c)
     \<and> (\<forall>n r. 2 * length t \<le> n \<longrightarrow> delimited r \<longrightarrow> jvalue n (t @ r) = Some (v, r))"

lemma reads_head: "reads t v \<Longrightarrow> \<exists>c s. t = c # s \<and> value_head c"
  by (simp add: reads_def)

lemma reads_jvalue: "reads t v \<Longrightarrow> 2 * length t \<le> n \<Longrightarrow> delimited r \<Longrightarrow> jvalue n (t @ r) = Some (v, r)"
  by (simp add: reads_def)

lemma readsI:
  assumes "t = c # s" "value_head c" "\<And>n r. 2 * length t \<le> Suc n \<Longrightarrow> delimited r \<Longrightarrow> jvalue (Suc n) (t @ r) = Some (v, r)"
  shows "reads t v"
proof -
  have "jvalue n (t @ r) = Some (v, r)" if "2 * length t \<le> n" "delimited r" for n r
    using assms that by (cases n) auto
  then show ?thesis using assms(1,2) by (auto simp: reads_def)
qed

lemma reads_literals: "reads ''null'' JNull" "reads ''true'' (JBool True)" "reads ''false'' (JBool False)"
proof -
  show "reads ''null'' JNull" by (rule readsI [of _ "CHR ''n''" "''ull''"])
      (simp_all add: value_head_def jvalue.simps jskip_def jspace_def HasPrefix_def)
  show "reads ''true'' (JBool True)" by (rule readsI [of _ "CHR ''t''" "''rue''"])
      (simp_all add: value_head_def jvalue.simps jskip_def jspace_def HasPrefix_def)
  show "reads ''false'' (JBool False)" by (rule readsI [of _ "CHR ''f''" "''alse''"])
      (simp_all add: value_head_def jvalue.simps jskip_def jspace_def HasPrefix_def)
qed

lemma reads_num:
  assumes "t = c # s" "is_digit c \<or> c = CHR ''-''" "\<And>r. delimited r \<Longrightarrow> jnumber (t @ r) = Some (t, r)"
  shows "reads t (JNum t)"
proof (rule readsI [OF assms(1)])
  have n: "c \<noteq> CHR ''{''" "c \<noteq> CHR ''[''" "c \<noteq> quote_char" "\<not> jspace c" "c \<noteq> CHR ''n''" "c \<noteq> CHR ''t''" "c \<noteq> CHR ''f''"
    using assms(2) by (auto simp: is_digit_def jspace_def)
  show "value_head c" using assms(2) by (auto simp: value_head_def jspace_def is_digit_def)
  fix n r
  assume r: "delimited r"
  have k: "jskip (t @ r) = c # s @ r" using n by (simp add: assms(1) jskip_def)
  have h: "\<not> HasPrefix (c # s @ r) ''null''" "\<not> HasPrefix (c # s @ r) ''true''" "\<not> HasPrefix (c # s @ r) ''false''"
    using n by (auto simp: HasPrefix_iff)
  have "jnumber (c # s @ r) = Some (t, r)" using assms(3) [OF r] by (simp add: assms(1))
  then show "jvalue (Suc n) (t @ r) = Some (JNum t, r)" by (simp only: jvalue.simps k list.case) (simp add: n h)
qed

lemma reads_str:
  assumes "\<And>r. jstring (q @ r) = Some (s, r)"
  shows "reads (quote_char # q) (JStr s)"
proof (rule readsI [OF refl])
  show "value_head quote_char" by (simp add: value_head_def jspace_def)
  fix n r
  have "jskip ((quote_char # q) @ r) = quote_char # q @ r" by (simp add: jskip_def jspace_def)
  then show "jvalue (Suc n) ((quote_char # q) @ r) = Some (JStr s, r)"
    by (simp only: jvalue.simps list.case) (simp add: assms)
qed

text \<open>An array whose first byte is not the closing bracket is a sequence of elements.\<close>

lemma jvalue_arr:
  assumes "value_head c"
  shows "jskip s = c # u \<Longrightarrow> jvalue (Suc n) (''['' @ s) = map_option (\<lambda>(vs, q). (JArr vs, q)) (jelems n s)"
proof -
  assume s: "jskip s = c # u"
  have "jskip (''['' @ s) = ''['' @ s" by (simp add: jskip_def jspace_def)
  moreover have "c \<noteq> CHR '']''" using assms by (simp add: value_head_def)
  ultimately show ?thesis using s by (simp add: jvalue.simps split: char.splits bool.splits)
qed

lemma Join_Cons: "xs \<noteq> [] \<Longrightarrow> Join (x # xs) sep = x @ sep @ Join xs sep"
  by (cases xs) auto

lemma Join_head: "x = c # s \<Longrightarrow> \<exists>u. Join (x # xs) sep = c # u"
  by (cases xs) auto

lemma jelems_reads:
  assumes "tvs \<noteq> []" "\<And>t v. (t, v) \<in> set tvs \<Longrightarrow> reads t v" "2 * length (Join (map fst tvs) '','') + 1 \<le> n"
  shows "jelems n (Join (map fst tvs) '','' @ '']'' @ r) = Some (map snd tvs, r)"
  using assms
proof (induction tvs arbitrary: n)
  case (Cons x tvs)
  then obtain k where n: "n = Suc k" by (cases n) auto
  obtain t v where x: "x = (t, v)" by (cases x)
  have v: "reads t v" using Cons.prems(2) x by simp
  show ?case
  proof (cases "tvs = []")
    case True
    then have "jvalue k (t @ '']'' @ r) = Some (v, '']'' @ r)"
      using reads_jvalue [OF v] Cons.prems(3) n x by simp
    then show ?thesis by (simp add: n x True jskip_delimited jelems.simps)
  next
    case False
    have len: "2 * (length t + 1 + length (Join (map fst tvs) '','')) \<le> k"
      using Cons.prems(3) n x False by (simp add: Join_Cons)
    have "jvalue k (t @ '','' @ Join (map fst tvs) '','' @ '']'' @ r) = Some (v, '','' @ Join (map fst tvs) '','' @ '']'' @ r)"
      using reads_jvalue [OF v] len by simp
    moreover have "jelems k (Join (map fst tvs) '','' @ '']'' @ r) = Some (map snd tvs, r)"
      by (rule Cons.IH [OF False]) (use Cons.prems(2) len in auto)
    ultimately show ?thesis by (simp add: n x Join_Cons False jskip_delimited jelems.simps)
  qed
qed simp

definition reads_member :: "string \<Rightarrow> string \<times> json \<Rightarrow> bool" where
  "reads_member m kv \<longleftrightarrow>
     (\<exists>q t. m = quote_char # q @ '':'' @ t \<and> (\<forall>r. jstring (q @ r) = Some (fst kv, r)) \<and> reads t (snd kv))"

lemma jmembers_reads:
  assumes "mks \<noteq> []" "\<And>m kv. (m, kv) \<in> set mks \<Longrightarrow> reads_member m kv" "2 * length (Join (map fst mks) '','') + 1 \<le> n"
  shows "jmembers n (Join (map fst mks) '','' @ ''}'' @ r) = Some (map snd mks, r)"
  using assms
proof (induction mks arbitrary: n)
  case (Cons x mks)
  then obtain k where n: "n = Suc k" by (cases n) auto
  obtain m key v where x: "x = (m, key, v)" by (cases x)
  have "reads_member m (key, v)" using Cons.prems(2) x by simp
  then obtain q t where m: "m = quote_char # q @ '':'' @ t" and q: "\<And>r. jstring (q @ r) = Some (key, r)" and v: "reads t v"
    by (auto simp: reads_member_def)
  have s: "jskip (quote_char # u) = quote_char # u" "jskip ('':'' @ u) = '':'' @ u" for u by (simp_all add: jskip_def jspace_def)
  show ?case
  proof (cases "mks = []")
    case True
    then have "jvalue k (t @ ''}'' @ r) = Some (v, ''}'' @ r)"
      using reads_jvalue [OF v] Cons.prems(3) n x m by simp
    then show ?thesis using s by (simp add: n x m q True jskip_delimited jmembers.simps)
  next
    case False
    have len: "2 * (length t + 1 + length (Join (map fst mks) '','')) \<le> k"
      using Cons.prems(3) n x m False by (simp add: Join_Cons)
    have "jvalue k (t @ '','' @ Join (map fst mks) '','' @ ''}'' @ r) = Some (v, '','' @ Join (map fst mks) '','' @ ''}'' @ r)"
      using reads_jvalue [OF v] len by simp
    moreover have "jmembers k (Join (map fst mks) '','' @ ''}'' @ r) = Some (map snd mks, r)"
      by (rule Cons.IH [OF False]) (use Cons.prems(2) len in auto)
    ultimately show ?thesis using s by (simp add: n x m q Join_Cons False jskip_delimited jmembers.simps)
  qed
qed simp

lemma reads_arr:
  assumes "\<And>t v. (t, v) \<in> set tvs \<Longrightarrow> reads t v"
  shows "reads (''['' @ Join (map fst tvs) '','' @ '']'') (JArr (map snd tvs))"
proof (rule readsI)
  show "''['' @ Join (map fst tvs) '','' @ '']'' = CHR ''['' # Join (map fst tvs) '','' @ '']''" by simp
  show "value_head (CHR ''['')" by (simp add: value_head_def jspace_def)
  fix n r
  assume n: "2 * length (''['' @ Join (map fst tvs) '','' @ '']'') \<le> Suc n" and r: "delimited r"
  show "jvalue (Suc n) ((''['' @ Join (map fst tvs) '','' @ '']'') @ r) = Some (JArr (map snd tvs), r)"
  proof (cases tvs)
    case Nil
    have "jskip (''['' @ s) = ''['' @ s" for s by (simp add: jskip_def jspace_def)
    then show ?thesis by (simp add: Nil jskip_delimited jvalue.simps)
  next
    case (Cons x xs)
    obtain t v where x: "x = (t, v)" by (cases x)
    have "(t, v) \<in> set tvs" by (simp add: Cons x)
    then have "reads t v" by (rule assms)
    then obtain c s where c: "t = c # s" "value_head c" using reads_head by blast
    obtain u where u: "Join (map fst tvs) '','' = c # u" using Join_head [OF c(1)] by (auto simp: Cons x)
    have "jelems n (Join (map fst tvs) '','' @ '']'' @ r) = Some (map snd tvs, r)"
    proof (rule jelems_reads [OF _ assms])
      show "tvs \<noteq> []" by (simp add: Cons)
      show "2 * length (Join (map fst tvs) '','') + 1 \<le> n" using n by simp
    qed
    moreover have "jskip (Join (map fst tvs) '','' @ '']'' @ r) = c # u @ '']'' @ r"
      using u c(2) by (simp add: jskip_def value_head_def)
    ultimately have "jvalue (Suc n) (''['' @ Join (map fst tvs) '','' @ '']'' @ r) = Some (JArr (map snd tvs), r)"
      by (simp only: jvalue_arr [OF c(2)]) simp
    then show ?thesis by (simp only: append.assoc)
  qed
qed

lemma reads_obj:
  assumes "\<And>m kv. (m, kv) \<in> set mks \<Longrightarrow> reads_member m kv"
  shows "reads (''{'' @ Join (map fst mks) '','' @ ''}'') (JObj (map snd mks))"
proof (rule readsI)
  show "''{'' @ Join (map fst mks) '','' @ ''}'' = CHR ''{'' # Join (map fst mks) '','' @ ''}''" by simp
  show "value_head (CHR ''{'')" by (simp add: value_head_def jspace_def)
  fix n r
  assume n: "2 * length (''{'' @ Join (map fst mks) '','' @ ''}'') \<le> Suc n" and r: "delimited r"
  have h: "jskip (''{'' @ s) = ''{'' @ s" for s by (simp add: jskip_def jspace_def)
  show "jvalue (Suc n) ((''{'' @ Join (map fst mks) '','' @ ''}'') @ r) = Some (JObj (map snd mks), r)"
  proof (cases mks)
    case Nil
    then show ?thesis using h by (simp add: jskip_delimited jvalue.simps)
  next
    case (Cons x xs)
    obtain m kv where x: "x = (m, kv)" by (cases x)
    have "(m, kv) \<in> set mks" by (simp add: Cons x)
    then have "reads_member m kv" by (rule assms)
    then obtain s where s: "m = quote_char # s" by (auto simp: reads_member_def)
    obtain u where u: "Join (map fst mks) '','' = quote_char # u" using Join_head [OF s] by (auto simp: Cons x)
    have "jmembers n (Join (map fst mks) '','' @ ''}'' @ r) = Some (map snd mks, r)"
    proof (rule jmembers_reads [OF _ assms])
      show "mks \<noteq> []" by (simp add: Cons)
      show "2 * length (Join (map fst mks) '','') + 1 \<le> n" using n by simp
    qed
    moreover have "jskip (Join (map fst mks) '','' @ ''}'' @ r) = quote_char # u @ ''}'' @ r" using u by (simp add: jskip_def jspace_def)
    ultimately have "jvalue (Suc n) (''{'' @ Join (map fst mks) '','' @ ''}'' @ r) = Some (JObj (map snd mks), r)"
      by (simp only: jvalue.simps h) simp
    then show ?thesis by (simp only: append.assoc)
  qed
qed

lemma json_parse_reads:
  assumes "reads t v"
  shows "json_parse t = Some v"
proof -
  have "jvalue (json_fuel t) (t @ []) = Some (v, [])" using assms by (rule reads_jvalue) (simp_all add: json_fuel_def)
  then show ?thesis by (simp add: json_parse_def jskip_def)
qed

section \<open>Printed values\<close>

lemma reads_print: "json_ints v \<Longrightarrow> reads (json_print v) v"
proof (induction v)
  case (JBool b)
  then show ?case using reads_literals by (cases b) simp_all
next
  case (JNum s)
  then obtain i where i: "s = Itoa i" by auto
  obtain c u where "Itoa i = c # u" "is_digit c \<or> c = CHR ''-''" using Itoa_head [of i] by blast
  then have "reads (Itoa i) (JNum (Itoa i))" by (rule reads_num) (rule jnumber_Itoa)
  then show ?case by (simp add: i)
next
  case (JStr s)
  have "reads (quote_char # tl (json_quote s)) (JStr s)" by (rule reads_str) (rule jstring_quote)
  then show ?case by (simp flip: json_quote_Cons)
next
  case (JArr vs)
  have "reads (''['' @ Join (map fst (map (\<lambda>v. (json_print v, v)) vs)) '','' @ '']'') (JArr (map snd (map (\<lambda>v. (json_print v, v)) vs)))"
    by (rule reads_arr) (use JArr in auto)
  then show ?case by (simp add: o_def)
next
  case (JObj ms)
  let ?mks = "map (\<lambda>m. (json_quote (fst m) @ '':'' @ json_print (snd m), m)) ms"
  have "reads_member (json_quote (fst m) @ '':'' @ json_print (snd m)) m" if "m \<in> set ms" for m
    unfolding reads_member_def
  proof (intro exI conjI allI)
    show "json_quote (fst m) @ '':'' @ json_print (snd m) = quote_char # tl (json_quote (fst m)) @ '':'' @ json_print (snd m)"
      by (subst json_quote_Cons) simp
    show "reads (json_print (snd m)) (snd m)" using JObj that by (cases m) force
  qed (rule jstring_quote)
  then have "reads (''{'' @ Join (map fst ?mks) '','' @ ''}'') (JObj (map snd ?mks))" by (intro reads_obj) auto
  then show ?case by (simp add: o_def)
qed (use reads_literals in simp)

text \<open>The parser reads back every value the programs write.\<close>

lemma json_parse_print: "json_ints v \<Longrightarrow> json_parse (json_print v) = Some v"
  by (rule json_parse_reads) (rule reads_print)

end
