(* ===== verification/Json_Compact.thy ===== *)
theory Json_Compact
  imports Json_Text
begin

text \<open>
  \<open>json.Marshal\<close> compacts a \<open>json.RawMessage\<close>: white space between tokens goes, and
  \<open><\<close>, \<open>>\<close>, \<open>&\<close>, U+2028 and U+2029 in strings are escaped. The value the text
  stands for is the same afterwards, and compacting again changes nothing.
\<close>

section \<open>Escaping\<close>

definition html_plain :: "char \<Rightarrow> string \<Rightarrow> bool" where
  "html_plain c q \<longleftrightarrow> c \<noteq> CHR ''<'' \<and> c \<noteq> CHR ''>'' \<and> c \<noteq> CHR ''&''
     \<and> (\<forall>x r. c = CHR 0xE2 \<and> q = CHR 0x80 # x # r \<longrightarrow> x \<noteq> CHR 0xA8 \<and> x \<noteq> CHR 0xA9)"

lemma html_escape_plain: "html_plain c q \<Longrightarrow> html_escape (c # q) = c # html_escape q"
  by (cases rule: html_escape_cases [where c = c and q = q]) (auto simp: html_plain_def)

lemma html_escape_angle: "c = CHR ''<'' \<or> c = CHR ''>'' \<or> c = CHR ''&'' \<Longrightarrow> html_escape (c # q) = u00 c @ html_escape q"
  by auto

lemma html_cases:
  obtains (angle) "c = CHR ''<'' \<or> c = CHR ''>'' \<or> c = CHR ''&''"
  | (line) x r where "c = CHR 0xE2" "x = CHR 0xA8 \<or> x = CHR 0xA9" "q = CHR 0x80 # x # r"
  | (plain) "html_plain c q"
  unfolding html_plain_def by blast

declare html_escape.simps(2) [simp del]

lemma html_escape_high:
  assumes "html_escape q = d # u" "128 \<le> byte d" "d \<noteq> CHR 0xE2"
  shows "\<exists>q'. q = d # q' \<and> u = html_escape q'"
proof (cases q)
  case (Cons c r)
  then show ?thesis
  proof (cases rule: html_cases [where c = c and q = r])
    case angle
    then show ?thesis using assms Cons html_escape_angle [of c r] by (auto simp: u00_def)
  next
    case (line x t)
    then show ?thesis using assms Cons html_escape_line [OF line(2), of t] by auto
  next
    case plain
    then show ?thesis using assms(1) Cons html_escape_plain by simp
  qed
qed (use assms in simp)

lemma html_plain_escaped: "html_plain c q \<Longrightarrow> html_plain c (html_escape q)"
proof -
  assume p: "html_plain c q"
  have "x \<noteq> CHR 0xA8 \<and> x \<noteq> CHR 0xA9" if c: "c = CHR 0xE2" and e: "html_escape q = CHR 0x80 # x # r" for x r
  proof (rule ccontr)
    assume n: "\<not> (x \<noteq> CHR 0xA8 \<and> x \<noteq> CHR 0xA9)"
    obtain q1 where q1: "q = CHR 0x80 # q1" "x # r = html_escape q1" using html_escape_high [OF e] by auto
    obtain q2 where "q1 = x # q2" using html_escape_high [OF q1(2) [symmetric]] n by auto
    then show False using p c q1(1) n by (auto simp: html_plain_def)
  qed
  then show ?thesis using p by (auto simp: html_plain_def)
qed

lemma html_escape_idem [simp]: "html_escape (html_escape s) = html_escape s"
proof (induction s rule: length_induct)
  case (1 s)
  show ?case
  proof (cases s)
    case (Cons c q)
    have IH: "html_escape (html_escape q) = html_escape q" using 1 Cons by simp
    show ?thesis
    proof (cases rule: html_cases [where c = c and q = q])
      case angle
      have "html_escape (u00 c @ html_escape q) = u00 c @ html_escape (html_escape q)"
        by (rule html_escape_keep) (rule u00_keep)
      then show ?thesis unfolding Cons html_escape_angle [OF angle] IH .
    next
      case (line x r)
      have r: "html_escape (html_escape r) = html_escape r" using 1 Cons line by simp
      show ?thesis unfolding Cons line(1,3) html_escape_line [OF line(2)]
        by (subst html_escape_keep) (auto simp: special_def r split: if_splits)
    next
      case plain
      show ?thesis unfolding Cons html_escape_plain [OF plain] html_escape_plain [OF html_plain_escaped [OF plain]] IH ..
    qed
  qed simp
qed

text \<open>Around an ASCII byte that is not escaped the two parts are escaped by themselves.\<close>

lemma html_escape_append:
  assumes "\<not> special c" "byte c < 128"
  shows "html_escape (s @ c # x) = html_escape s @ c # html_escape x"
proof (induction s rule: length_induct)
  case (1 s)
  show ?case
  proof (cases s)
    case Nil
    then show ?thesis using html_escape_keep [of "[c]"] assms by simp
  next
    case (Cons d q)
    have IH: "html_escape (q @ c # x) = html_escape q @ c # html_escape x" using 1 Cons by simp
    show ?thesis
    proof (cases rule: html_cases [where c = d and q = q])
      case angle
      then show ?thesis by (simp add: Cons html_escape_angle IH)
    next
      case (line y r)
      have "html_escape (r @ c # x) = html_escape r @ c # html_escape x" using 1 Cons line(3) by simp
      then show ?thesis using html_escape_line [OF line(2)] by (simp add: Cons line(1,3))
    next
      case plain
      have c: "c \<noteq> CHR 0x80" "c \<noteq> CHR 0xA8" "c \<noteq> CHR 0xA9" using assms(2) by auto
      from plain have "html_plain d (q @ c # x)"
        by (cases q; cases "tl q") (simp_all add: html_plain_def c)
      then show ?thesis using plain IH by (simp add: Cons html_escape_plain)
    qed
  qed
qed

section \<open>Strings\<close>

definition skips :: "string \<Rightarrow> bool" where
  "skips e \<longleftrightarrow> (\<forall>z. strip_spaces True (e @ z) = e @ strip_spaces True z)"

lemma skips_append: "skips e \<Longrightarrow> skips f \<Longrightarrow> skips (e @ f)"
  by (simp add: skips_def)

lemma skips_plain: "(\<And>c. c \<in> set e \<Longrightarrow> c \<noteq> backslash \<and> c \<noteq> quote_char) \<Longrightarrow> skips e"
  unfolding skips_def by (induction e) auto

lemma skips_escape: "skips [backslash, e]"
  by (simp add: skips_def)

definition hexes :: "string \<Rightarrow> bool" where
  "hexes h \<longleftrightarrow> (\<forall>c \<in> set h. hex_val c \<noteq> None)"

lemma hex_val_plain: "hex_val c \<noteq> None \<Longrightarrow> c \<noteq> backslash \<and> c \<noteq> quote_char \<and> \<not> special c"
  by (auto simp: hex_val_def special_def)

lemma skips_u: "hexes h \<Longrightarrow> skips ([backslash, CHR ''u''] @ h)"
  using hex_val_plain by (intro skips_append skips_escape skips_plain) (auto simp: hexes_def)

lemma skips_u00: "skips (u00 c)"
proof -
  have "hexes [CHR ''0'', CHR ''0'', hex_digit (byte c div 16), hex_digit (byte c mod 16)]"
    by (auto simp: hexes_def hex_val_def [of "CHR ''0''"])
  then have "skips ([backslash, CHR ''u''] @ [CHR ''0'', CHR ''0'', hex_digit (byte c div 16), hex_digit (byte c mod 16)])"
    by (rule skips_u)
  then show ?thesis by (simp add: u00_def)
qed

lemma hex4_split: "hex4 s = Some n \<Longrightarrow> \<exists>h r. s = h @ r \<and> length h = 4 \<and> hexes h \<and> (\<forall>z. hex4 (h @ z) = Some n)"
proof (induction s rule: hex4.induct)
  case (1 a b c d r)
  then have "hexes [a, b, c, d]" by (auto simp: hexes_def split: option.splits)
  moreover have "hex4 ([a, b, c, d] @ z) = Some n" for z using 1 by simp
  ultimately show ?case by (intro exI [of _ "[a, b, c, d]"] exI [of _ r]) simp
qed simp_all

text \<open>A text that continues a high surrogate to a pair.\<close>

definition low_pair :: "string \<Rightarrow> bool" where
  "low_pair z \<longleftrightarrow> (\<exists>q m. z = backslash # CHR ''u'' # q \<and> hex4 q = Some m \<and> 56320 \<le> m \<and> m < 57344)"

lemma u_escape_single:
  assumes "hex4 r = Some n" "drop 4 r = r1" "\<not> (55296 \<le> n \<and> n < 56320 \<and> low_pair r1)"
  shows "u_escape r = Some (if 55296 \<le> n \<and> n < 57344 then utf8 65533 else utf8 n, r1)"
  using assms by (auto simp: u_escape_def low_pair_def take2_iff split: option.splits)

lemma u_escape_pair:
  assumes "hex4 r = Some n" "drop 4 r = r1" "take 2 r1 = [backslash, CHR ''u'']" "hex4 (drop 2 r1) = Some m"
    and "55296 \<le> n" "n < 56320" "56320 \<le> m" "m < 57344"
  shows "u_escape r = Some (utf8 (65536 + (n - 55296) * 1024 + (m - 56320)), drop 6 r1)"
  using assms by (simp add: u_escape_def)

lemma hexes_plain: "hexes h \<Longrightarrow> \<forall>c \<in> set h. \<not> special c"
  using hex_val_plain by (auto simp: hexes_def)

text \<open>A pair of surrogates: two escapes that stand for one character.\<close>

lemma u_escape_pair_text:
  assumes h: "length h = 4" "hexes h" "\<And>z. hex4 (h @ z) = Some n" "55296 \<le> n" "n < 56320"
    and g: "length g = 4" "hexes g" "\<And>z. hex4 (g @ z) = Some m" "56320 \<le> m" "m < 57344"
  defines "p \<equiv> h @ [backslash, CHR ''u''] @ g"
  shows "u_escape (p @ z) = Some (utf8 (65536 + (n - 55296) * 1024 + (m - 56320)), z)"
    and "skips ([backslash, CHR ''u''] @ p)" and "\<forall>c \<in> set p. \<not> special c"
proof -
  have "u_escape (p @ z) = Some (utf8 (65536 + (n - 55296) * 1024 + (m - 56320)), drop 6 (backslash # CHR ''u'' # g @ z))"
  proof (rule u_escape_pair)
    show "hex4 (p @ z) = Some n" using h(3) [of "[backslash, CHR ''u''] @ g @ z"] by (simp add: p_def)
    show "drop 4 (p @ z) = backslash # CHR ''u'' # g @ z" using h(1) by (simp add: p_def)
    show "take 2 (backslash # CHR ''u'' # g @ z) = [backslash, CHR ''u'']" by simp
    show "hex4 (drop 2 (backslash # CHR ''u'' # g @ z)) = Some m" using g(3) by simp
  qed (use h(4,5) g(4,5) in simp_all)
  moreover have "drop 6 (backslash # CHR ''u'' # g @ z) = z" using g(1) by simp
  ultimately show "u_escape (p @ z) = Some (utf8 (65536 + (n - 55296) * 1024 + (m - 56320)), z)" by (simp only:)
  show "skips ([backslash, CHR ''u''] @ p)"
    unfolding p_def using skips_append [OF skips_u [OF h(2)] skips_u [OF g(2)]] by simp
  have "\<not> special backslash" "\<not> special (CHR ''u'')" by (simp_all add: special_def)
  then show "\<forall>c \<in> set p. \<not> special c" unfolding p_def
    using hexes_plain [OF h(2)] hexes_plain [OF g(2)] by (auto simp only: set_append list.set Un_iff insert_iff empty_iff)
qed

lemma u_escape_split:
  assumes "u_escape s = Some (x, r)"
  shows "\<exists>h. s = h @ r \<and> skips ([backslash, CHR ''u''] @ h) \<and> (\<forall>c \<in> set h. \<not> special c)
     \<and> (\<forall>z. (low_pair z \<longrightarrow> low_pair r) \<longrightarrow> u_escape (h @ z) = Some (x, z))"
proof -
  obtain n where n: "hex4 s = Some n" using assms by (auto simp: u_escape_def split: option.splits)
  obtain h s1 where h: "s = h @ s1" "length h = 4" "hexes h" "\<And>z. hex4 (h @ z) = Some n"
    using hex4_split [OF n] by auto
  have d: "drop 4 (h @ z) = z" for z using h(2) by simp
  let ?sur = "55296 \<le> n \<and> n < 57344"
  show ?thesis
  proof (cases "?sur \<and> n < 56320 \<and> low_pair s1")
    case True
    then obtain q m where q: "s1 = backslash # CHR ''u'' # q" "hex4 q = Some m" "56320 \<le> m" "m < 57344"
      by (auto simp: low_pair_def)
    obtain g t where g: "q = g @ t" "length g = 4" "hexes g" "\<And>z. hex4 (g @ z) = Some m"
      using hex4_split [OF q(2)] by auto
    have "55296 \<le> n" "n < 56320" using True by simp_all
    note pair = u_escape_pair_text [OF h(2-4) this g(2-4) q(3,4)]
    have sr: "s = (h @ [backslash, CHR ''u''] @ g) @ t" using h(1) q(1) g(1) by simp
    then have "x = utf8 (65536 + (n - 55296) * 1024 + (m - 56320))" "r = t"
      using assms pair(1) [of t] by (simp_all only:) simp_all
    then show ?thesis using sr pair by (intro exI [of _ "h @ [backslash, CHR ''u''] @ g"]) simp
  next
    case False
    let ?x = "if ?sur then utf8 65533 else utf8 n"
    have e: "u_escape (h @ z) = Some (?x, z)" if "low_pair z \<longrightarrow> low_pair s1" for z
      by (rule u_escape_single [OF h(4) d]) (use False that in auto)
    have "x = ?x" "r = s1" using assms e [of s1] unfolding h(1) by simp_all
    then show ?thesis using h(1) skips_u [OF h(3)] hexes_plain [OF h(3)] e by (intro exI [of _ h]) simp
  qed
qed

lemma escaped_head:
  assumes "html_escape z @ quote_char # y = a # w" "a \<noteq> backslash" "a \<noteq> quote_char"
  shows "\<exists>z'. z = a # z' \<and> w = html_escape z' @ quote_char # y"
proof (cases z)
  case Nil
  then show ?thesis using assms by simp
next
  case (Cons c q)
  show ?thesis
  proof (cases rule: html_cases [where c = c and q = q])
    case angle
    then show ?thesis using assms Cons html_escape_angle [OF angle] by (simp add: u00_def)
  next
    case (line x r)
    then show ?thesis using assms Cons html_escape_line [OF line(2)] by simp
  next
    case plain
    then show ?thesis using assms Cons html_escape_plain [OF plain] by simp
  qed
qed

lemma hexes_escaped:
  "hexes h \<Longrightarrow> html_escape z @ quote_char # y = h @ w \<Longrightarrow> \<exists>z'. z = h @ z'"
proof (induction h arbitrary: z)
  case (Cons a h)
  have "hex_val a \<noteq> None" using Cons.prems(1) by (simp add: hexes_def)
  then have "a \<noteq> backslash" "a \<noteq> quote_char" using hex_val_plain by blast+
  then obtain z' where z: "z = a # z'" "h @ w = html_escape z' @ quote_char # y"
    using escaped_head [of z y a "h @ w"] Cons.prems(2) by auto
  then show ?case using Cons.IH [of z'] Cons.prems(1) by (auto simp: hexes_def)
qed simp

text \<open>Escaping makes no new surrogate pair.\<close>

lemma low_pair_escaped:
  assumes "low_pair (html_escape p @ quote_char # x)"
  shows "low_pair (p @ quote_char # r)"
proof -
  obtain q m where q: "html_escape p @ quote_char # x = backslash # CHR ''u'' # q" "hex4 q = Some m" "56320 \<le> m" "m < 57344"
    using assms by (auto simp: low_pair_def)
  obtain h t where h: "q = h @ t" "hexes h" "\<And>z. hex4 (h @ z) = Some m" using hex4_split [OF q(2)] by auto
  obtain c p1 where p: "p = c # p1" using q(1) by (cases p) auto
  show ?thesis
  proof (cases rule: html_cases [where c = c and q = p1])
    case angle
    then have "hex4 q = hex4 (''00'' @ hex_digit (byte c div 16) # hex_digit (byte c mod 16) # html_escape p1 @ quote_char # x)"
      using q(1) p html_escape_angle [OF angle] by (simp add: u00_def)
    then have "m = byte c" using q(2) hex4_u00 [of c] by simp
    then show ?thesis using q(3) byte_lt [of c] by simp
  next
    case (line y r')
    then have "q = ''202'' @ [if y = CHR 0xA8 then CHR ''8'' else CHR ''9''] @ html_escape r' @ quote_char # x"
      using q(1) p html_escape_line [OF line(2), of r'] by simp
    then have "m = 8232 \<or> m = 8233" using q(2) hex4_lines line(2) by (auto split: if_splits)
    then show ?thesis using q(3) by auto
  next
    case plain
    then have c: "c = backslash" "html_escape p1 @ quote_char # x = CHR ''u'' # q"
      using q(1) p html_escape_plain [OF plain] by simp_all
    obtain p2 where p2: "p1 = CHR ''u'' # p2" "q = html_escape p2 @ quote_char # x"
      using escaped_head [OF c(2)] by auto
    obtain z' where "p2 = h @ z'" using hexes_escaped [OF h(2), of p2 x t] p2(2) h(1) by auto
    then show ?thesis using h(3) q(3,4) by (auto simp: low_pair_def p c(1) p2(1))
  qed
qed

text \<open>The bytes of a string up to its closing quote, and the string they stand for.\<close>

definition str_ok :: "string \<Rightarrow> string \<Rightarrow> bool" where
  "str_ok p t \<longleftrightarrow>
     (\<forall>x. strip_spaces True (p @ quote_char # x) = p @ quote_char # strip_spaces False x)
   \<and> (\<forall>x. strip_spaces True (html_escape p @ quote_char # x) = html_escape p @ quote_char # strip_spaces False x)
   \<and> (\<forall>x. jstring (html_escape p @ quote_char # x) = Some (t, x))"

lemma str_ok_Nil: "str_ok [] []"
  by (simp add: str_ok_def jstring.simps [of "quote_char # _"])

lemma str_ok_prefix:
  assumes "str_ok p t" "skips e" "skips f" "html_escape (e @ p) = f @ html_escape p"
    and "\<And>x. jstring (f @ html_escape p @ quote_char # x) = map_option (\<lambda>(y, q). (s @ y, q)) (jstring (html_escape p @ quote_char # x))"
  shows "str_ok (e @ p) (s @ t)"
  using assms by (simp add: str_ok_def skips_def)

lemma jstring_Cons_plain:
  assumes "c \<noteq> quote_char" "c \<noteq> backslash" "\<not> byte c < 32"
  shows "jstring (c # s) = map_option (\<lambda>(y, q). (c # y, q)) (jstring s)"
  using assms by (simp add: jstring.simps [of "c # _"])

lemma unescapeD: "unescape e s \<Longrightarrow> jstring (e @ r) = map_option (\<lambda>(y, q). (s @ y, q)) (jstring r)"
  by (simp add: unescape_def)

lemma raw_u_escape:
  assumes "u_escape s1 = Some (x, p @ quote_char # r)" "str_ok p y"
  shows "\<exists>q. backslash # CHR ''u'' # s1 = q @ quote_char # r \<and> str_ok q (x @ y)"
proof -
  obtain h where h: "s1 = h @ p @ quote_char # r" "skips ([backslash, CHR ''u''] @ h)" "\<forall>c \<in> set h. \<not> special c"
    "\<And>z. (low_pair z \<longrightarrow> low_pair (p @ quote_char # r)) \<Longrightarrow> u_escape (h @ z) = Some (x, z)"
    using u_escape_split [OF assms(1)] by blast
  have e: "html_escape (([backslash, CHR ''u''] @ h) @ p) = ([backslash, CHR ''u''] @ h) @ html_escape p"
    by (rule html_escape_keep) (use h(3) in \<open>auto simp: special_def\<close>)
  have ne: "backslash \<noteq> quote_char" by simp
  have "u_escape (h @ html_escape p @ quote_char # z) = Some (x, html_escape p @ quote_char # z)" for z
    by (rule h(4)) (use low_pair_escaped in blast)
  then have "str_ok (([backslash, CHR ''u''] @ h) @ p) (x @ y)"
    using ne by (intro str_ok_prefix [OF assms(2) h(2) h(2) e]) (simp add: jstring.simps [of "_ # _"])
  then show ?thesis using h(1) by (intro exI [of _ "([backslash, CHR ''u''] @ h) @ p"]) simp
qed

lemma raw_simple_escape:
  assumes "simple_escape e = Some x" "e \<noteq> CHR ''u''" "str_ok p y"
  shows "str_ok (backslash # e # p) (x # y)"
proof -
  have "\<not> special e" using assms(1) by (auto simp: simple_escape_def special_def split: if_splits)
  then have e: "html_escape ([backslash, e] @ p) = [backslash, e] @ html_escape p"
    by (intro html_escape_keep) (auto simp: special_def)
  have "str_ok ([backslash, e] @ p) ([x] @ y)"
    by (rule str_ok_prefix [OF assms(3) skips_escape skips_escape e]) (rule unescapeD [OF unescape_simple [OF assms(1,2)]])
  then show ?thesis by simp
qed

lemma raw_line_separator:
  assumes x: "x = CHR 0xA8 \<or> x = CHR 0xA9"
    and y: "jstring (CHR 0x80 # x # p @ quote_char # r) = Some (y, r)"
    and ok: "\<And>y'. jstring (p @ quote_char # r) = Some (y', r) \<Longrightarrow> str_ok p y'"
  shows "str_ok (CHR 0xE2 # CHR 0x80 # x # p) (CHR 0xE2 # y)"
proof -
  have n: "CHR 0x80 \<noteq> quote_char" "CHR 0x80 \<noteq> backslash" "\<not> byte (CHR 0x80) < 32" "x \<noteq> quote_char" "x \<noteq> backslash" "\<not> byte x < 32"
    using x by auto
  obtain y3 where y3: "jstring (p @ quote_char # r) = Some (y3, r)" "y = CHR 0x80 # x # y3"
    using y unfolding jstring_Cons_plain [OF n(1-3)] jstring_Cons_plain [OF n(4-6)] by auto
  let ?e = "[CHR 0xE2, CHR 0x80, x]" and ?f = "[backslash] @ ''u202'' @ [if x = CHR 0xA8 then CHR ''8'' else CHR ''9'']"
  have se: "skips ?e" by (rule skips_plain) (use x in auto)
  have "hexes (''202'' @ [if x = CHR 0xA8 then CHR ''8'' else CHR ''9''])" by (simp add: hexes_def hex_val_def)
  then have sf: "skips ?f" using skips_u by fastforce
  have e: "html_escape (?e @ p) = ?f @ html_escape p" using html_escape_line [OF x, of p] by simp
  have "str_ok (?e @ p) (?e @ y3)"
    by (rule str_ok_prefix [OF ok [OF y3(1)] se sf e]) (rule unescapeD [OF unescape_line [OF x]])
  then show ?thesis by (simp add: y3(2))
qed

lemma raw_plain:
  assumes c: "c \<noteq> quote_char" "c \<noteq> backslash" "\<not> byte c < 32"
    and y: "jstring (p @ quote_char # r) = Some (y, r)" "str_ok p y"
    and shorter: "\<And>p' y'. length p' < length p \<Longrightarrow> jstring (p' @ quote_char # r) = Some (y', r) \<Longrightarrow> str_ok p' y'"
  shows "str_ok (c # p) (c # y)"
proof -
  have sk: "skips [c]" by (rule skips_plain) (use c in simp)
  show ?thesis
  proof (cases rule: html_cases [where c = c and q = p])
    case angle
    then have b: "byte c < 128" by auto
    have e: "html_escape ([c] @ p) = u00 c @ html_escape p" using html_escape_angle [OF angle] by simp
    have "str_ok ([c] @ p) ([c] @ y)"
      by (rule str_ok_prefix [OF y(2) sk skips_u00 e]) (rule unescapeD [OF unescape_u00 [OF b]])
    then show ?thesis by simp
  next
    case (line x p3)
    have "str_ok (CHR 0xE2 # CHR 0x80 # x # p3) (CHR 0xE2 # y)"
    proof (rule raw_line_separator [OF line(2)])
      show "jstring (CHR 0x80 # x # p3 @ quote_char # r) = Some (y, r)" using y(1) line(3) by simp
      show "str_ok p3 y'" if "jstring (p3 @ quote_char # r) = Some (y', r)" for y'
        by (rule shorter [OF _ that]) (simp add: line(3))
    qed
    then show ?thesis by (simp add: line(1,3))
  next
    case plain
    have e: "html_escape ([c] @ p) = [c] @ html_escape p" using html_escape_plain [OF plain] by simp
    have "str_ok ([c] @ p) ([c] @ y)"
      by (rule str_ok_prefix [OF y(2) sk sk e]) (rule unescapeD [OF unescape_plain [OF c]])
    then show ?thesis by simp
  qed
qed

lemma jstring_raw: "jstring s = Some (t, r) \<Longrightarrow> \<exists>p. s = p @ quote_char # r \<and> str_ok p t"
proof (induction s arbitrary: t r rule: length_induct)
  case (1 s)
  have IH: "\<exists>p. u = p @ quote_char # q \<and> str_ok p y" if "length u < length s" "jstring u = Some (y, q)" for u y q
    using 1(1) that by blast
  obtain c s0 where s: "s = c # s0" using 1(2) by (cases s) (simp_all add: jstring.simps [of "[]"])
  consider (quote) "c = quote_char" | (esc) "c = backslash" | (plain) "c \<noteq> quote_char" "c \<noteq> backslash" by blast
  then show ?case
  proof cases
    case quote
    then have "t = []" "s0 = r" using 1(2) by (simp_all add: s jstring.simps [of "_ # _"])
    then show ?thesis using s quote str_ok_Nil by (intro exI [of _ "[]"]) simp
  next
    case esc
    obtain e s1 where s1: "s0 = e # s1" using 1(2) esc by (cases s0) (simp_all add: s jstring.simps [of "[_]"])
    have ne: "backslash \<noteq> quote_char" by simp
    show ?thesis
    proof (cases "e = CHR ''u''")
      case True
      then obtain x s2 y where u: "u_escape s1 = Some (x, s2)" "jstring s2 = Some (y, r)" "t = x @ y"
        using 1(2) esc ne by (auto simp: s s1 jstring.simps [of "_ # _ # _"] split: option.splits)
      have "length s2 < length s" using u_escape_split [OF u(1)] by (auto simp: s s1)
      then obtain p where p: "s2 = p @ quote_char # r" "str_ok p y" using IH [OF _ u(2)] by blast
      show ?thesis using raw_u_escape [OF u(1) [unfolded p(1)] p(2)] by (simp add: s s1 esc True u(3))
    next
      case False
      then obtain x y where u: "simple_escape e = Some x" "jstring s1 = Some (y, r)" "t = x # y"
        using 1(2) esc ne by (auto simp: s s1 jstring.simps [of "_ # _ # _"] split: option.splits)
      obtain p where p: "s1 = p @ quote_char # r" "str_ok p y" using IH [OF _ u(2)] by (auto simp: s s1)
      show ?thesis using raw_simple_escape [OF u(1) False p(2)] by (intro exI [of _ "backslash # e # p"]) (simp add: s s1 esc p(1) u(3))
    qed
  next
    case plain
    then have ctl: "\<not> byte c < 32" using 1(2) by (auto simp: s jstring.simps [of "_ # _"])
    obtain y where y: "jstring s0 = Some (y, r)" "t = c # y"
      using 1(2) jstring_Cons_plain [OF plain ctl, of s0] by (auto simp: s)
    obtain p where p: "s0 = p @ quote_char # r" "str_ok p y" using IH [OF _ y(1)] by (auto simp: s)
    have "str_ok (c # p) (c # y)"
    proof (rule raw_plain [OF plain ctl y(1) [unfolded p(1)] p(2)])
      show "str_ok p' y'" if "length p' < length p" "jstring (p' @ quote_char # r) = Some (y', r)" for p' y'
        using IH [OF _ that(2)] that(1) by (auto simp: s p(1))
    qed
    then show ?thesis using s p(1) y(2) by (intro exI [of _ "c # p"]) simp
  qed
qed

section \<open>Numbers\<close>

definition stops :: "string \<Rightarrow> bool" where
  "stops r \<longleftrightarrow> r = [] \<or> \<not> is_digit (hd r)"

lemma jdigits1_split:
  assumes "jdigits1 s = Some (d, q)"
  shows "s = d @ q \<and> d \<noteq> [] \<and> list_all is_digit d \<and> (\<forall>r. stops r \<longrightarrow> jdigits1 (d @ r) = Some (d, r))"
proof -
  have d: "d = takeWhile is_digit s" "q = dropWhile is_digit s" "d \<noteq> []"
    using assms by (auto simp: jdigits1_def Let_def split: if_splits)
  have all: "list_all is_digit d" using d(1) by (auto simp: list_all_iff dest: set_takeWhileD)
  have "jdigits1 (d @ r) = Some (d, r)" if "stops r" for r
  proof -
    have "takeWhile is_digit r = [] \<and> dropWhile is_digit r = r" using that by (cases r) (auto simp: stops_def)
    then show ?thesis using all d(3) by (simp add: jdigits1_def list_all_iff)
  qed
  then show ?thesis using d all by simp
qed

lemma jint_split:
  assumes "jint_part s = Some (i, q)"
  shows "s = i @ q \<and> i \<noteq> [] \<and> list_all is_digit i \<and> (\<forall>r. stops r \<longrightarrow> jint_part (i @ r) = Some (i, r))"
proof (cases "\<exists>u. s = CHR ''0'' # u")
  case True
  then show ?thesis using assms by (auto simp: jint_part_def is_digit_def)
next
  case False
  have e: "jint_part z = jdigits1 z" if "\<nexists>u. z = CHR ''0'' # u" for z
    using that by (auto simp: jint_part_def split: list.splits char.splits bool.splits)
  have d: "jdigits1 s = Some (i, q)" using assms e [OF False] by simp
  note k = jdigits1_split [OF d]
  then have "\<nexists>u. i @ r = CHR ''0'' # u" for r using False by (cases i) auto
  then show ?thesis using k e by simp
qed

lemma jfrac_split:
  assumes "jfrac_part s = Some (f, q)"
  shows "s = f @ q \<and> (f = [] \<or> (\<exists>d. f = CHR ''.'' # d \<and> list_all is_digit d))
     \<and> (\<forall>r. stops r \<and> (f = [] \<longrightarrow> r = [] \<or> hd r \<noteq> CHR ''.'') \<longrightarrow> jfrac_part (f @ r) = Some (f, r))"
proof (cases "\<exists>u. s = CHR ''.'' # u")
  case True
  then obtain u d where "s = CHR ''.'' # u" "jdigits1 u = Some (d, q)" "f = CHR ''.'' # d"
    using assms by (auto simp: jfrac_part_def)
  then show ?thesis using jdigits1_split [of u d q] by (simp add: jfrac_part_def)
next
  case False
  have e: "jfrac_part z = Some ([], z)" if "\<nexists>u. z = CHR ''.'' # u" for z
    using that by (auto simp: jfrac_part_def split: list.splits char.splits bool.splits)
  have "f = []" "q = s" using assms e [OF False] by simp_all
  moreover have "jfrac_part r = Some ([], r)" if "r = [] \<or> hd r \<noteq> CHR ''.''" for r
    by (rule e) (use that in auto)
  ultimately show ?thesis by simp
qed

lemma jexp_split:
  assumes "jexp_part s = Some (e, q)"
  shows "s = e @ q \<and> (e = [] \<or> (\<exists>c d. e = c # d \<and> (c = CHR ''e'' \<or> c = CHR ''E'')
         \<and> (\<forall>x \<in> set d. is_digit x \<or> x = CHR ''-'' \<or> x = CHR ''+'')))
     \<and> (\<forall>r. stops r \<and> (e = [] \<longrightarrow> r = [] \<or> hd r \<noteq> CHR ''e'' \<and> hd r \<noteq> CHR ''E'') \<longrightarrow> jexp_part (e @ r) = Some (e, r))"
proof (cases "\<exists>c u. s = c # u \<and> (c = CHR ''e'' \<or> c = CHR ''E'')")
  case True
  then obtain c u where s: "s = c # u" "c = CHR ''e'' \<or> c = CHR ''E''" by blast
  obtain g u1 where u: "u = g # u1" using assms s by (cases u) (auto simp: jexp_part_def)
  show ?thesis
  proof (cases "g = CHR ''-'' \<or> g = CHR ''+''")
    case True
    then obtain d where "jdigits1 u1 = Some (d, q)" "e = c # g # d" using assms s u by (auto simp: jexp_part_def)
    then show ?thesis using jdigits1_split [of u1 d q] s u True by (simp add: jexp_part_def list_all_iff)
  next
    case False
    then obtain d where d: "jdigits1 u = Some (d, q)" "e = c # d" using assms s u by (auto simp: jexp_part_def)
    note k = jdigits1_split [OF d(1)]
    then obtain d0 d1 where "d = d0 # d1" "is_digit d0" by (cases d) auto
    then show ?thesis using k s d(2) by (auto simp: jexp_part_def list_all_iff is_digit_def)
  qed
next
  case False
  have e: "jexp_part z = Some ([], z)" if "\<nexists>c u. z = c # u \<and> (c = CHR ''e'' \<or> c = CHR ''E'')" for z
    using that by (auto simp: jexp_part_def split: list.splits)
  have "e = []" "q = s" using assms e [OF False] by simp_all
  moreover have "jexp_part r = Some ([], r)" if "r = [] \<or> hd r \<noteq> CHR ''e'' \<and> hd r \<noteq> CHR ''E''" for r
    by (rule e) (use that in auto)
  ultimately show ?thesis by simp
qed

definition num_char :: "char \<Rightarrow> bool" where
  "num_char c \<longleftrightarrow> is_digit c \<or> c \<in> {CHR ''-'', CHR ''+'', CHR ''.'', CHR ''e'', CHR ''E''}"

lemma jnumber_split:
  assumes "jnumber s = Some (t, q)"
  shows "s = t @ q \<and> (\<exists>c u. t = c # u \<and> (is_digit c \<or> c = CHR ''-'')) \<and> (\<forall>c \<in> set t. num_char c)
     \<and> (\<forall>r. delimited r \<longrightarrow> jnumber (t @ r) = Some (t, r))"
proof -
  define sign where "sign = (\<lambda>z :: string. case z of CHR ''-'' # r \<Rightarrow> (''-'', r) | _ \<Rightarrow> ([], z))"
  have sg: "sign z = (if z \<noteq> [] \<and> hd z = CHR ''-'' then (''-'', tl z) else ([], z))" for z
    by (auto simp: sign_def split: list.splits char.splits bool.splits)
  have jn: "jnumber z = (case sign z of (g, s1) \<Rightarrow> case jint_part s1 of None \<Rightarrow> None
      | Some (i, s2) \<Rightarrow> (case jfrac_part s2 of None \<Rightarrow> None
         | Some (f, s3) \<Rightarrow> (case jexp_part s3 of None \<Rightarrow> None | Some (e, s4) \<Rightarrow> Some (g @ i @ f @ e, s4))))" for z
    by (simp add: jnumber_def sign_def Let_def)
  obtain g s1 where g: "sign s = (g, s1)" by (cases "sign s")
  obtain i s2 f s3 e where p: "jint_part s1 = Some (i, s2)" "jfrac_part s2 = Some (f, s3)" "jexp_part s3 = Some (e, q)" "t = g @ i @ f @ e"
    using assms unfolding jn g prod.case by (auto split: option.splits)
  note i = jint_split [OF p(1)] and f = jfrac_split [OF p(2)] and e = jexp_split [OF p(3)]
  have gs: "s = g @ s1" "g = [] \<or> g = ''-''" using g by (cases s; auto simp: sg split: if_splits)+
  obtain i0 i1 where i0: "i = i0 # i1" "is_digit i0" using i by (cases i) auto
  have "jnumber (t @ r) = Some (t, r)" if r: "delimited r" for r
  proof -
    have st: "stops r \<and> (r = [] \<or> hd r \<noteq> CHR ''.'' \<and> hd r \<noteq> CHR ''e'' \<and> hd r \<noteq> CHR ''E'')"
      using r by (auto simp: delimited_def stops_def is_digit_def)
    have no_digit: "\<not> is_digit (CHR ''e'')" "\<not> is_digit (CHR ''E'')" "\<not> is_digit (CHR ''.'')"
      by (simp_all add: is_digit_def)
    have es: "stops (e @ r) \<and> (e @ r = [] \<or> hd (e @ r) \<noteq> CHR ''.'')"
    proof -
      have "e = [] \<or> (\<exists>c d. e = c # d \<and> (c = CHR ''e'' \<or> c = CHR ''E''))" using e by blast
      then show ?thesis using st by (elim disjE exE conjE) (simp_all add: stops_def no_digit)
    qed
    have "f = [] \<or> (\<exists>d. f = CHR ''.'' # d)" using f by blast
    then have fs: "stops (f @ e @ r)" using es by (elim disjE exE) (simp_all add: stops_def no_digit)
    have "sign (t @ r) = (g, i @ f @ e @ r)" using gs(2) i0 by (auto simp: sg p(4) is_digit_def)
    moreover have "jint_part (i @ f @ e @ r) = Some (i, f @ e @ r)" using i fs by blast
    moreover have "jfrac_part (f @ e @ r) = Some (f, e @ r)" using f es by blast
    moreover have "jexp_part (e @ r) = Some (e, r)" using e st by blast
    ultimately show ?thesis by (simp add: jn p(4))
  qed
  moreover have "\<forall>c \<in> set t. num_char c"
    using gs(2) i f e by (auto simp: p(4) num_char_def list_all_iff)
  moreover have "\<exists>c u. t = c # u \<and> (is_digit c \<or> c = CHR ''-'')" using gs(2) i0 by (auto simp: p(4))
  ultimately show ?thesis using gs(1) i f e p(4) by simp
qed

section \<open>Compaction\<close>

text \<open>\<open>p\<close> is compacted to \<open>t\<close> whatever follows, and \<open>t\<close> stays as it is.\<close>

definition compacts :: "string \<Rightarrow> string \<Rightarrow> bool" where
  "compacts p t \<longleftrightarrow> (\<forall>x. json_compact (p @ x) = t @ json_compact x) \<and> (\<forall>x. json_compact (t @ x) = t @ json_compact x)"

lemma compacts_append: "compacts p t \<Longrightarrow> compacts q u \<Longrightarrow> compacts (p @ q) (t @ u)"
  by (simp add: compacts_def)

lemma compacts_Nil: "compacts [] []"
  by (simp add: compacts_def)

lemma compacts_plain:
  assumes "\<forall>c \<in> set p. c \<noteq> quote_char \<and> \<not> jspace c \<and> \<not> special c"
  shows "compacts p p"
proof -
  have "strip_spaces False (p @ x) = p @ strip_spaces False x" for x using assms by (induction p) auto
  then have "json_compact (p @ x) = p @ json_compact x" for x
    using html_escape_keep [of p "strip_spaces False x"] assms by (simp add: json_compact_def)
  then show ?thesis by (simp add: compacts_def)
qed

lemma strip_jskip: "strip_spaces False (jskip s) = strip_spaces False s"
proof (induction s)
  case (Cons c s)
  then show ?case by (auto simp: jskip_def jspace_def)
qed (simp add: jskip_def)

lemma jskip_split: "\<exists>w. s = w @ jskip s \<and> compacts w []"
proof -
  have "strip_spaces False (w @ x) = strip_spaces False x" if "list_all jspace w" for w x
    using that by (induction w) (auto simp: jspace_def)
  then have "compacts w []" if "list_all jspace w" for w using that by (simp add: compacts_def json_compact_def)
  moreover have "list_all jspace (takeWhile jspace s)" by (auto simp: list_all_iff dest: set_takeWhileD)
  ultimately show ?thesis by (intro exI [of _ "takeWhile jspace s"]) (simp add: jskip_def)
qed

lemma compacts_skip:
  assumes "jskip s = p @ r" "compacts p t"
  shows "\<exists>p'. s = p' @ r \<and> compacts p' t"
proof -
  obtain w where "s = w @ jskip s" "compacts w []" using jskip_split by blast
  then show ?thesis using assms compacts_append [of w "[]" p t] by (intro exI [of _ "w @ p"]) simp
qed

lemma compacts_string:
  assumes "str_ok p s"
  shows "compacts (quote_char # p @ [quote_char]) (quote_char # html_escape p @ [quote_char])"
proof -
  have q: "\<not> special quote_char" "byte quote_char < 128" by (simp_all add: special_def)
  have h: "html_escape (quote_char # z) = quote_char # html_escape z" for z
    by (rule html_escape_plain) (simp add: html_plain_def)
  show ?thesis using assms
    by (simp add: compacts_def str_ok_def json_compact_def h html_escape_append [OF q])
qed

definition text_of :: "string \<Rightarrow> string \<Rightarrow> json \<Rightarrow> bool" where
  "text_of p t v \<longleftrightarrow> compacts p t \<and> reads t v"

lemma punctuation: "c \<in> {CHR '','', CHR ''['', CHR '']'', CHR ''{'', CHR ''}'', CHR '':''} \<Longrightarrow> compacts [c] [c]"
  by (rule compacts_plain) (auto simp: jspace_def special_def)

lemma num_char_plain: "num_char c \<Longrightarrow> c \<noteq> quote_char \<and> \<not> jspace c \<and> \<not> special c"
  by (auto simp: num_char_def is_digit_def jspace_def special_def)

lemma literal_split:
  assumes "HasPrefix s t" "length t = Suc n" "s = c # r"
  shows "s = t @ drop n r"
proof -
  obtain z where z: "s = t @ z" using assms(1) by (auto simp: HasPrefix_iff)
  obtain u where "t = c # u" using assms z by (cases t) auto
  then show ?thesis using assms(2,3) z by auto
qed

lemma jvalue_literal:
  assumes "jskip s = t @ q" "t \<in> {''null'', ''true'', ''false''}" "reads t v"
  shows "\<exists>p. s = p @ q \<and> text_of p t v"
proof -
  have "\<forall>c \<in> set t. c \<noteq> quote_char \<and> \<not> jspace c \<and> \<not> special c"
    using assms(2) by (auto simp: jspace_def special_def)
  then show ?thesis using compacts_skip [OF assms(1) compacts_plain] assms(3) by (auto simp: text_of_def)
qed

section \<open>Values\<close>

definition value_ok :: "nat \<Rightarrow> bool" where
  "value_ok n \<longleftrightarrow> (\<forall>s v q. jvalue n s = Some (v, q) \<longrightarrow> (\<exists>p t. s = p @ q \<and> text_of p t v))"

lemma value_okD: "value_ok n \<Longrightarrow> jvalue n s = Some (v, q) \<Longrightarrow> \<exists>p t. s = p @ q \<and> compacts p t \<and> reads t v"
  unfolding value_ok_def text_of_def by blast

definition elems_ok :: "nat \<Rightarrow> bool" where
  "elems_ok n \<longleftrightarrow> (\<forall>s vs q. jelems n s = Some (vs, q) \<longrightarrow>
     (\<exists>p tvs. s = p @ q \<and> vs = map snd tvs \<and> compacts p (Join (map fst tvs) '','' @ '']'') \<and> tvs \<noteq> []
        \<and> (\<forall>(t, v) \<in> set tvs. reads t v)))"

definition members_ok :: "nat \<Rightarrow> bool" where
  "members_ok n \<longleftrightarrow> (\<forall>s ms q. jmembers n s = Some (ms, q) \<longrightarrow>
     (\<exists>p mks. s = p @ q \<and> ms = map snd mks \<and> compacts p (Join (map fst mks) '','' @ ''}'') \<and> mks \<noteq> []
        \<and> (\<forall>(m, kv) \<in> set mks. reads_member m kv)))"

lemma compacts_mark:
  assumes "jskip r = c # q" "c \<in> {CHR '','', CHR ''['', CHR '']'', CHR ''{'', CHR ''}'', CHR '':''}"
  shows "\<exists>p. r = p @ q \<and> compacts p [c]"
  using compacts_skip [of r "[c]" q "[c]"] punctuation [OF assms(2)] assms(1) by auto

lemma elems_step:
  assumes "value_ok n" "elems_ok n"
  shows "elems_ok (Suc n)"
  unfolding elems_ok_def
proof (intro allI impI)
  fix s vs q
  assume e: "jelems (Suc n) s = Some (vs, q)"
  obtain v r where v: "jvalue n s = Some (v, r)" using e by (auto simp: jelems.simps split: option.splits)
  obtain p t where p: "s = p @ r" "compacts p t" "reads t v" using value_okD [OF assms(1) v] by blast
  consider (comma) q' vs' where "jskip r = CHR '','' # q'" "jelems n q' = Some (vs', q)" "vs = v # vs'"
    | (close) "jskip r = CHR '']'' # q" "vs = [v]"
    using e v by (auto simp: jelems.simps split: list.splits char.splits bool.splits)
  then show "\<exists>p tvs. s = p @ q \<and> vs = map snd tvs \<and> compacts p (Join (map fst tvs) '','' @ '']'') \<and> tvs \<noteq> []
      \<and> (\<forall>(t, v) \<in> set tvs. reads t v)"
  proof cases
    case comma
    obtain p1 where p1: "r = p1 @ q'" "compacts p1 '',''" using compacts_mark [OF comma(1)] by auto
    obtain p2 tvs where p2: "q' = p2 @ q" "vs' = map snd tvs" "compacts p2 (Join (map fst tvs) '','' @ '']'')" "tvs \<noteq> []"
      "\<forall>(t, v) \<in> set tvs. reads t v" using assms(2) comma(2) unfolding elems_ok_def by blast
    have "compacts (p @ p1 @ p2) (t @ '','' @ Join (map fst tvs) '','' @ '']'')"
      by (intro compacts_append p(2) p1(2) p2(3))
    then show ?thesis using p(1,3) p1(1) p2 comma(3)
      by (intro exI [of _ "p @ p1 @ p2"] exI [of _ "(t, v) # tvs"]) (simp add: Join_Cons)
  next
    case close
    obtain p1 where p1: "r = p1 @ q" "compacts p1 '']''" using compacts_mark [OF close(1)] by auto
    have "compacts (p @ p1) (t @ '']'')" by (intro compacts_append p(2) p1(2))
    then show ?thesis using p(1,3) p1(1) close(2)
      by (intro exI [of _ "p @ p1"] exI [of _ "[(t, v)]"]) simp
  qed
qed

lemma string_text:
  assumes "jskip s = quote_char # r" "jstring r = Some (k, q)"
  shows "\<exists>p t. s = p @ q \<and> compacts p (quote_char # t) \<and> (\<forall>z. jstring (t @ z) = Some (k, z))"
proof -
  obtain p where p: "r = p @ quote_char # q" "str_ok p k" using jstring_raw [OF assms(2)] by blast
  then have "jskip s = (quote_char # p @ [quote_char]) @ q" using assms(1) by simp
  then obtain p' where "s = p' @ q" "compacts p' (quote_char # html_escape p @ [quote_char])"
    using compacts_skip compacts_string [OF p(2)] by blast
  moreover have "jstring ((html_escape p @ [quote_char]) @ z) = Some (k, z)" for z
    using p(2) by (simp add: str_ok_def)
  ultimately show ?thesis by blast
qed

lemma members_step:
  assumes "value_ok n" "members_ok n"
  shows "members_ok (Suc n)"
  unfolding members_ok_def
proof (intro allI impI)
  fix s ms q
  assume e: "jmembers (Suc n) s = Some (ms, q)"
  obtain r0 where r0: "jskip s = quote_char # r0" using e by (auto simp: jmembers.simps split: list.splits if_splits)
  obtain k r1 where k: "jstring r0 = Some (k, r1)" using e r0 by (auto simp: jmembers.simps split: option.splits)
  obtain r2 where r2: "jskip r1 = CHR '':'' # r2"
    using e r0 k by (auto simp: jmembers.simps split: list.splits char.splits bool.splits)
  obtain v r3 where v: "jvalue n r2 = Some (v, r3)" using e r0 k r2 by (auto simp: jmembers.simps split: option.splits)
  obtain p0 t0 where p0: "s = p0 @ r1" "compacts p0 (quote_char # t0)" "\<forall>z. jstring (t0 @ z) = Some (k, z)"
    using string_text [OF r0 k] by blast
  obtain p1 where p1: "r1 = p1 @ r2" "compacts p1 '':''" using compacts_mark [OF r2] by auto
  obtain p t where p: "r2 = p @ r3" "compacts p t" "reads t v" using value_okD [OF assms(1) v] by blast
  let ?m = "(quote_char # t0) @ '':'' @ t"
  have m: "reads_member ?m (k, v)" using p0(3) p(3) by (auto simp: reads_member_def)
  have c: "compacts (p0 @ p1 @ p) ?m" by (intro compacts_append p0(2) p1(2) p(2))
  consider (comma) q' ms' where "jskip r3 = CHR '','' # q'" "jmembers n q' = Some (ms', q)" "ms = (k, v) # ms'"
    | (close) "jskip r3 = CHR ''}'' # q" "ms = [(k, v)]"
    using e r0 k r2 v by (auto simp: jmembers.simps split: list.splits char.splits bool.splits)
  then show "\<exists>p mks. s = p @ q \<and> ms = map snd mks \<and> compacts p (Join (map fst mks) '','' @ ''}'') \<and> mks \<noteq> []
      \<and> (\<forall>(m, kv) \<in> set mks. reads_member m kv)"
  proof cases
    case comma
    obtain p3 where p3: "r3 = p3 @ q'" "compacts p3 '',''" using compacts_mark [OF comma(1)] by auto
    obtain p4 mks where p4: "q' = p4 @ q" "ms' = map snd mks" "compacts p4 (Join (map fst mks) '','' @ ''}'')" "mks \<noteq> []"
      "\<forall>(m, kv) \<in> set mks. reads_member m kv" using assms(2) comma(2) unfolding members_ok_def by blast
    have "compacts ((p0 @ p1 @ p) @ p3 @ p4) (?m @ '','' @ Join (map fst mks) '','' @ ''}'')"
      by (intro compacts_append c p3(2) p4(3))
    then show ?thesis using p0(1) p1(1) p(1) p3(1) p4 m comma(3)
      by (intro exI [of _ "(p0 @ p1 @ p) @ p3 @ p4"] exI [of _ "(?m, k, v) # mks"]) (simp add: Join_Cons)
  next
    case close
    obtain p3 where p3: "r3 = p3 @ q" "compacts p3 ''}''" using compacts_mark [OF close(1)] by auto
    have "compacts ((p0 @ p1 @ p) @ p3) (?m @ ''}'')" by (intro compacts_append c p3(2))
    then show ?thesis using p0(1) p1(1) p(1) p3(1) m close(2)
      by (intro exI [of _ "(p0 @ p1 @ p) @ p3"] exI [of _ "[(?m, k, v)]"]) simp
  qed
qed

lemma jvalue_scalar:
  assumes "jvalue (Suc n) s = Some (v, q)" "jskip s = c # r" "c \<noteq> CHR ''{''" "c \<noteq> CHR ''[''"
  obtains (str) k where "c = quote_char" "jstring r = Some (k, q)" "v = JStr k"
    | (lit) t where "c # r = t @ q" "t \<in> {''null'', ''true'', ''false''}" "reads t v"
    | (num) t where "jnumber (c # r) = Some (t, q)" "v = JNum t"
proof -
  note e = assms(1) [unfolded jvalue.simps assms(2) list.case if_not_P [OF assms(3)] if_not_P [OF assms(4)]]
  consider "c = quote_char" "map_option (\<lambda>(t, q). (JStr t, q)) (jstring r) = Some (v, q)"
    | "HasPrefix (c # r) ''null''" "Some (JNull, drop 3 r) = Some (v, q)"
    | "HasPrefix (c # r) ''true''" "Some (JBool True, drop 3 r) = Some (v, q)"
    | "HasPrefix (c # r) ''false''" "Some (JBool False, drop 4 r) = Some (v, q)"
    | "map_option (\<lambda>(t, q). (JNum t, q)) (jnumber (c # r)) = Some (v, q)"
    using e by (simp only: if_split_eq1) blast
  then show thesis
  proof cases
    case 1
    then show thesis by (auto intro: str)
  next
    case 2
    then show thesis using literal_split [OF 2(1), of 3 c r] reads_literals by (intro lit [of "''null''"]) simp_all
  next
    case 3
    then show thesis using literal_split [OF 3(1), of 3 c r] reads_literals by (intro lit [of "''true''"]) simp_all
  next
    case 4
    then show thesis using literal_split [OF 4(1), of 4 c r] reads_literals by (intro lit [of "''false''"]) simp_all
  next
    case 5
    then show thesis by (auto intro: num)
  qed
qed

lemma jvalue_cases:
  assumes "jvalue (Suc n) s = Some (v, q)"
  obtains (obj0) r where "jskip s = CHR ''{'' # r" "jskip r = CHR ''}'' # q" "v = JObj []"
    | (obj) r ms where "jskip s = CHR ''{'' # r" "jmembers n r = Some (ms, q)" "v = JObj ms"
    | (arr0) r where "jskip s = CHR ''['' # r" "jskip r = CHR '']'' # q" "v = JArr []"
    | (arr) r vs where "jskip s = CHR ''['' # r" "jelems n r = Some (vs, q)" "v = JArr vs"
    | (str) r k where "jskip s = quote_char # r" "jstring r = Some (k, q)" "v = JStr k"
    | (lit) t where "jskip s = t @ q" "t \<in> {''null'', ''true'', ''false''}" "reads t v"
    | (num) t where "jnumber (jskip s) = Some (t, q)" "v = JNum t"
proof -
  obtain c r where c: "jskip s = c # r" using assms by (auto simp: jvalue.simps split: list.splits)
  note e = assms [unfolded jvalue.simps c list.case]
  show thesis
  proof (cases "c = CHR ''{''")
    case True
    show thesis
    proof (cases "\<exists>u. jskip r = CHR ''}'' # u")
      case T: True
      then show thesis using e True c by (intro obj0 [of r]) auto
    next
      case False
      then have "map_option (\<lambda>(ms, q). (JObj ms, q)) (jmembers n r) = Some (v, q)"
        using e True by (auto split: list.splits char.splits bool.splits)
      then show thesis using c True by (auto intro: obj)
    qed
  next
    case no_obj: False
    show thesis
    proof (cases "c = CHR ''[''")
      case True
      show thesis
      proof (cases "\<exists>u. jskip r = CHR '']'' # u")
        case T: True
        then show thesis using e True c by (intro arr0 [of r]) auto
      next
        case False
        then have "map_option (\<lambda>(vs, q). (JArr vs, q)) (jelems n r) = Some (v, q)"
          using e True by (auto split: list.splits char.splits bool.splits)
        then show thesis using c True by (auto intro: arr)
      qed
    next
      case False
      from assms c no_obj False show thesis
        by (cases rule: jvalue_scalar) (use c in \<open>auto intro: str lit num\<close>)
    qed
  qed
qed

lemma bracketed:
  assumes "jskip s = c # r" "c \<in> {CHR ''['', CHR ''{''}" "r = p @ q" "compacts p t" "reads (c # t) v"
  shows "\<exists>p t. s = p @ q \<and> text_of p t v"
proof -
  obtain p0 where p0: "s = p0 @ r" "compacts p0 [c]" using compacts_mark [OF assms(1)] assms(2) by auto
  have "compacts (p0 @ p) ([c] @ t)" by (intro compacts_append p0(2) assms(4))
  then show ?thesis using p0(1) assms(3,5) by (intro exI [of _ "p0 @ p"] exI [of _ "c # t"]) (simp add: text_of_def)
qed

lemma value_step:
  assumes "elems_ok n" "members_ok n"
  shows "value_ok (Suc n)"
  unfolding value_ok_def
proof (intro allI impI)
  fix s v q
  assume "jvalue (Suc n) s = Some (v, q)"
  then show "\<exists>p t. s = p @ q \<and> text_of p t v"
  proof (cases rule: jvalue_cases)
    case (obj0 r)
    obtain p where "r = p @ q" "compacts p ''}''" using compacts_mark [OF obj0(2)] by auto
    then show ?thesis using bracketed [OF obj0(1)] reads_obj [of "[]"] obj0(3) by simp
  next
    case (obj r ms)
    obtain p mks where p: "r = p @ q" "ms = map snd mks" "compacts p (Join (map fst mks) '','' @ ''}'')"
      "\<forall>(m, kv) \<in> set mks. reads_member m kv" using assms(2) obj(2) unfolding members_ok_def by blast
    have "reads (''{'' @ Join (map fst mks) '','' @ ''}'') v" unfolding obj(3) p(2) by (rule reads_obj) (use p(4) in blast)
    then show ?thesis using bracketed [OF obj(1) _ p(1) p(3)] by simp
  next
    case (arr0 r)
    obtain p where "r = p @ q" "compacts p '']''" using compacts_mark [OF arr0(2)] by auto
    then show ?thesis using bracketed [OF arr0(1)] reads_arr [of "[]"] arr0(3) by simp
  next
    case (arr r vs)
    obtain p tvs where p: "r = p @ q" "vs = map snd tvs" "compacts p (Join (map fst tvs) '','' @ '']'')"
      "\<forall>(t, v) \<in> set tvs. reads t v" using assms(1) arr(2) unfolding elems_ok_def by blast
    have "reads (''['' @ Join (map fst tvs) '','' @ '']'') v" unfolding arr(3) p(2) by (rule reads_arr) (use p(4) in blast)
    then show ?thesis using bracketed [OF arr(1) _ p(1) p(3)] by simp
  next
    case (str r k)
    obtain p t where p: "s = p @ q" "compacts p (quote_char # t)" "\<forall>z. jstring (t @ z) = Some (k, z)"
      using string_text [OF str(1,2)] by blast
    have "reads (quote_char # t) v" unfolding str(3) by (rule reads_str) (use p(3) in blast)
    then show ?thesis using p by (auto simp: text_of_def)
  next
    case (lit t)
    then show ?thesis using jvalue_literal by blast
  next
    case (num t)
    note k = jnumber_split [OF num(1)]
    then have "compacts t t" using num_char_plain by (intro compacts_plain) blast
    moreover have "jskip s = t @ q" using k by blast
    ultimately obtain p where p: "s = p @ q" "compacts p t" using compacts_skip by blast
    obtain c u where c: "t = c # u" "is_digit c \<or> c = CHR ''-''" using k by blast
    have "reads t v" unfolding num(2) by (rule reads_num [OF c]) (use k in blast)
    then show ?thesis using p by (auto simp: text_of_def)
  qed
qed

lemma all_texts: "value_ok n \<and> elems_ok n \<and> members_ok n"
proof (induction n)
  case 0
  show ?case by (simp add: value_ok_def elems_ok_def members_ok_def jvalue.simps jelems.simps jmembers.simps)
next
  case (Suc n)
  then show ?case by (simp add: value_step elems_step members_step)
qed

text \<open>
  A valid text and its compact form stand for the same value, and the compact form can be followed
  by anything that can follow a value.
\<close>

lemma compact_text:
  assumes "json_parse b = Some v"
  shows "reads (json_compact b) v \<and> json_compact (json_compact b) = json_compact b"
proof -
  obtain r where r: "jvalue (json_fuel b) b = Some (v, r)" "jskip r = []"
    using assms by (auto simp: json_parse_def split: option.splits if_splits)
  obtain p t where p: "b = p @ r" "compacts p t" "reads t v"
    using value_okD [OF conjunct1 [OF all_texts] r(1)] by blast
  have "json_compact r = []" using strip_jskip [of r] r(2) by (simp add: json_compact_def)
  then have "json_compact b = t" using p(1,2) by (simp add: compacts_def)
  moreover have "json_compact t = t" using p(2) by (auto simp: compacts_def json_compact_def dest: spec [of _ "[]"])
  ultimately show ?thesis using p(3) by simp
qed

lemma compact_reads: "json_parse b = Some v \<Longrightarrow> reads (json_compact b) v"
  using compact_text by blast

lemma compact_parse: "json_parse b = Some v \<Longrightarrow> json_parse (json_compact b) = Some v"
  using compact_reads json_parse_reads by blast

lemma compact_compact: "json_valid b \<Longrightarrow> json_compact (json_compact b) = json_compact b"
  using compact_text by (auto simp: json_valid_def)

text \<open>What the programs print is compact already.\<close>

lemma compacts_quote: "compacts (json_quote s) (json_quote s)"
proof -
  let ?p = "html_escape (concat (map quote_byte s))"
  have q: "json_quote s = quote_char # ?p @ [quote_char]" by (simp add: json_quote_def)
  have "jstring (tl (json_quote s) @ []) = Some (s, [])" by (rule jstring_quote)
  then obtain p where p: "tl (json_quote s) @ [] = p @ quote_char # []" "str_ok p s" using jstring_raw by blast
  then have "p = ?p" by (simp add: q)
  then show ?thesis using compacts_string [OF p(2)] by (simp add: q)
qed

lemma compacts_Join:
  assumes "\<And>t. t \<in> set ts \<Longrightarrow> compacts t t"
  shows "compacts (Join ts '','') (Join ts '','')"
  using assms
proof (induction ts)
  case Nil
  then show ?case by (simp add: compacts_Nil)
next
  case (Cons t ts)
  then have t: "compacts t t" "compacts (Join ts '','') (Join ts '','')" by simp_all
  have c: "compacts '','' '',''" by (rule punctuation) simp
  show ?case
  proof (cases "ts = []")
    case False
    have "compacts (t @ '','' @ Join ts '','') (t @ '','' @ Join ts '','')" by (intro compacts_append t c)
    then show ?thesis by (simp add: Join_Cons False)
  qed (use t in simp)
qed

lemma compacts_print: "json_ints v \<Longrightarrow> compacts (json_print v) (json_print v)"
proof (induction v)
  case JNull
  show ?case by (rule compacts_plain) (auto simp: jspace_def special_def)
next
  case (JBool b)
  show ?case by (rule compacts_plain) (auto simp: jspace_def special_def)
next
  case (JNum s)
  then obtain i where s: "s = Itoa i" by auto
  have "\<forall>c \<in> set (nat_digits n). is_digit c" for n using nat_digits_all [of n] by (simp add: list_all_iff)
  then have "\<forall>c \<in> set s. num_char c" unfolding s by (auto simp: Itoa_def num_char_def)
  then show ?case using num_char_plain by (simp add: compacts_plain)
next
  case (JStr s)
  show ?case by (simp add: compacts_quote)
next
  case (JArr vs)
  have "compacts (Join (map json_print vs) '','') (Join (map json_print vs) '','')"
    by (rule compacts_Join) (use JArr in auto)
  then have "compacts (''['' @ Join (map json_print vs) '','' @ '']'') (''['' @ Join (map json_print vs) '','' @ '']'')"
    by (intro compacts_append punctuation) simp_all
  then show ?case by simp
next
  case (JObj ms)
  let ?t = "\<lambda>m. json_quote (fst m) @ '':'' @ json_print (snd m)"
  have "compacts (?t m) (?t m)" if "m \<in> set ms" for m
  proof -
    have "compacts (json_print (snd m)) (json_print (snd m))" using JObj that by (cases m) force
    then show ?thesis by (intro compacts_append compacts_quote punctuation) simp_all
  qed
  then have "compacts (Join (map ?t ms) '','') (Join (map ?t ms) '','')" by (intro compacts_Join) auto
  then have "compacts (''{'' @ Join (map ?t ms) '','' @ ''}'') (''{'' @ Join (map ?t ms) '','' @ ''}'')"
    by (intro compacts_append punctuation) simp_all
  then show ?case by simp
qed

lemma compact_print: "json_ints v \<Longrightarrow> json_compact (json_print v) = json_print v"
  using compacts_print [of v] by (auto simp: compacts_def json_compact_def dest: spec [of _ "[]"])

end
