(* ===== verification/State_File.thy ===== *)
theory State_File
  imports Provider_Serve Json_Compact
begin

text \<open>
  \<open>provider-state.json\<close> across a restart: what \<open>saveProviderState\<close> writes and
  \<open>NewAgentHandler\<close> reads back stands for the same requests and responses, and saving it again
  changes nothing.
\<close>

lemma marshal_raw_compact: "marshal_raw r = Some t \<Longrightarrow> marshal_raw (Some t) = Some t"
proof (cases r)
  case None
  assume "marshal_raw r = Some t"
  then have "t = json_print JNull" using None by (simp add: marshal_raw_def)
  moreover have "json_parse (json_print JNull) = Some JNull" by (rule json_parse_print) simp
  moreover have "json_compact (json_print JNull) = json_print JNull" by (rule compact_print) simp
  ultimately show ?thesis by (simp only: marshal_raw_def option.case json_valid_def) simp
next
  case (Some b)
  assume "marshal_raw r = Some t"
  then have "json_valid b" "t = json_compact b" using Some by (auto simp: marshal_raw_def split: if_splits)
  moreover from this obtain v where "json_parse b = Some v" by (auto simp: json_valid_def)
  ultimately show ?thesis using compact_parse compact_compact by (simp add: marshal_raw_def json_valid_def)
qed

lemma marshal_raw_parse: "marshal_raw (Some b) = Some t \<Longrightarrow> json_parse t = json_parse b"
  using compact_parse by (auto simp: marshal_raw_def json_valid_def split: if_splits)

lemma need_of_marshalled: "marshal_raw r = Some t \<Longrightarrow> extractNeedID (Some t) = extractNeedID r"
proof (cases r)
  case None
  assume "marshal_raw r = Some t"
  moreover have "extractNeedID (Some ''null'') = extractNeedID None" by code_simp
  ultimately show ?thesis using None by (simp add: marshal_raw_def)
next
  case (Some b)
  assume "marshal_raw r = Some t"
  then have "json_parse t = json_parse b" using Some marshal_raw_parse by simp
  then show ?thesis using Some by (simp add: extractNeedID_def unmarshal_map_def unmarshal_iface_def raw_bytes_def)
qed

lemma marshal_raw_len: "marshal_raw r = Some t \<Longrightarrow> raw_len (Some t) \<noteq> 0"
proof
  assume m: "marshal_raw r = Some t" and "raw_len (Some t) = 0"
  then have "t = []" by (simp add: raw_len_def)
  moreover have "json_valid t" using marshal_raw_compact [OF m] by (simp add: marshal_raw_def split: if_splits)
  ultimately show False using json_invalid_empty by simp
qed

lemma stored_cases:
  assumes "stored_entry e = Some e'"
  obtains rq where "marshal_raw (Request e) = Some rq" "raw_len (Response e) = 0" "e' = e\<lparr>Request := Some rq, Response := None\<rparr>"
    | rq rs where "marshal_raw (Request e) = Some rq" "raw_len (Response e) \<noteq> 0" "marshal_raw (Response e) = Some rs"
        "e' = e\<lparr>Request := Some rq, Response := Some rs\<rparr>"
  using assms by (auto simp: stored_entry_def split: option.splits if_splits)

lemma stored_stored:
  assumes "stored_entry e = Some e'"
  shows "stored_entry e' = Some e'"
proof (cases rule: stored_cases [OF assms])
  case (1 rq)
  then show ?thesis using marshal_raw_compact [OF 1(1)] by (simp add: stored_entry_def raw_len_def)
next
  case (2 rq rs)
  then show ?thesis using marshal_raw_compact [OF 2(1)] marshal_raw_compact [OF 2(3)] marshal_raw_len [OF 2(3)]
    by (simp add: stored_entry_def)
qed

lemma map_values_stable:
  assumes "map_values f m = Some m'" "\<And>x y. f x = Some y \<Longrightarrow> f y = Some y"
  shows "map_values f m' = Some m'"
  using assms(1)
proof (induction m arbitrary: m')
  case (Cons x m)
  obtain a b where x: "x = (a, b)" by (cases x)
  from Cons.prems obtain v vs where v: "f b = Some v" "all_some (map (\<lambda>x. f (snd x)) m) = Some vs"
    and m': "m' = (a, v) # zip (map fst m) vs"
    by (cases "f b") (auto simp: map_values_def x)
  then have "map_values f (zip (map fst m) vs) = Some (zip (map fst m) vs)" using Cons.IH by (simp add: map_values_def)
  then show ?case using assms(2) [OF v(1)] by (auto simp: map_values_def m')
qed (simp add: map_values_def)

lemma marshal_stable: "marshalProviderState ps = Some data \<Longrightarrow> marshalProviderState data = Some data"
  unfolding marshalProviderState_def
  by (rule map_values_stable, assumption, rule map_values_stable, assumption, rule stored_stored)

lemma stored_kept:
  assumes "stored_entry e = Some e'"
  shows "UpdatedAt e' = UpdatedAt e \<and> (\<forall>origin. makeStateKey origin (Request e') = makeStateKey origin (Request e))
      \<and> (Request e \<noteq> None \<longrightarrow> json_parse (raw_bytes (Request e')) = json_parse (raw_bytes (Request e)))
      \<and> (raw_len (Response e') = 0 \<longleftrightarrow> raw_len (Response e) = 0)
      \<and> (Response e \<noteq> None \<longrightarrow> json_parse (raw_bytes (Response e')) = json_parse (raw_bytes (Response e)))"
proof (cases rule: stored_cases [OF assms])
  case (1 rq)
  then show ?thesis using need_of_marshalled [OF 1(1)] marshal_raw_parse
    by (cases "Request e"; cases "Response e") (auto simp: makeStateKey_def raw_len_def raw_bytes_def)
next
  case (2 rq rs)
  then show ?thesis using need_of_marshalled [OF 2(1)] marshal_raw_parse marshal_raw_len [OF 2(3)]
    by (cases "Request e"; cases "Response e") (auto simp: makeStateKey_def raw_bytes_def)
qed

lemma marshalled_entry:
  assumes "marshalProviderState ps = Some data" and "map_of (getProviderState ps c) k = Some e"
  shows "\<exists>e'. map_of (getProviderState data c) k = Some e' \<and> stored_entry e = Some e'"
proof -
  from assms(2) obtain m where m: "map_of ps c = Some m" "map_of m k = Some e"
    by (auto simp: getProviderState_def split: option.splits)
  have "stored_entry e \<noteq> None"
  proof
    assume "stored_entry e = None"
    then have "map_values stored_entry m = None" unfolding map_values_None using map_of_SomeD [OF m(2)] by blast
    then have "marshalProviderState ps = None"
      unfolding marshalProviderState_def map_values_None using map_of_SomeD [OF m(1)] by blast
    then show False using assms(1) by simp
  qed
  then show ?thesis using assms(2) marshal_entry [OF assms(1), of c k] by auto
qed

section \<open>Starting again\<close>

text \<open>The capabilities whose handler runs when the program starts.\<close>

definition initialised :: "CapabilityConfig gomap \<Rightarrow> string \<Rightarrow> bool" where
  "initialised caps c \<longleftrightarrow> list_ex (\<lambda>(n, cfg). n = c \<and> Initialize (Triggers cfg)) caps"

text \<open>The same entries with the same requests, and the same responses where no handler ran.\<close>

definition entries_kept :: "(string \<Rightarrow> bool) \<Rightarrow> ProviderState \<Rightarrow> ProviderState \<Rightarrow> bool" where
  "entries_kept rerun ps ps' \<longleftrightarrow> (\<forall>c k. rel_option (\<lambda>e e'. Request e' = Request e \<and> (rerun c \<or> e' = e))
     (map_of (getProviderState ps c) k) (map_of (getProviderState ps' c) k))"

lemma entries_kept_refl: "entries_kept rerun ps ps"
  by (auto simp: entries_kept_def option.rel_refl)

lemma entries_kept_trans:
  assumes "entries_kept rerun ps ps'" "entries_kept rerun ps' ps''"
  shows "entries_kept rerun ps ps''"
  unfolding entries_kept_def
proof (intro allI)
  fix c k
  show "rel_option (\<lambda>e e'. Request e' = Request e \<and> (rerun c \<or> e' = e))
      (map_of (getProviderState ps c) k) (map_of (getProviderState ps'' c) k)"
    using assms [unfolded entries_kept_def, rule_format, of c k] by (auto elim!: option.rel_cases)
qed

lemma entries_kept_process:
  assumes "gomap_ok out" "rerun cap"
  shows "entries_kept rerun ps (fst (process_responses t cap out ps))"
  unfolding entries_kept_def
proof (intro allI)
  fix c k
  have u: "rel_option (\<lambda>e e'. Request e' = Request e) x (updated_entry n r x)" for n r x
    by (cases x) (auto simp: updated_entry_def)
  show "rel_option (\<lambda>e e'. Request e' = Request e \<and> (rerun c \<or> e' = e))
      (map_of (getProviderState ps c) k) (map_of (getProviderState (fst (process_responses t cap out ps)) c) k)"
  proof (cases "c = cap")
    case True
    then show ?thesis using assms(2) u
      by (auto simp: process_responses_entry [OF assms(1)] option.rel_refl split: option.splits)
  qed (simp add: process_responses_other option.rel_refl)
qed

lemma initializeCapability_kept:
  assumes "initialised caps (fst x) \<or> \<not> Initialize (Triggers (snd x))"
  shows "entries_kept (initialised caps) (providerState (fst acc)) (providerState (fst (initializeCapability env x acc)))"
proof -
  have s: "providerState (snd (saveProviderState env a)) = providerState a" for a
    by (simp add: saveProviderState_def split: option.splits)
  obtain n cfg where x: "x = (n, cfg)" by (cases x)
  obtain a sent where acc: "acc = (a, sent)" by (cases acc)
  have "providerState (fst (initializeCapability env x acc)) = providerState a
    \<or> Initialize (Triggers cfg) \<and> (\<exists>out. gomap_ok out
        \<and> providerState (fst (initializeCapability env x acc)) = fst (process_responses (UpdateTime env) n out (providerState a)))"
    by (auto simp: initializeCapability_def x acc Let_def s split: option.splits ExecResult.splits dest!: parseHandlerOutput_ok)
  then show ?thesis
    using assms entries_kept_process [of _ "initialised caps" n "providerState a" "UpdateTime env"]
    by (auto simp: x acc entries_kept_refl)
qed

lemma initializeCapabilities_kept:
  "entries_kept (initialised (capabilities a)) (providerState a) (providerState (fst (initializeCapabilities env a)))"
proof -
  have "entries_kept (initialised caps) (providerState (fst acc)) (providerState (fst (fold (initializeCapability env) cs acc)))"
    if "set cs \<subseteq> set caps" for caps cs acc
    using that
  proof (induction cs arbitrary: acc)
    case (Cons x cs)
    have "initialised caps (fst x) \<or> \<not> Initialize (Triggers (snd x))"
      using Cons.prems by (auto simp: initialised_def list_ex_iff)
    then have "entries_kept (initialised caps) (providerState (fst acc)) (providerState (fst (initializeCapability env x acc)))"
      by (rule initializeCapability_kept)
    then show ?case using Cons entries_kept_trans by (simp only: fold_simps set_simps) blast
  qed (simp add: entries_kept_refl)
  from this [of "capabilities a" "capabilities a" "(a, [])"] show ?thesis by (simp add: initializeCapabilities_def)
qed

lemma initializeCapabilities_idle:
  assumes "\<not> list_ex (\<lambda>(n, cfg). Initialize (Triggers cfg)) (capabilities a)"
  shows "initializeCapabilities env a = (a, [])"
proof -
  have "fold (initializeCapability env) cs (a, []) = (a, [])" if "\<not> list_ex (\<lambda>(n, cfg). Initialize (Triggers cfg)) cs" for cs
    using that by (induction cs) (auto simp: initializeCapability_def Let_def)
  then show ?thesis using assms by (simp add: initializeCapabilities_def)
qed

text \<open>
  What one entry is after a restart, with or without a run of its handler: filed under the same key,
  with a request of the same value; and, where no handler ran, the same time and a response of the
  same value.
\<close>

definition entry_survives :: "bool \<Rightarrow> ProviderStateEntry \<Rightarrow> ProviderStateEntry \<Rightarrow> bool" where
  "entry_survives rerun e e' \<longleftrightarrow>
     (\<forall>origin. makeStateKey origin (Request e') = makeStateKey origin (Request e))
     \<and> (Request e = None \<or> json_parse (raw_bytes (Request e')) = json_parse (raw_bytes (Request e)))
     \<and> (rerun \<or> UpdatedAt e' = UpdatedAt e \<and> (raw_len (Response e') = 0 \<longleftrightarrow> raw_len (Response e) = 0)
          \<and> (Response e = None \<or> json_parse (raw_bytes (Response e')) = json_parse (raw_bytes (Response e))))"

lemma stored_survives: "stored_entry e = Some e' \<Longrightarrow> entry_survives rerun e e'"
  using stored_kept unfolding entry_survives_def by blast

lemma survives_run:
  "entry_survives rerun e e' \<Longrightarrow> Request e'' = Request e' \<Longrightarrow> rerun \<or> e'' = e' \<Longrightarrow> entry_survives rerun e e''"
  by (auto simp: entry_survives_def)

lemma started_kept:
  assumes "marshalProviderState ps = Some data" "entries_kept rerun data ps'"
  shows "rel_option (entry_survives (rerun c)) (map_of (getProviderState ps c) k) (map_of (getProviderState ps' c) k)"
proof (cases "map_of (getProviderState ps c) k")
  case None
  then have "map_of (getProviderState data c) k = None" using marshal_entry [OF assms(1), of c k] by simp
  then show ?thesis using assms(2) [unfolded entries_kept_def, rule_format, of c k] None by simp
next
  case (Some e)
  then obtain d where d: "map_of (getProviderState data c) k = Some d" "stored_entry e = Some d"
    using marshalled_entry [OF assms(1)] by blast
  then obtain e' where e': "map_of (getProviderState ps' c) k = Some e'" "Request e' = Request d" "rerun c \<or> e' = d"
    using assms(2) [unfolded entries_kept_def, rule_format, of c k] by (auto simp: option_rel_Some1)
  show ?thesis using survives_run [OF stored_survives [OF d(2)] e'(2,3)] Some e'(1) by simp
qed



end
