(* ===== verification/Provider_Invariant.thy ===== *)
theory Provider_Invariant
  imports Provider_Serve State_File
begin

text \<open>
  What a property of the provider state needs so that every process of \<open>pkgs/fort-provider/main.go\<close>
  keeps it: the laws of the operations that change the state, and, from them, that the server, a
  trigger run and a collection keep it in memory and in \<open>provider-state.json\<close>.
\<close>

section \<open>How the server writes the file\<close>

lemma executeAsync_agents:
  "(\<exists>ps. \<forall>f. fst (executeAsyncHandler env (a\<lparr>providerFile := f\<rparr>) cap origin body cfg) = a\<lparr>providerFile := f, providerState := ps\<rparr>)
   \<or> (\<exists>ps r. \<forall>f. fst (executeAsyncHandler env (a\<lparr>providerFile := f\<rparr>) cap origin body cfg)
        = fst (finish_async env (snd (saveProviderState env (a\<lparr>providerFile := f, providerState := ps\<rparr>))) r cfg))"
proof -
  obtain ps key where r: "recordProviderRequest (providerState a) cap origin (Some body) (RecordTime env) = (ps, key)" by fastforce
  note e = executeAsyncHandler_def r split_beta Let_def
  show ?thesis
  proof (cases "marshal_input (build_input (CacheResponse cfg) (getProviderState ps cap))")
    case None
    then show ?thesis by (simp add: e) blast
  next
    case (Some data)
    let ?res = "RunHandler env (handler_path cap) [(''FORT_ORIGIN'', origin), (''FORT_CAPABILITY'', cap), (''FORT_MODE'', ''async'')] data"
    show ?thesis
    proof (cases "\<exists>printed out. ?res = ExecOk printed \<and> parseHandlerOutput printed (Format cfg) = Some out")
      case True
      then obtain printed out where o: "?res = ExecOk printed" "parseHandlerOutput printed (Format cfg) = Some out" by blast
      then have "\<forall>f. fst (executeAsyncHandler env (a\<lparr>providerFile := f\<rparr>) cap origin body cfg)
        = fst (finish_async env (snd (saveProviderState env
            (a\<lparr>providerFile := f, providerState := fst (process_responses (UpdateTime env) cap out ps)\<rparr>)))
            (case map_of out key of None \<Rightarrow> Some ''{}'' | Some r \<Rightarrow> r) cfg)"
        by (simp add: e Some)
      then show ?thesis by blast
    next
      case False
      then have "\<forall>f. fst (executeAsyncHandler env (a\<lparr>providerFile := f\<rparr>) cap origin body cfg) = a\<lparr>providerFile := f, providerState := ps\<rparr>"
        by (cases ?res) (auto simp: e Some split: option.splits)
      then show ?thesis by blast
    qed
  qed
qed

lemma executeAsync_agent:
  "(\<exists>ps. fst (executeAsyncHandler env a cap origin body cfg) = a\<lparr>providerState := ps\<rparr>)
   \<or> (\<exists>ps r. fst (executeAsyncHandler env a cap origin body cfg)
        = fst (finish_async env (snd (saveProviderState env (a\<lparr>providerState := ps\<rparr>))) r cfg))"
proof -
  have "a\<lparr>providerFile := providerFile a\<rparr> = a" by simp
  then show ?thesis using executeAsync_agents [of env a cap origin body cfg] by metis
qed

definition saved_or_kept :: "Agent \<Rightarrow> Agent \<Rightarrow> bool" where
  "saved_or_kept a b \<longleftrightarrow> providerFile b = providerFile a
     \<or> (\<exists>data. providerFile b = Loaded data \<and> marshalProviderState (providerState b) = Some data)"

lemma executeHandler_file: "saved_or_kept a (fst (executeHandler env a cap origin body cfg))"
proof -
  have f: "saved_or_kept a (fst (finish_async env b r cfg)) \<longleftrightarrow> saved_or_kept a b" for b r
  proof -
    have "providerFile (fst (finish_async env b r cfg)) = providerFile b"
      by (auto simp: finish_async_def Let_def split: prod.splits option.splits)
    then show ?thesis by (simp add: saved_or_kept_def)
  qed
  have s: "saved_or_kept a (snd (saveProviderState env (a\<lparr>providerState := ps\<rparr>)))" for ps
    by (simp add: saveProviderState_def saved_or_kept_def split: option.splits)
  have r: "saved_or_kept a (a\<lparr>providerState := ps\<rparr>)" for ps by (simp add: saved_or_kept_def)
  have "saved_or_kept a (fst (executeAsyncHandler env a cap origin body cfg))"
    using executeAsync_agent [of env a cap origin body cfg] f s r by metis
  then show ?thesis by (simp add: executeHandler_def saved_or_kept_def)
qed

lemma updated_process: "gomap_ok out \<Longrightarrow> map_of (getProviderState (fst (process_responses t cap out ps)) c) k = Some e \<Longrightarrow>
   \<exists>e'. map_of (getProviderState ps c) k = Some e' \<and> Request e = Request e'"
  by (cases "c = cap")
    (auto simp: process_responses_other process_responses_entry split: option.splits dest!: updated_entry_Request)

section \<open>The laws\<close>

text \<open>What the handler of a capability prints for some map of requests, as the program reads it.\<close>

definition handler_prints :: "HostEnv \<Rightarrow> string \<Rightarrow> AsyncHandlerOutput \<Rightarrow> bool" where
  "handler_prints env cap out \<longleftrightarrow>
     (\<exists>args cache state input printed format.
        {(''FORT_CAPABILITY'', cap), (''FORT_MODE'', ''async'')} \<subseteq> set args
        \<and> marshal_input (build_input cache state) = Some input
        \<and> RunHandler env (handler_path cap) args input = ExecOk printed
        \<and> parseHandlerOutput printed format = Some out)"

lemma handler_printsI:
  "marshal_input (build_input cache state) = Some input \<Longrightarrow> RunHandler env (handler_path cap) args input = ExecOk printed \<Longrightarrow>
     parseHandlerOutput printed format = Some out \<Longrightarrow> {(''FORT_CAPABILITY'', cap), (''FORT_MODE'', ''async'')} \<subseteq> set args \<Longrightarrow>
     handler_prints env cap out"
  unfolding handler_prints_def by blast

lemma handler_prints_ok: "handler_prints env cap out \<Longrightarrow> gomap_ok out"
  by (auto simp: handler_prints_def parseHandlerOutput_ok)

lemma trigger_answers_ok: "trigger_answers env caps ps cap force out \<Longrightarrow> gomap_ok out"
  by (auto simp: trigger_answers_def parseHandlerOutput_ok split: option.splits ExecResult.splits)

lemma runTrigger_silent:
  assumes "\<nexists>out. trigger_answers env cs (case stored of Loaded ps \<Rightarrow> ps | _ \<Rightarrow> []) cap force out"
  shows "fst (snd (runTrigger env (Loaded cs) stored cap force)) = stored"
  using assms
  by (cases stored)
    (auto simp: runTrigger_def trigger_answers_def Let_def split: option.splits if_splits ExecResult.splits)

lemma runTrigger_writes:
  fixes stored ps defines "ps \<equiv> (case stored of Loaded ps \<Rightarrow> ps | _ \<Rightarrow> [])"
  assumes "trigger_answers env cs ps cap force out"
  shows "fst (snd (runTrigger env (Loaded cs) stored cap force)) = stored
    \<or> (\<exists>data. marshalProviderState (AList.update cap (fst (trigger_responses (UpdateTime env) out (getProviderState ps cap))) ps) = Some data
        \<and> fst (snd (runTrigger env (Loaded cs) stored cap force)) = Loaded data)"
  using assms
  by (cases stored)
    (auto simp: runTrigger_def trigger_answers_def Let_def split_beta split: option.splits if_splits ExecResult.splits)

text \<open>
  The property, and the outputs of handlers it is to survive. The laws are about the operations that
  change the state.
\<close>

locale provider_invariant =
  fixes holds :: "ProviderState \<Rightarrow> bool"
    and expected :: "string \<Rightarrow> AsyncHandlerOutput \<Rightarrow> bool"
  assumes empty: "holds []"
    and marshal: "holds ps \<Longrightarrow> marshalProviderState ps = Some data \<Longrightarrow> holds data"
    and process: "holds ps \<Longrightarrow> gomap_ok out \<Longrightarrow> expected cap out \<Longrightarrow> holds (fst (process_responses t cap out ps))"
    and trigger: "holds ps \<Longrightarrow> gomap_ok out \<Longrightarrow> expected cap out \<Longrightarrow>
      holds (AList.update cap (fst (trigger_responses t out (getProviderState ps cap))) ps)"
    and sweep: "holds ps \<Longrightarrow> holds (fst (gc_sweep query caps ps))"
begin

text \<open>A state file: it holds the property, and is in the form it would be written in.\<close>

definition in_file :: "ProviderState FileLoad \<Rightarrow> bool" where
  "in_file stored \<longleftrightarrow> (\<forall>ps. stored = Loaded ps \<longrightarrow> holds ps \<and> marshalProviderState ps = Some ps)"

definition in_agent :: "Agent \<Rightarrow> bool" where
  "in_agent a \<longleftrightarrow> holds (providerState a) \<and> in_file (providerFile a)"

lemma written: "holds ps \<Longrightarrow> marshalProviderState ps = Some data \<Longrightarrow> in_file (Loaded data)"
  using marshal marshal_stable by (simp add: in_file_def)

lemma saved: "saved_or_kept a b \<Longrightarrow> in_agent a \<Longrightarrow> holds (providerState b) \<Longrightarrow> in_agent b"
  using written by (auto simp: saved_or_kept_def in_agent_def)

lemma in_save: "in_agent a \<Longrightarrow> in_agent (snd (saveProviderState env a))"
  using written by (auto simp: in_agent_def saveProviderState_def split: option.splits)

lemma in_initialize:
  assumes "\<And>cap out. initialised (capabilities a) cap \<Longrightarrow> handler_prints env cap out \<Longrightarrow> expected cap out" and "in_agent a"
  shows "in_agent (fst (initializeCapabilities env a))"
proof -
  have "in_agent (fst (initializeCapability env x acc))"
    if acc: "in_agent (fst acc)" and x: "x \<in> set (capabilities a)" for x acc
  proof (cases "fst (initializeCapability env x acc) = fst acc")
    case False
    then obtain out where p: "handler_prints env (fst x) out" and i0: "Initialize (Triggers (snd x))"
      and i: "fst (initializeCapability env x acc) = snd (saveProviderState env
        ((fst acc)\<lparr>providerState := fst (process_responses (UpdateTime env) (fst x) out (providerState (fst acc)))\<rparr>))"
      by (auto simp: initializeCapability_def Let_def split_beta split: option.splits ExecResult.splits if_splits
          dest: handler_printsI)
    have init: "initialised (capabilities a) (fst x)"
      using x i0 by (cases x) (auto simp: initialised_def list_ex_iff)
    from p have "holds (fst (process_responses (UpdateTime env) (fst x) out (providerState (fst acc))))"
      using acc assms(1) [OF init] handler_prints_ok by (intro process) (auto simp: in_agent_def)
    then show ?thesis unfolding i using acc by (intro in_save) (simp add: in_agent_def)
  qed (simp add: acc)
  then have "set cs \<subseteq> set (capabilities a) \<Longrightarrow> in_agent (fst acc) \<Longrightarrow> in_agent (fst (fold (initializeCapability env) cs acc))"
    for cs acc by (induction cs arbitrary: acc) simp_all
  then show ?thesis using assms(2) by (simp add: initializeCapabilities_def)
qed

lemma in_start:
  assumes "\<And>caps cap out. capsFile = Loaded caps \<Longrightarrow> initialised caps cap \<Longrightarrow> handler_prints env cap out \<Longrightarrow> expected cap out"
    and "in_file stored"
    and "NewAgentHandler env hostsFile rbacFile capsFile needsFile stored handles fulfillment = Inr (a, sent)"
  shows "in_agent a"
proof -
  from assms(3) obtain a0 where a0: "a = fst (initializeCapabilities env a0)" "providerFile a0 = stored"
    "providerState a0 = [] \<or> stored = Loaded (providerState a0)" "capabilities a0 = [] \<or> capsFile = Loaded (capabilities a0)"
    by (auto simp: NewAgentHandler_def optional_file_def split: FileLoad.splits sum.splits) (metis Agent.select_convs(3,5,6) fst_conv)+
  have "in_agent a0" using a0(2,3) assms(2) empty by (auto simp: in_agent_def in_file_def)
  then show ?thesis unfolding a0(1) using a0(4) assms(1)
    by (intro in_initialize) (auto simp: initialised_def)
qed

lemma in_execute:
  assumes "\<And>out. is_async cfg \<Longrightarrow> handler_answers env a cap origin body cfg out \<Longrightarrow> expected cap out"
    and "in_agent a" and "holds (recorded env a cap origin body)"
  shows "in_agent (fst (executeHandler env a cap origin body cfg))"
proof (rule saved [OF executeHandler_file assms(2)])
  have "holds (providerState (fst (executeAsyncHandler env a cap origin body cfg)))" if "is_async cfg"
  proof (cases "\<exists>out. handler_answers env a cap origin body cfg out")
    case True
    then obtain out where out: "handler_answers env a cap origin body cfg out" by blast
    then have "gomap_ok out" "expected cap out" using handler_answers_ok assms(1) that by simp_all
    then show ?thesis unfolding executeAsync_answered(1) [OF out] by (rule process [OF assms(3)])
  next
    case False
    then show ?thesis using async_unanswered [of env a cap origin body cfg] assms(3) by auto
  qed
  then show "holds (providerState (fst (executeHandler env a cap origin body cfg)))"
    using assms(2) by (simp add: executeHandler_def in_agent_def)
qed

lemma in_serve:
  assumes a: "in_agent a"
    and new: "\<And>cap origin body. admit auth (hosts a) (rbac a) (HandlerExists env) r = Inr (cap, origin, body) \<Longrightarrow>
       (is_async (capability_config (capabilities a) cap) \<longrightarrow>
          (\<forall>out. handler_answers env a cap origin body (capability_config (capabilities a) cap) out \<longrightarrow> expected cap out))
       \<and> holds (recorded env a cap origin body)"
  shows "in_agent (fst (serveHTTP auth env a r))"
proof (cases "HasPrefix (ReqPath r) ''/fort/needs/''")
  case True
  have "providerState (fst (handleCallback auth env a r)) = providerState a \<and> providerFile (fst (handleCallback auth env a r)) = providerFile a"
    by (auto simp: handleCallback_def Let_def split: option.splits sum.splits prod.splits)
  then show ?thesis using True a by (simp add: serveHTTP_def in_agent_def split_beta)
next
  case False
  show ?thesis
  proof (cases "admit auth (hosts a) (rbac a) (HandlerExists env) r")
    case (Inl e)
    then show ?thesis using False a by (cases e) (simp add: serveHTTP_def)
  next
    case (Inr x)
    obtain cap origin body where x: "x = (cap, origin, body)" by (cases x)
    note n = new [OF Inr [unfolded x]]
    show ?thesis using False in_execute [OF _ a conjunct2 [OF n]] n by (simp add: serveHTTP_def Inr x)
  qed
qed

lemma in_trigger:
  assumes "\<And>cs out. caps = Loaded cs \<Longrightarrow>
      trigger_answers env cs (case stored of Loaded ps \<Rightarrow> ps | _ \<Rightarrow> []) cap force out \<Longrightarrow> expected cap out"
    and "in_file stored"
  shows "in_file (fst (snd (runTrigger env caps stored cap force)))"
proof (cases "fst (snd (runTrigger env caps stored cap force)) = stored")
  case False
  define ps where "ps = (case stored of Loaded ps \<Rightarrow> ps | _ \<Rightarrow> [])"
  from False obtain cs where cs: "caps = Loaded cs" by (cases caps) (simp_all add: runTrigger_def)
  obtain out where run: "trigger_answers env cs ps cap force out"
    using runTrigger_silent [of env cs stored cap force] False by (auto simp: cs ps_def)
  then obtain data where
    d: "marshalProviderState (AList.update cap (fst (trigger_responses (UpdateTime env) out (getProviderState ps cap))) ps) = Some data"
      "fst (snd (runTrigger env caps stored cap force)) = Loaded data"
    using runTrigger_writes [of env cs stored cap force out] False by (auto simp: cs ps_def)
  have "holds ps" using assms(2) empty by (cases stored) (auto simp: ps_def in_file_def)
  moreover have "gomap_ok out" "expected cap out" using run assms(1) [OF cs] trigger_answers_ok by (simp_all add: ps_def)
  ultimately show ?thesis unfolding d(2) using written [OF trigger d(1)] by simp
qed (simp add: assms)

lemma in_collect:
  assumes "in_file stored"
  shows "in_file (GcFile (runGC env fortNeeds now caps stored))"
proof (cases "GcFile (runGC env fortNeeds now caps stored) = stored")
  case False
  then obtain cs ps where f: "caps = Loaded cs" "stored = Loaded ps" "ps \<noteq> []"
    and err: "GcError (runGC env fortNeeds now caps stored) = None"
    by (auto simp: runGC_def gc_failed_def gc_nothing_def Let_def split: option.splits if_splits FileLoad.splits prod.splits)
  let ?sw = "gc_sweep (\<lambda>c h. queryOriginNeeds (fortNeeds c h)) cs ps"
  from runGC_loaded(2) [OF err [unfolded f(1,2)] f(3)] False obtain data where
    m: "marshalProviderState (fst ?sw) = Some data" and g: "GcFile (runGC env fortNeeds now caps stored) = Loaded data"
    unfolding f(1,2) by (auto split: if_splits)
  have "holds (fst ?sw)" using assms f(2) by (intro sweep) (simp add: in_file_def)
  then show ?thesis using written m g by simp
qed (simp add: assms)

end

section \<open>Requests\<close>

text \<open>
  A property of the requests in a provider state, by capability and key, that holds of no request
  and does not depend on the layout of the text.
\<close>

type_synonym on_requests = "string \<Rightarrow> string \<Rightarrow> raw \<Rightarrow> bool"

definition requests_hold :: "on_requests \<Rightarrow> ProviderState \<Rightarrow> bool" where
  "requests_hold Q ps \<longleftrightarrow> (\<forall>c k e. map_of (getProviderState ps c) k = Some e \<longrightarrow> Q c k (Request e))"

definition survives_saving :: "on_requests \<Rightarrow> bool" where
  "survives_saving Q \<longleftrightarrow> (\<forall>c k. Q c k None \<and> (\<forall>r t. Q c k r \<longrightarrow> marshal_raw r = Some t \<longrightarrow> Q c k (Some t)))"

lemma requests_holdD: "requests_hold Q ps \<Longrightarrow> map_of (getProviderState ps c) k = Some e \<Longrightarrow> Q c k (Request e)"
  by (simp add: requests_hold_def)

lemma requests_mono: "requests_hold Q ps \<Longrightarrow> (\<And>c k r. Q c k r \<Longrightarrow> Q' c k r) \<Longrightarrow> requests_hold Q' ps"
  by (simp add: requests_hold_def)

lemma requests_marshal:
  assumes "survives_saving Q" "requests_hold Q ps" "marshalProviderState ps = Some data"
  shows "requests_hold Q data"
  unfolding requests_hold_def
proof (intro allI impI)
  fix c k e'
  assume "map_of (getProviderState data c) k = Some e'"
  then obtain e where e: "map_of (getProviderState ps c) k = Some e" "stored_entry e = Some e'"
    using marshal_entry [OF assms(3), of c k] by (auto simp: Option.bind_eq_Some_conv)
  then obtain rq where "marshal_raw (Request e) = Some rq" "Request e' = Some rq"
    by (cases rule: stored_cases [OF e(2)]) auto
  then show "Q c k (Request e')"
    using assms(1) requests_holdD [OF assms(2) e(1)] by (auto simp: survives_saving_def)
qed

lemma requests_process:
  "requests_hold Q ps \<Longrightarrow> gomap_ok out \<Longrightarrow> requests_hold Q (fst (process_responses t cap out ps))"
  by (simp only: requests_hold_def) (metis updated_process)

lemma requests_sweep: "requests_hold Q ps \<Longrightarrow> requests_hold Q (fst (gc_sweep query caps ps))"
proof -
  have "requests_hold Q (fst (gc_sweep_one query x acc))" if "requests_hold Q (fst acc)" for x acc
    using that gc_sweep_one_entry [of query "fst x" "snd x" "fst acc" "fst (snd acc)" "snd (snd acc)"]
    by (auto simp: requests_hold_def split: if_splits)
  then have "requests_hold Q (fst acc) \<Longrightarrow> requests_hold Q (fst (fold (gc_sweep_one query) caps acc))" for acc
    by (induction caps arbitrary: acc) simp_all
  then show "requests_hold Q ps \<Longrightarrow> ?thesis" by (simp add: gc_sweep_def)
qed


lemma requests_trigger:
  assumes q: "survives_saving Q" and ps: "requests_hold Q ps" and out: "gomap_ok out"
  shows "requests_hold Q (AList.update cap (fst (trigger_responses t out (getProviderState ps cap))) ps)"
  unfolding requests_hold_def
proof (intro allI impI)
  fix c k e
  assume e: "map_of (getProviderState (AList.update cap (fst (trigger_responses t out (getProviderState ps cap))) ps) c) k = Some e"
  show "Q c k (Request e)"
  proof (cases "c = cap")
    case False
    then show ?thesis using e ps by (simp add: gomap requests_holdD)
  next
    case True
    then have "Request e = None \<or> (\<exists>e'. map_of (getProviderState ps cap) k = Some e' \<and> Request e = Request e')"
      using e by (auto simp: gomap trigger_responses_entry [OF out] triggered_entry_def zero_entry_def split: option.splits)
    then show ?thesis using q requests_holdD [OF ps] by (auto simp: True survives_saving_def)
  qed
qed


lemma requests_recorded:
  assumes "requests_hold Q (providerState a)" "Q cap (makeStateKey origin (Some body)) (Some body)"
  shows "requests_hold Q (recorded env a cap origin body)"
  unfolding requests_hold_def
proof (intro allI impI)
  fix c k e
  assume "map_of (getProviderState (recorded env a cap origin body) c) k = Some e"
  then show "Q c k (Request e)"
    using assms by (auto simp: recorded_def recordProviderRequest_entry requests_holdD split: if_splits)
qed

lemma requests_invariant: "survives_saving Q \<Longrightarrow> provider_invariant (requests_hold Q) (\<lambda>_ _. True)"
  by unfold_locales
    (auto simp: requests_process requests_trigger requests_sweep intro: requests_marshal,
      simp add: requests_hold_def getProviderState_def)

section \<open>Properties of the stored responses\<close>

type_synonym on_responses = "string \<Rightarrow> string \<Rightarrow> string \<Rightarrow> bool"

definition responses_hold :: "on_responses \<Rightarrow> ProviderState \<Rightarrow> bool" where
  "responses_hold R ps \<longleftrightarrow>
     (\<forall>c k e r. map_of (getProviderState ps c) k = Some e \<longrightarrow> Response e = Some r \<longrightarrow> R c k r)"

definition about_values :: "on_responses \<Rightarrow> bool" where
  "about_values R \<longleftrightarrow> (\<forall>c k r r'. json_parse r' = json_parse r \<longrightarrow> R c k r \<longrightarrow> R c k r')"

definition answers_hold :: "on_responses \<Rightarrow> string \<Rightarrow> AsyncHandlerOutput \<Rightarrow> bool" where
  "answers_hold R c out \<longleftrightarrow> (\<forall>k r. map_of out k = Some (Some r) \<longrightarrow> R c k r)"

lemma responses_holdD:
  "responses_hold R ps \<Longrightarrow> map_of (getProviderState ps c) k = Some e \<Longrightarrow> Response e = Some r \<Longrightarrow> R c k r"
  unfolding responses_hold_def by blast

lemma responses_mono: "responses_hold R ps \<Longrightarrow> (\<And>c k r. R c k r \<Longrightarrow> R' c k r) \<Longrightarrow> responses_hold R' ps"
  unfolding responses_hold_def by blast

lemma responses_marshal:
  assumes "about_values R" "responses_hold R ps" "marshalProviderState ps = Some data"
  shows "responses_hold R data"
  unfolding responses_hold_def
proof (intro allI impI)
  fix c k e' r
  assume e': "map_of (getProviderState data c) k = Some e'" and r: "Response e' = Some r"
  then obtain e where e: "map_of (getProviderState ps c) k = Some e" "stored_entry e = Some e'"
    using marshal_entry [OF assms(3), of c k] by (auto simp: Option.bind_eq_Some_conv)
  from r have "marshal_raw (Response e) = Some r \<and> raw_len (Response e) \<noteq> 0"
    by (cases rule: stored_cases [OF e(2)]) simp_all
  then obtain b where "Response e = Some b" "json_parse r = json_parse b"
    using marshal_raw_parse by (cases "Response e") (auto simp: raw_len_def)
  then show "R c k r" using responses_holdD [OF assms(2) e(1)] assms(1) unfolding about_values_def by blast
qed

lemma responses_process:
  assumes "responses_hold R ps" "gomap_ok out" "answers_hold R cap out"
  shows "responses_hold R (fst (process_responses t cap out ps))"
  unfolding responses_hold_def
proof (intro allI impI)
  fix c k e r
  assume e: "map_of (getProviderState (fst (process_responses t cap out ps)) c) k = Some e" "Response e = Some r"
  show "R c k r"
  proof (cases "c = cap")
    case True
    then show ?thesis
      using e responses_holdD [OF assms(1)] assms(3)
      by (auto simp: process_responses_entry [OF assms(2)] updated_entry_def answers_hold_def split: option.splits if_splits)
  next
    case False
    then show ?thesis using e responses_holdD [OF assms(1)] by (simp add: process_responses_other)
  qed
qed

lemma responses_trigger:
  assumes "responses_hold R ps" "gomap_ok out" "answers_hold R cap out"
  shows "responses_hold R (AList.update cap (fst (trigger_responses t out (getProviderState ps cap))) ps)"
  unfolding responses_hold_def
proof (intro allI impI)
  fix c k e r
  assume e: "map_of (getProviderState (AList.update cap (fst (trigger_responses t out (getProviderState ps cap))) ps) c) k = Some e"
    "Response e = Some r"
  show "R c k r"
  proof (cases "c = cap")
    case True
    then show ?thesis
      using e responses_holdD [OF assms(1)] assms(3)
      by (auto simp: gomap trigger_responses_entry [OF assms(2)] triggered_entry_def answers_hold_def split: option.splits)
  next
    case False
    then show ?thesis using e responses_holdD [OF assms(1)] by (simp add: gomap)
  qed
qed

lemma responses_sweep: "responses_hold R ps \<Longrightarrow> responses_hold R (fst (gc_sweep query caps ps))"
proof -
  have "responses_hold R (fst (gc_sweep_one query x acc))" if "responses_hold R (fst acc)" for x acc
    using that gc_sweep_one_entry [of query "fst x" "snd x" "fst acc" "fst (snd acc)" "snd (snd acc)"]
    by (auto simp: responses_hold_def split: if_splits)
  then have "responses_hold R (fst acc) \<Longrightarrow> responses_hold R (fst (fold (gc_sweep_one query) caps acc))" for acc
    by (induction caps arbitrary: acc) simp_all
  then show "responses_hold R ps \<Longrightarrow> ?thesis" by (simp add: gc_sweep_def)
qed

lemma responses_recorded: "responses_hold R (providerState a) \<Longrightarrow> responses_hold R (recorded env a cap origin body)"
  by (auto simp: responses_hold_def recorded_def recordProviderRequest_entry split: if_splits)

lemma responses_invariant: "about_values R \<Longrightarrow> provider_invariant (responses_hold R) (answers_hold R)"
  by unfold_locales
    (auto simp: responses_process responses_trigger responses_sweep intro: responses_marshal,
      simp add: responses_hold_def getProviderState_def)

end
