(* ===== verification/Provider_Host.thy ===== *)
theory Provider_Host
  imports Provider_Invariant
begin

text \<open>
  \<open>main\<close> of \<open>pkgs/fort-provider/main.go\<close> and the processes that share
  \<open>provider-state.json\<close> on a host: the server, which reads it when it starts and keeps the
  state in memory from then on, and the runs with \<open>--trigger\<close> and \<open>--gc\<close>, which read it and
  write it while the server is running.
\<close>

section \<open>The command line\<close>

datatype ProviderCommand =
    TriggerRun string bool
  | CollectRun
  | ServerRun "string list"

text \<open>The arguments after the name of the program.\<close>

fun provider_command :: "string list \<Rightarrow> ProviderCommand" where
  "provider_command (cmd # args) =
     (if cmd = ''--trigger'' \<and> args \<noteq> [] then TriggerRun (hd args) (tl args \<noteq> [] \<and> hd (tl args) = ''--force'')
      else if cmd = ''--gc'' then CollectRun
      else ServerRun (cmd # args))"
| "provider_command [] = ServerRun []"

section \<open>The processes of a host\<close>

record HostFiles =
  HostsJson :: "string gomap FileLoad"
  RbacJson :: "string list gomap FileLoad"
  CapabilitiesJson :: "CapabilityConfig gomap FileLoad"
  NeedsJson :: "NeedConfig list FileLoad"
  HandleDir :: "string gomap"
  FulfillmentJson :: "FulfillmentState gomap FileLoad"
  FortNeeds :: "string \<Rightarrow> string \<Rightarrow> ExecResult"   \<comment> \<open>\<open>fort <origin> needs {}\<close>, by capability and origin\<close>
  GcTime :: int

record Host =
  serverProcess :: "Agent option"
  stateOnDisk :: "ProviderState FileLoad"

datatype HostEvent =
    Launch HostEnv HostFiles "string list"
  | HttpIn AuthEnv HostEnv HttpRequest
  | Killed

definition launch :: "HostEnv \<Rightarrow> HostFiles \<Rightarrow> string list \<Rightarrow> Host \<Rightarrow> Host" where
  "launch env files args h =
     (case provider_command args of
        TriggerRun capability force \<Rightarrow>
          h\<lparr>stateOnDisk := fst (snd (runTrigger env (CapabilitiesJson files) (stateOnDisk h) capability force))\<rparr>
      | CollectRun \<Rightarrow>
          h\<lparr>stateOnDisk := GcFile (runGC env (FortNeeds files) (GcTime files) (CapabilitiesJson files) (stateOnDisk h))\<rparr>
      | ServerRun _ \<Rightarrow>
          (case NewAgentHandler env (HostsJson files) (RbacJson files) (CapabilitiesJson files) (NeedsJson files)
                  (stateOnDisk h) (HandleDir files) (FulfillmentJson files) of
             Inl err \<Rightarrow> h\<lparr>serverProcess := None\<rparr>
           | Inr (a, sent) \<Rightarrow> \<lparr>serverProcess = Some a, stateOnDisk = providerFile a\<rparr>))"

fun host_step :: "HostEvent \<Rightarrow> Host \<Rightarrow> Host" where
  "host_step (Launch env files args) h = launch env files args h"
| "host_step (HttpIn auth env r) h =
     (case serverProcess h of
        None \<Rightarrow> h
      | Some a \<Rightarrow>
          (let a' = fst (serveHTTP auth env (a\<lparr>providerFile := stateOnDisk h\<rparr>) r)
           in \<lparr>serverProcess = Some a', stateOnDisk = providerFile a'\<rparr>))"
| "host_step Killed h = h\<lparr>serverProcess := None\<rparr>"

definition new_host :: Host where
  "new_host = \<lparr>serverProcess = None, stateOnDisk = Absent ''no such file''\<rparr>"

definition host_after :: "HostEvent list \<Rightarrow> Host" where
  "host_after events = fold host_step events new_host"

lemma host_after_snoc [simp]: "host_after (es @ [e]) = host_step e (host_after es)"
  by (simp add: host_after_def)

lemma launch_runs:
  assumes "\<forall>rest. provider_command args \<noteq> ServerRun rest"
  shows "serverProcess (launch env files args h) = serverProcess h"
  using assms by (cases "provider_command args") (simp_all add: launch_def)

section \<open>What every process keeps\<close>

text \<open>
  What the handler of a capability prints when it runs for the provider state during an event: on the
  requests filed then, for an admitted request or a trigger run, and on some requests when the server
  starts, since the handlers run there one after the other.
\<close>

fun run_prints :: "HostEvent \<Rightarrow> Host \<Rightarrow> string \<Rightarrow> AsyncHandlerOutput \<Rightarrow> bool" where
  "run_prints (Launch env files args) h c out \<longleftrightarrow>
     (case CapabilitiesJson files of
        Loaded caps \<Rightarrow>
          (case provider_command args of
             TriggerRun capability force \<Rightarrow> c = capability
               \<and> trigger_answers env caps (case stateOnDisk h of Loaded ps \<Rightarrow> ps | _ \<Rightarrow> []) capability force out
           | CollectRun \<Rightarrow> False
           | ServerRun rest \<Rightarrow> initialised caps c \<and> handler_prints env c out)
      | _ \<Rightarrow> False)"
| "run_prints (HttpIn auth env r) h c out \<longleftrightarrow>
     (\<exists>a origin body. serverProcess h = Some a
        \<and> admit auth (hosts a) (rbac a) (HandlerExists env) r = Inr (c, origin, body)
        \<and> is_async (capability_config (capabilities a) c)
        \<and> handler_answers env a c origin body (capability_config (capabilities a) c) out)"
| "run_prints Killed h c out \<longleftrightarrow> False"

context provider_invariant
begin

definition in_host :: "Host \<Rightarrow> bool" where
  "in_host h \<longleftrightarrow> in_file (stateOnDisk h) \<and> (\<forall>a. serverProcess h = Some a \<longrightarrow> holds (providerState a))"

lemma in_launch:
  assumes h: "in_host h" and runs: "\<And>c out. run_prints (Launch env files args) h c out \<Longrightarrow> expected c out"
  shows "in_host (launch env files args h)"
proof (cases "provider_command args")
  case (TriggerRun c force)
  have "in_file (fst (snd (runTrigger env (CapabilitiesJson files) (stateOnDisk h) c force)))"
    using h runs [of c] by (intro in_trigger) (auto simp: TriggerRun in_host_def)
  then show ?thesis using h by (simp add: launch_def in_host_def TriggerRun)
next
  case CollectRun
  then show ?thesis using h by (simp add: launch_def in_host_def in_collect)
next
  case (ServerRun rest)
  then show ?thesis
    using h runs by (auto simp: launch_def in_host_def in_agent_def split: sum.splits dest!: in_start [rotated 2])
qed

text \<open>
  A step keeps the property when the handlers it runs print what is expected, and the property holds
  of the state with each request the server admits.
\<close>

lemma in_step:
  assumes h: "in_host h"
    and runs: "\<And>c out. run_prints ev h c out \<Longrightarrow> expected c out"
    and new: "\<And>auth env r a cap origin body. ev = HttpIn auth env r \<Longrightarrow> serverProcess h = Some a \<Longrightarrow>
      admit auth (hosts a) (rbac a) (HandlerExists env) r = Inr (cap, origin, body) \<Longrightarrow> holds (recorded env a cap origin body)"
  shows "in_host (host_step ev h)"
proof (cases ev)
  case (Launch env files args)
  then show ?thesis using in_launch [OF h] runs by simp
next
  case Killed
  then show ?thesis using h by (simp add: in_host_def)
next
  case (HttpIn auth env r)
  show ?thesis
  proof (cases "serverProcess h")
    case None
    then show ?thesis using h by (simp add: HttpIn)
  next
    case (Some a)
    have "in_agent (fst (serveHTTP auth env (a\<lparr>providerFile := stateOnDisk h\<rparr>) r))"
    proof (rule in_serve)
      show "in_agent (a\<lparr>providerFile := stateOnDisk h\<rparr>)" using h Some by (simp add: in_agent_def in_host_def)
    next
      fix cap origin body
      assume "admit auth (hosts (a\<lparr>providerFile := stateOnDisk h\<rparr>)) (rbac (a\<lparr>providerFile := stateOnDisk h\<rparr>)) (HandlerExists env) r
        = Inr (cap, origin, body)"
      then have adm: "admit auth (hosts a) (rbac a) (HandlerExists env) r = Inr (cap, origin, body)" by simp
      have "handler_answers env (a\<lparr>providerFile := stateOnDisk h\<rparr>) cap origin body cfg out = handler_answers env a cap origin body cfg out"
        for cfg out by (simp add: handler_answers_def recorded_def)
      then show "(is_async (capability_config (capabilities (a\<lparr>providerFile := stateOnDisk h\<rparr>)) cap) \<longrightarrow>
          (\<forall>out. handler_answers env (a\<lparr>providerFile := stateOnDisk h\<rparr>) cap origin body
             (capability_config (capabilities (a\<lparr>providerFile := stateOnDisk h\<rparr>)) cap) out \<longrightarrow> expected cap out))
        \<and> holds (recorded env (a\<lparr>providerFile := stateOnDisk h\<rparr>) cap origin body)"
        using new [OF HttpIn Some adm] runs [of cap] adm by (auto simp: HttpIn Some recorded_def)
    qed
    then show ?thesis using Some by (simp add: HttpIn Let_def in_host_def in_agent_def)
  qed
qed

lemma in_new_host: "in_host new_host"
  by (simp add: new_host_def in_host_def in_file_def)

end

section \<open>Where a request comes from\<close>

text \<open>A request text that one of the events brought in: admitted by the server that was running.\<close>

definition brought_by :: "HostEvent list \<Rightarrow> string \<Rightarrow> string \<Rightarrow> string \<Rightarrow> bool" where
  "brought_by events c k req \<longleftrightarrow>
     (\<exists>before auth env r after a origin body. events = before @ HttpIn auth env r # after
        \<and> serverProcess (host_after before) = Some a
        \<and> admit auth (hosts a) (rbac a) (HandlerExists env) r = Inr (c, origin, body)
        \<and> k = makeStateKey origin (Some body) \<and> json_parse req = json_parse body)"

definition accounted :: "HostEvent list \<Rightarrow> on_requests" where
  "accounted events c k r \<longleftrightarrow> (case r of None \<Rightarrow> True | Some t \<Rightarrow> t = ''null'' \<or> brought_by events c k t)"

lemma accounted_saving: "survives_saving (accounted events)"
proof -
  have "marshal_raw (Some ''null'') = Some t \<Longrightarrow> t = ''null''" for t
  proof -
    have "marshal_raw (Some ''null'') = Some ''null''" by code_simp
    then show "marshal_raw (Some ''null'') = Some t \<Longrightarrow> t = ''null''" by simp
  qed
  moreover have "marshal_raw None = Some t \<Longrightarrow> t = ''null''" for t by (simp add: marshal_raw_def)
  moreover have "marshal_raw (Some b) = Some t \<Longrightarrow> brought_by events c k b \<Longrightarrow> brought_by events c k t" for b t c k
    using marshal_raw_parse [of b t] by (simp add: brought_by_def)
  ultimately show ?thesis by (auto simp: survives_saving_def accounted_def split: option.splits)
qed

lemma brought_later: "brought_by events c k t \<Longrightarrow> brought_by (events @ es) c k t"
  unfolding brought_by_def by (metis append.assoc append_Cons)

lemma accounted_later: "accounted events c k r \<Longrightarrow> accounted (events @ es) c k r"
  by (auto simp: accounted_def brought_later split: option.splits)

interpretation accounted: provider_invariant "requests_hold (accounted events)" "\<lambda>_ _. True" for events
  by (rule requests_invariant) (rule accounted_saving)

lemma host_accounted: "accounted.in_host events (host_after events)"
proof (induction events rule: rev_induct)
  case Nil
  show ?case using accounted.in_new_host by (simp add: host_after_def)
next
  case (snoc ev events)
  let ?es = "events @ [ev]"
  have m: "requests_hold (accounted events) ps \<Longrightarrow> requests_hold (accounted ?es) ps" for ps
    by (erule requests_mono) (rule accounted_later)
  have h: "accounted.in_host ?es (host_after events)"
    using snoc m by (auto simp: accounted.in_host_def accounted.in_file_def)
  show ?case
    unfolding host_after_snoc
  proof (rule accounted.in_step [OF h])
    fix auth env r a cap origin body
    assume ev: "ev = HttpIn auth env r" "serverProcess (host_after events) = Some a"
      and "admit auth (hosts a) (rbac a) (HandlerExists env) r = Inr (cap, origin, body)"
    then have "brought_by ?es cap (makeStateKey origin (Some body)) body"
      unfolding brought_by_def by fastforce
    then show "requests_hold (accounted ?es) (recorded env a cap origin body)"
      using h ev(2) by (intro requests_recorded) (simp_all add: accounted_def accounted.in_host_def)
  qed simp
qed

section \<open>Where a response comes from\<close>

text \<open>
  A response that one of the events produced: the handler of the capability ran then, and printed it
  for this key.
\<close>

definition answered_by :: "HostEvent list \<Rightarrow> on_responses" where
  "answered_by events c k r \<longleftrightarrow>
     (\<exists>before ev after out r0. events = before @ ev # after \<and> run_prints ev (host_after before) c out
        \<and> map_of out k = Some (Some r0) \<and> json_parse r = json_parse r0)"

lemma answered_later: "answered_by events c k r \<Longrightarrow> answered_by (events @ es) c k r"
  unfolding answered_by_def by (metis append.assoc append_Cons)

interpretation answered: provider_invariant "responses_hold (answered_by events)" "answers_hold (answered_by events)" for events
  by (rule responses_invariant) (auto simp: about_values_def answered_by_def)

lemma host_answered: "answered.in_host events (host_after events)"
proof (induction events rule: rev_induct)
  case Nil
  show ?case using answered.in_new_host by (simp add: host_after_def)
next
  case (snoc ev events)
  let ?es = "events @ [ev]"
  have m: "responses_hold (answered_by events) ps \<Longrightarrow> responses_hold (answered_by ?es) ps" for ps
    by (erule responses_mono) (rule answered_later)
  have h: "answered.in_host ?es (host_after events)"
    using snoc m by (auto simp: answered.in_host_def answered.in_file_def)
  show ?case
    unfolding host_after_snoc
  proof (rule answered.in_step [OF h])
    fix c out
    assume "run_prints ev (host_after events) c out"
    then show "answers_hold (answered_by ?es) c out" unfolding answers_hold_def answered_by_def by blast
  next
    fix auth env r a cap origin body
    assume "serverProcess (host_after events) = Some a"
    then show "responses_hold (answered_by ?es) (recorded env a cap origin body)"
      using h by (intro responses_recorded) (simp add: answered.in_host_def)
  qed
qed

section \<open>Lost updates\<close>

text \<open>The state file a request leaves does not depend on the one it found, unless it is the same.\<close>

definition blind :: "(ProviderState FileLoad \<Rightarrow> Agent) \<Rightarrow> bool" where
  "blind b \<longleftrightarrow> (\<forall>f. providerFile (b f) = f) \<or> (\<exists>g. \<forall>f. providerFile (b f) = g)"

lemma blind_finish: "blind b \<Longrightarrow> blind (\<lambda>f. fst (finish_async env (b f) r cfg))"
proof -
  have "providerFile (fst (finish_async env a r cfg)) = providerFile a" for a
    by (auto simp: finish_async_def Let_def split: prod.splits option.splits)
  then show "blind b \<Longrightarrow> ?thesis" by (simp add: blind_def)
qed

lemma blind_save: "blind (\<lambda>f. snd (saveProviderState env (a\<lparr>providerFile := f, providerState := ps\<rparr>)))"
  by (auto simp: blind_def saveProviderState_def split: option.splits)

lemma blind_execute: "blind (\<lambda>f. fst (executeHandler env (a\<lparr>providerFile := f\<rparr>) cap origin body cfg))"
proof (cases "is_async cfg")
  case True
  from executeAsync_agents [of env a cap origin body cfg] show ?thesis
  proof (elim disjE exE)
    fix ps
    assume "\<forall>f. fst (executeAsyncHandler env (a\<lparr>providerFile := f\<rparr>) cap origin body cfg) = a\<lparr>providerFile := f, providerState := ps\<rparr>"
    then show ?thesis using True by (simp add: executeHandler_def blind_def)
  next
    fix ps r
    assume "\<forall>f. fst (executeAsyncHandler env (a\<lparr>providerFile := f\<rparr>) cap origin body cfg)
        = fst (finish_async env (snd (saveProviderState env (a\<lparr>providerFile := f, providerState := ps\<rparr>))) r cfg)"
    then show ?thesis using True blind_finish [OF blind_save] by (simp add: executeHandler_def)
  qed
qed (simp add: executeHandler_def blind_def)

lemma blind_serve: "blind (\<lambda>f. fst (serveHTTP auth env (a\<lparr>providerFile := f\<rparr>) r))"
proof (cases "HasPrefix (ReqPath r) ''/fort/needs/''")
  case True
  have "providerFile (fst (handleCallback auth env b r)) = providerFile b" for b
    by (auto simp: handleCallback_def Let_def split: option.splits sum.splits prod.splits)
  then show ?thesis using True by (simp add: serveHTTP_def split_beta blind_def)
next
  case False
  show ?thesis
  proof (cases "admit auth (hosts a) (rbac a) (HandlerExists env) r")
    case (Inl e)
    then show ?thesis using False by (cases e) (simp add: serveHTTP_def blind_def)
  next
    case (Inr x)
    obtain cap origin body where x: "x = (cap, origin, body)" by (cases x)
    show ?thesis using False blind_execute by (simp add: serveHTTP_def Inr x)
  qed
qed

lemma request_overwrites:
  assumes "\<forall>rest. provider_command args \<noteq> ServerRun rest"
  shows "stateOnDisk (host_step (HttpIn auth env r) (launch env' files args h)) = stateOnDisk (launch env' files args h)
    \<or> stateOnDisk (host_step (HttpIn auth env r) (launch env' files args h)) = stateOnDisk (host_step (HttpIn auth env r) h)"
proof (cases "serverProcess h")
  case (Some a)
  show ?thesis using blind_serve [of auth env a r] Some launch_runs [OF assms] by (auto simp: Let_def blind_def)
qed (simp add: launch_runs [OF assms])

section \<open>Example\<close>

definition demo_files :: HostFiles where
  "demo_files = \<lparr>HostsJson = Loaded (hosts demo_agent), RbacJson = Loaded (rbac demo_agent),
     CapabilitiesJson = Loaded (capabilities demo_agent), NeedsJson = Absent ''no such file'', HandleDir = [],
     FulfillmentJson = Absent ''no such file'', FortNeeds = demo_needs, GcTime = 1000\<rparr>"

definition demo_events :: "HostEvent list" where
  "demo_events = [Launch demo_env demo_files [], HttpIn demo_auth demo_env (demo_request ''/fort/app'' demo_body), Killed]"

definition demo_host :: Host where
  "demo_host = \<lparr>serverProcess = Some demo_agent, stateOnDisk = Loaded demo_state\<rparr>"

definition on_disk :: "string \<Rightarrow> string \<Rightarrow> Host \<Rightarrow> bool" where
  "on_disk c k h = (case stateOnDisk h of Loaded ps \<Rightarrow> map_of (getProviderState ps c) k \<noteq> None | Absent e \<Rightarrow> False | Corrupt e \<Rightarrow> False)"

section \<open>Properties\<close>

text \<open>
  C3: whatever happened on a host since it had no state file, every request that is filed in the state file or in
  the memory of the server came over the network: at some moment the server that was running admitted an HTTP
  request, with full authentication and authorization for this capability, whose body is that JSON value and whose
  key that is. Restarts, failed writes, triggers and collections that run while the server does, and what handlers
  answer, make no difference.
\<close>

theorem requests_have_callers:
  assumes "serverProcess (host_after events) = Some a \<and> ps = providerState a \<or> stateOnDisk (host_after events) = Loaded ps"
    and "map_of (getProviderState ps c) k = Some e" and "Request e = Some req" and "req \<noteq> ''null''"
  shows "brought_by events c k req"
proof -
  have "requests_hold (accounted events) ps"
    using host_accounted [of events] assms(1) by (auto simp: accounted.in_host_def accounted.in_file_def)
  from requests_holdD [OF this assms(2)] show ?thesis using assms(3,4) by (simp add: accounted_def)
qed

theorem requests_have_callers_witness:
  "brought_by demo_events ''app'' ''web:app-x'' (json_compact demo_body)"
proof -
  have "(case stateOnDisk (host_after demo_events) of Loaded ps \<Rightarrow>
      (case map_of (getProviderState ps ''app'') ''web:app-x'' of None \<Rightarrow> False | Some e \<Rightarrow> Request e = Some (json_compact demo_body))
    | _ \<Rightarrow> False)"
    by code_simp
  then obtain ps e where p: "stateOnDisk (host_after demo_events) = Loaded ps"
    "map_of (getProviderState ps ''app'') ''web:app-x'' = Some e" "Request e = Some (json_compact demo_body)"
    by (auto split: FileLoad.splits option.splits)
  have "json_compact demo_body \<noteq> ''null''" by code_simp
  then show ?thesis using requests_have_callers [of demo_events undefined ps "''app''" "''web:app-x''" e] p by simp
qed

text \<open>
  C13: no response is made up, and none gets to another's key. Whatever happened on a host since it had no state
  file, every response in the state file or in the memory of the server was printed, as that JSON value and for that
  key, by the handler of that very capability, in its run under one of the events so far: the run on the requests
  filed then for an admitted request for the capability or for a trigger run of it, or a run at a start of the server
  for which the capability is marked.
\<close>

theorem responses_come_from_handlers:
  assumes "serverProcess (host_after events) = Some a \<and> ps = providerState a \<or> stateOnDisk (host_after events) = Loaded ps"
    and "map_of (getProviderState ps c) k = Some e" and "Response e = Some r"
  shows "answered_by events c k r"
proof -
  have "responses_hold (answered_by events) ps"
    using host_answered [of events] assms(1) by (auto simp: answered.in_host_def answered.in_file_def)
  from responses_holdD [OF this assms(2,3)] show ?thesis .
qed

theorem responses_come_from_handlers_witness:
  "answered_by demo_events ''app'' ''web:app-x'' (js ''{~url~:~u~}'')"
proof -
  have "(case stateOnDisk (host_after demo_events) of Loaded ps \<Rightarrow>
      (case map_of (getProviderState ps ''app'') ''web:app-x'' of None \<Rightarrow> False | Some e \<Rightarrow> Response e = Some (js ''{~url~:~u~}''))
    | _ \<Rightarrow> False)"
    by code_simp
  then obtain ps e where "stateOnDisk (host_after demo_events) = Loaded ps"
    "map_of (getProviderState ps ''app'') ''web:app-x'' = Some e" "Response e = Some (js ''{~url~:~u~}'')"
    by (auto split: FileLoad.splits option.splits)
  then show ?thesis using responses_come_from_handlers [of demo_events undefined ps] by blast
qed

text \<open>
  C14: a trigger run or a collection next to a running server is lost when the server next saves: a request either
  leaves the state file as it finds it, or as it would have been without that run, so that removed entries come back
  and new responses disappear.
\<close>

theorem concurrent_runs_lost:
  assumes "\<forall>rest. provider_command args \<noteq> ServerRun rest"
  shows "stateOnDisk (host_step (HttpIn auth env r) (launch env' files args h)) = stateOnDisk (launch env' files args h)
    \<or> stateOnDisk (host_step (HttpIn auth env r) (launch env' files args h)) = stateOnDisk (host_step (HttpIn auth env r) h)"
  using assms by (rule request_overwrites)


theorem concurrent_runs_lost_witness:
  "\<not> on_disk ''app'' ''gone:app-z'' (launch demo_env demo_files [''--gc''] demo_host)
   \<and> stateOnDisk (host_step (HttpIn demo_auth demo_env (demo_request ''/fort/app'' demo_body)) (launch demo_env demo_files [''--gc''] demo_host))
       = stateOnDisk (host_step (HttpIn demo_auth demo_env (demo_request ''/fort/app'' demo_body)) demo_host)
   \<and> on_disk ''app'' ''gone:app-z''
       (host_step (HttpIn demo_auth demo_env (demo_request ''/fort/app'' demo_body)) (launch demo_env demo_files [''--gc''] demo_host))"
proof -
  let ?ev = "HttpIn demo_auth demo_env (demo_request ''/fort/app'' demo_body)" and ?h1 = "launch demo_env demo_files [''--gc''] demo_host"
  have o: "\<not> on_disk ''app'' ''gone:app-z'' ?h1" "on_disk ''app'' ''gone:app-z'' (host_step ?ev ?h1)" by code_simp+
  then have "stateOnDisk (host_step ?ev ?h1) \<noteq> stateOnDisk ?h1" by (metis on_disk_def)
  moreover have "\<forall>rest. provider_command [''--gc''] \<noteq> ServerRun rest" by simp
  ultimately show ?thesis using o concurrent_runs_lost [of "[''--gc'']" demo_auth demo_env _ demo_env demo_files demo_host] by blast
qed

end
