(* ===== verification/Callback_Delivery.thy ===== *)
theory Callback_Delivery
  imports Provider_Serve
begin

text \<open>
  A need from the request to its fulfilment, across two hosts: the call of a capability on the
  provider, the callback it sends with the \<open>fort\<close> command, and what the provider program of the
  requesting host makes of it.
\<close>

lemma callback_request_path:
  fixes cap name origin :: string and r :: raw
  assumes "cap \<noteq> []" "CHR ''/'' \<notin> set cap" "name \<noteq> []"
  defines "path \<equiv> ''/fort/'' @ fst (snd (sendCallback origin (callback_path cap (cap @ ''-'' @ name)) r))"
  shows "callback_of_path path = Some (cap, name)" and "HasPrefix path ''/fort/needs/''"
proof -
  have "callback_path cap (cap @ ''-'' @ name) = ''/fort/'' @ ''needs/'' @ cap @ ''/'' @ name"
    using TrimPrefix_append [of "cap @ ''-''" name] by (simp add: callback_path_def)
  then have p: "path = callback_path cap (cap @ ''-'' @ name)" "path = ''/fort/needs/'' @ cap @ ''/'' @ name"
    using TrimPrefix_append [of "''/fort/''" "''needs/'' @ cap @ ''/'' @ name"] by (simp_all add: path_def sendCallback_def)
  have "\<exists>n. callback_of_path (callback_path cap (cap @ ''-'' @ name)) = Some (cap, n) \<and> cap @ ''-'' @ n = cap @ ''-'' @ name"
    by (rule callback_reaches_need [OF assms(1,2), THEN conjunct1, THEN iffD2]) (use assms(3) in blast)
  then show "callback_of_path path = Some (cap, name)" unfolding p(1) by simp
  show "HasPrefix path ''/fort/needs/''" unfolding p(2) by (simp add: HasPrefix_def)
qed

definition fulfilled :: "HostEnv \<Rightarrow> NeedConfig \<Rightarrow> string \<Rightarrow> string \<Rightarrow> string \<Rightarrow> Agent \<Rightarrow> FulfillmentState" where
  "fulfilled env need needID cap payload c =
     \<lparr>Satisfied = callback_satisfied env need (From need) needID cap payload,
      LastSought = (case map_of (fulfillment_of c) needID of None \<Rightarrow> 0 | Some f \<Rightarrow> LastSought f)\<rparr>"

lemma callback_served:
  assumes "callback_of_path (ReqPath r) = Some (cap, name)" "HasPrefix (ReqPath r) ''/fort/needs/''"
    and "authenticate auth (hosts c) r = Inr (From need, payload)"
    and "map_of (needs c) (cap @ ''-'' @ name) = Some need"
    and "WriteError env ''/var/lib/fort/fulfillment-state.json'' = None"
  shows "case serveHTTP auth env c r of (c', reply, sent) \<Rightarrow> Status reply = 200 \<and> sent = []
    \<and> map_of (fulfillment_of c') (cap @ ''-'' @ name) = Some (fulfilled env need (cap @ ''-'' @ name) cap payload c)"
  using assms
  by (simp add: serveHTTP_def handleCallback_def updateFulfillmentState_def Let_def fulfilled_def fulfillment_of_def gomap
      split: option.splits FileLoad.splits)

text \<open>
  C15: a need is fulfilled end to end. When a host calls a capability for one of its needs and the run of the
  capability answers its request, the provider sends a callback to that host which, brought there as the \<open>fort\<close>
  command does (as an authenticated request of the provider, under \<open>/fort/\<close> and the callback's path, with the response
  as its body), is answered 200 and leaves the need with the verdict of its handler on that response, or satisfied if it
  has no handler and the response is not blank.
\<close>

theorem callback_delivered:
  assumes "state_ok (providerState a)" and "handler_answers env a cap origin body cfg out"
    and "CHR '':'' \<notin> set origin" and "cap \<noteq> []" and "CHR ''/'' \<notin> set cap"
    and "extractNeedID (Some body) = cap @ ''-'' @ name" and "name \<noteq> []"
    and "map_of out (makeStateKey origin (Some body)) = Some r" and "raw_len r > 0"
    and "map_of (needs c) (cap @ ''-'' @ name) = Some need"
    and "WriteError envc ''/var/lib/fort/fulfillment-state.json'' = None"
    and "\<And>path payload. (origin, path, payload) \<in> set (snd (snd (executeAsyncHandler env a cap origin body cfg))) \<Longrightarrow>
       ReqPath (deliver path payload) = ''/fort/'' @ path
       \<and> authenticate auth (hosts c) (deliver path payload) = Inr (From need, payload)"
  shows "\<exists>path payload. (origin, path, payload) \<in> set (snd (snd (executeAsyncHandler env a cap origin body cfg)))
    \<and> (case serveHTTP auth envc c (deliver path payload) of (c', reply, sent) \<Rightarrow> Status reply = 200 \<and> sent = []
        \<and> map_of (fulfillment_of c') (cap @ ''-'' @ name)
            = Some (fulfilled envc need (cap @ ''-'' @ name) cap (raw_bytes r) c))"
proof -
  let ?cb = "sendCallback origin (callback_path cap (cap @ ''-'' @ name)) r"
  let ?path = "fst (snd ?cb)"
  have "?cb = (origin, ?path, raw_bytes r)" by (simp add: sendCallback_def)
  then have m: "(origin, ?path, raw_bytes r) \<in> set (snd (snd (executeAsyncHandler env a cap origin body cfg)))"
    using caller_always_answered [OF assms(1-3) _ assms(8,9)] assms(4,6) by simp
  note d = assms(12) [OF m]
  show ?thesis
    using m callback_served [of "deliver ?path (raw_bytes r)" cap name auth c need "raw_bytes r" envc]
      callback_request_path [OF assms(4,5,7), of origin r] d assms(10,11)
    by (intro exI [of _ ?path] exI [of _ "raw_bytes r"] conjI) simp_all
qed

text \<open>The requester of the example: its need \<open>app-x\<close> is declared with the provider \<open>web\<close>.\<close>

definition demo_requester :: Agent where
  "demo_requester = demo_agent\<lparr>
     needs := [(''app-x'', \<lparr>NeedID = ''app-x'', NeedCapability = ''app'', From = ''web'', Handler = [], NagSeconds = 60\<rparr>)]\<rparr>"

theorem callback_delivered_witness:
  "map_of (fulfillment_of (fst (serveHTTP demo_auth demo_env demo_requester
      (demo_request ''/fort/needs/app/x'' (js ''{~url~:~u~}''))))) ''app-x'' = Some \<lparr>Satisfied = True, LastSought = 0\<rparr>"
proof -
  let ?need = "\<lparr>NeedID = ''app-x'', NeedCapability = ''app'', From = ''web'', Handler = [], NagSeconds = 60\<rparr>"
  let ?deliver = "\<lambda>path payload. demo_request (''/fort/'' @ path) payload"
  have o: "map_of demo_out (makeStateKey ''web'' (Some demo_body)) = Some (Some (js ''{~url~:~u~}''))" by code_simp
  have n: "extractNeedID (Some demo_body) = ''app'' @ ''-'' @ ''x''" by code_simp
  have l: "raw_len (Some (js ''{~url~:~u~}'')) > 0" by code_simp
  have k: "map_of (needs demo_requester) (''app'' @ ''-'' @ ''x'') = Some ?need" by (simp add: demo_requester_def)
  have w: "WriteError demo_env ''/var/lib/fort/fulfillment-state.json'' = None" by code_simp
  have s: "snd (snd (executeAsyncHandler demo_env demo_agent ''app'' ''web'' demo_body demo_cfg))
     = [(''web'', ''needs/app/x'', js ''{~url~:~u~}''), (''old'', ''needs/app/y'', js ''{~error~:~e~}''), (''gone'', ''needs/app/z'', ''{}'')]"
    by code_simp
  have d: "ReqPath (?deliver path payload) = ''/fort/'' @ path
      \<and> authenticate demo_auth (hosts demo_requester) (?deliver path payload) = Inr (From ?need, payload)"
    if "(''web'', path, payload) \<in> set (snd (snd (executeAsyncHandler demo_env demo_agent ''app'' ''web'' demo_body demo_cfg)))"
    for path payload
  proof -
    have "path = ''needs/app/x''" "payload = js ''{~url~:~u~}''" using that unfolding s by auto
    moreover have "authenticate demo_auth (hosts demo_requester) (?deliver ''needs/app/x'' (js ''{~url~:~u~}'')) = Inr (''web'', js ''{~url~:~u~}'')"
      by code_simp
    ultimately show ?thesis by (simp add: demo_request_def)
  qed
  have f: "fulfilled demo_env ?need (''app'' @ ''-'' @ ''x'') ''app'' (raw_bytes (Some (js ''{~url~:~u~}''))) demo_requester
      = \<lparr>Satisfied = True, LastSought = 0\<rparr>"
    by code_simp
  show ?thesis
    using callback_delivered [OF demo_agent_ok demo_answers _ _ _ n _ o l k w d] f unfolding s by auto
qed

end
