(* ===== verification/Signed_Token.thy ===== *)
theory Signed_Token
  imports Json_Text Go_Time
begin

text \<open>
  What the session cookies of \<open>pkgs/identity-proxy\<close>, the bearer tokens of
  \<open>pkgs/fort-tokens\<close> and the token files of \<open>apps/forgejo/provider\<close> share: a record
  that \<open>json.Marshal\<close> writes and \<open>json.Unmarshal\<close> reads back, and the form
  \<open>base64url(payload).base64url(hmac)\<close>. The message authentication code is a parameter: nothing
  here depends on which function it is.
\<close>

section \<open>Records as JSON\<close>

text \<open>A slice of strings: \<open>None\<close> is the nil slice, which is written as null.\<close>

type_synonym slice = "string list option"

definition elems :: "slice \<Rightarrow> string list" where
  "elems g = (case g of None \<Rightarrow> [] | Some xs \<Rightarrow> xs)"

definition slice_json :: "slice \<Rightarrow> json" where
  "slice_json g = (case g of None \<Rightarrow> JNull | Some xs \<Rightarrow> JArr (map JStr xs))"

definition dec_slice :: "json \<Rightarrow> slice \<Rightarrow> slice option" where
  "dec_slice v old =
     (case v of
        JNull \<Rightarrow> Some None
      | JArr vs \<Rightarrow> map_option Some (all_some (map (\<lambda>x. dec_string x []) vs))
      | _ \<Rightarrow> None)"

text \<open>
  \<open>json.Unmarshal\<close> into a struct: null leaves it as it was, and any other value than an object
  is an error.
\<close>

definition unmarshal_struct :: "((string \<times> json) list \<Rightarrow> 'a option) \<Rightarrow> string \<Rightarrow> 'a option" where
  "unmarshal_struct fields data =
     (case json_parse data of
        Some JNull \<Rightarrow> fields []
      | Some (JObj ms) \<Rightarrow> fields ms
      | _ \<Rightarrow> None)"

text \<open>A value of a struct type, and a list of them, inside another value.\<close>

definition dec_struct :: "((string \<times> json) list \<Rightarrow> 'a option) \<Rightarrow> json \<Rightarrow> 'a option" where
  "dec_struct members v = (case v of JNull \<Rightarrow> members [] | JObj ms \<Rightarrow> members ms | _ \<Rightarrow> None)"

definition dec_structs :: "((string \<times> json) list \<Rightarrow> 'a option) \<Rightarrow> json \<Rightarrow> 'a list \<Rightarrow> 'a list option" where
  "dec_structs members v old =
     (case v of
        JNull \<Rightarrow> Some []
      | JArr vs \<Rightarrow> all_some (map (dec_struct members) vs)
      | _ \<Rightarrow> None)"

lemma dec_slice_json [simp]: "dec_slice (slice_json g) old = Some g"
proof (cases g)
  case (Some xs)
  have "all_some (map (\<lambda>x. dec_string x []) (map JStr xs)) = Some xs"
    by (induction xs) (simp_all add: dec_string_def)
  then show ?thesis by (simp add: dec_slice_def slice_json_def Some del: map_map)
qed (simp add: dec_slice_def slice_json_def)

lemma slice_json_ints [simp]: "json_ints (slice_json g)"
  by (auto simp: slice_json_def split: option.splits)

lemma fold_eq_refl [simp]: "fold_eq a a"
  by (simp add: fold_eq_def)

lemma dec_field_Nil [simp]: "dec_field name f init [] = Some init"
  by (simp add: dec_field_def)

lemma unmarshal_printed: "json_ints (JObj ms) \<Longrightarrow> unmarshal_struct fields (json_print (JObj ms)) = fields ms"
proof -
  assume "json_ints (JObj ms)"
  then have p: "json_parse (json_print (JObj ms)) = Some (JObj ms)" by (rule json_parse_print)
  show ?thesis unfolding unmarshal_struct_def p by (simp only: option.case json.case)
qed

text \<open>
  Whoever writes a value as a text and reads it back later relies on this contract: the text of a
  value in range decodes to the value.
\<close>

locale json_codec =
  fixes encode :: "'a \<Rightarrow> string" and decode :: "string \<Rightarrow> 'a option" and in_range :: "'a \<Rightarrow> bool"
  assumes decode_encode: "in_range x \<Longrightarrow> decode (encode x) = Some x"
begin

lemma encode_inj: "in_range x \<Longrightarrow> in_range y \<Longrightarrow> encode x = encode y \<Longrightarrow> x = y"
  by (metis decode_encode option.inject)

end

section \<open>Signed payloads\<close>

definition signHMAC :: "(string \<Rightarrow> string \<Rightarrow> string) \<Rightarrow> string \<Rightarrow> string \<Rightarrow> string" where
  "signHMAC hmac data key = RawURLEncoding_EncodeToString (hmac key data)"

definition seal :: "(string \<Rightarrow> string \<Rightarrow> string) \<Rightarrow> string \<Rightarrow> string \<Rightarrow> string" where
  "seal hmac key payload =
     (let encoded = RawURLEncoding_EncodeToString payload in encoded @ ''.'' @ signHMAC hmac encoded key)"

text \<open>The two parts of a signed text whose second part signs the first.\<close>

definition checked_part :: "(string \<Rightarrow> string \<Rightarrow> string) \<Rightarrow> string \<Rightarrow> string \<Rightarrow> string + string" where
  "checked_part hmac key value =
     (case SplitN2 CHR ''.'' value of
        (_, None) \<Rightarrow> Inl ''invalid session format''
      | (encoded, Some sig) \<Rightarrow>
          if sig \<noteq> signHMAC hmac encoded key then Inl ''invalid signature'' else Inr encoded)"

lemma encoded_no_dot: "CHR ''.'' \<notin> set (RawURLEncoding_EncodeToString s)"
  using b64_encode_chars [of "CHR ''.''" True False s] by (auto simp: RawURLEncoding_EncodeToString_def)

lemma decode_encoded [simp]: "RawURLEncoding_DecodeString (RawURLEncoding_EncodeToString s) = Some s"
  by (simp add: RawURLEncoding_DecodeString_def RawURLEncoding_EncodeToString_def b64_decode_encode)

lemma checked_seal [simp]: "checked_part hmac key (seal hmac key payload) = Inr (RawURLEncoding_EncodeToString payload)"
  by (simp add: checked_part_def seal_def Let_def SplitN2_append encoded_no_dot)

lemma checked_part_iff:
  "checked_part hmac key value = Inr encoded \<longleftrightarrow>
     value = encoded @ ''.'' @ signHMAC hmac encoded key \<and> CHR ''.'' \<notin> set encoded"
proof
  assume "checked_part hmac key value = Inr encoded"
  then obtain sig where "SplitN2 CHR ''.'' value = (encoded, Some sig)" "sig = signHMAC hmac encoded key"
    by (auto simp: checked_part_def split: prod.splits option.splits if_splits)
  then show "value = encoded @ ''.'' @ signHMAC hmac encoded key \<and> CHR ''.'' \<notin> set encoded"
    by (auto dest: SplitN2_SomeD)
next
  assume "value = encoded @ ''.'' @ signHMAC hmac encoded key \<and> CHR ''.'' \<notin> set encoded"
  then have "SplitN2 CHR ''.'' value = (encoded, Some (signHMAC hmac encoded key))" by (simp add: SplitN2_append)
  then show "checked_part hmac key value = Inr encoded" by (simp add: checked_part_def)
qed

text \<open>A payload in a codec's range is read back from the text that signs it.\<close>

context json_codec
begin

definition opened :: "(string \<Rightarrow> string \<Rightarrow> string) \<Rightarrow> string \<Rightarrow> string \<Rightarrow> 'a option" where
  "opened hmac key value =
     (case checked_part hmac key value of
        Inl _ \<Rightarrow> None
      | Inr encoded \<Rightarrow> Option.bind (RawURLEncoding_DecodeString encoded) decode)"

end

end
