(* ===== verification/Symmetric_Handler.thy ===== *)
theory Symmetric_Handler
  imports Provider_Async Signed_Token
begin

text \<open>
  What the handlers of \<open>fort-provider\<close>'s symmetric capabilities share
  (\<open>apps/forgejo/provider\<close>, \<open>apps/attic/provider\<close>, \<open>apps/pocket-id/provider\<close>): their
  input and output types, and the contract that a run answers every key it is given and echoes
  its request. The records of the input are those of \<open>Provider_Async\<close>.
\<close>

record OutputEntry =
  OutRequest :: raw
  OutResponse :: raw

type_synonym HandlerInput = "InputEntry gomap"
type_synonym HandlerOutput = "OutputEntry gomap"

section \<open>Reading the input\<close>

text \<open>
  \<open>json.Unmarshal\<close> into the input: an object (or null) of objects whose two members are kept
  as their bytes; a later duplicate of a key decodes afresh.
\<close>

definition decode_input_entry :: "string \<Rightarrow> InputEntry option" where
  "decode_input_entry v =
     Option.bind (raw_object v) (\<lambda>ms.
     Option.bind (dec_field ''request'' (\<lambda>x _. Some (Some x)) None ms) (\<lambda>rq.
     Option.bind (dec_field ''response'' (\<lambda>x _. Some (Some x)) None ms) (\<lambda>rs.
       Some \<lparr>InRequest = rq, InResponse = rs\<rparr>)))"

definition decodeHandlerInput :: "string \<Rightarrow> HandlerInput option" where
  "decodeHandlerInput data =
     Option.bind (raw_object data) (\<lambda>ms.
       map_option (\<lambda>es. go_map_of_members (zip (map fst ms) es)) (all_some (map (\<lambda>m. decode_input_entry (snd m)) ms)))"

section \<open>Writing the output\<close>

definition marshal_output_entry :: "OutputEntry \<Rightarrow> string option" where
  "marshal_output_entry e =
     Option.bind (marshal_raw (OutRequest e)) (\<lambda>rq.
     Option.bind (marshal_raw (OutResponse e)) (\<lambda>rs.
       Some (obj_text [(''request'', rq), (''response'', rs)])))"

definition writeOutput :: "HandlerOutput \<Rightarrow> string option" where
  "writeOutput out = map_option (\<lambda>m. obj_text (sort_members m)) (map_values marshal_output_entry out)"

section \<open>The contract\<close>

text \<open>
  \<open>run\<close> is one run of a handler on its input in a world: its output, or nothing when it fails
  as a whole.
\<close>

definition responses_of :: "HandlerOutput \<Rightarrow> AsyncHandlerOutput" where
  "responses_of out = map (\<lambda>(k, e). (k, OutResponse e)) out"

locale symmetric_handler =
  fixes run :: "'e \<Rightarrow> HandlerInput \<Rightarrow> 'w \<Rightarrow> 'w \<times> HandlerOutput option"
  assumes run_keys: "gomap_ok input \<Longrightarrow> run env input w = (w', Some out) \<Longrightarrow> gomap_ok out \<and> keys out = keys input"
    and run_echo: "gomap_ok input \<Longrightarrow> run env input w = (w', Some out) \<Longrightarrow> map_of input k = Some i
       \<Longrightarrow> \<exists>r. map_of out k = Some \<lparr>OutRequest = InRequest i, OutResponse = Some r\<rparr>"
begin

lemma run_answers:
  assumes "gomap_ok input" "run env input w = (w', Some out)" "k \<in> keys input"
  shows "\<exists>r. map_of (responses_of out) k = Some (Some r)"
proof -
  obtain i where "map_of input k = Some i" using assms(1,3) by (auto simp: keys_dom)
  then obtain r where "map_of out k = Some \<lparr>OutRequest = InRequest i, OutResponse = Some r\<rparr>"
    using run_echo [OF assms(1,2)] by blast
  then show ?thesis by (simp add: responses_of_def map_of_map_val)
qed

text \<open>
  Such a handler never makes the provider revoke a response: every key of the state it was run on
  is in its output.
\<close>

lemma run_revokes_none:
  assumes "gomap_ok input" "run env input w = (w', Some out)" "keys state \<subseteq> keys input"
  shows "revoked_keys state (responses_of out) = []"
proof -
  have "map_of (responses_of out) k \<noteq> None" if "(k, e) \<in> set state" for k e
  proof -
    have "k \<in> keys input" using that assms(3) by force
    then show ?thesis using run_answers [OF assms(1,2)] by force
  qed
  then show ?thesis by (fastforce simp: revoked_keys_def filter_empty_conv)
qed

end

text \<open>
  A loop that writes one output entry per input entry, threading a state, satisfies the contract.
\<close>

definition handle_entries ::
  "(string \<Rightarrow> InputEntry \<Rightarrow> 's \<Rightarrow> 's \<times> string) \<Rightarrow> HandlerInput \<Rightarrow> 's \<Rightarrow> 's \<times> HandlerOutput" where
  "handle_entries f input s =
     fold (\<lambda>(key, entry) (s, out).
        let (s', resp) = f key entry s
        in (s', AList.update key \<lparr>OutRequest = InRequest entry, OutResponse = Some resp\<rparr> out)) input (s, [])"

text \<open>The state alone, and the state when the loop reaches each key.\<close>

definition entries_state :: "(string \<Rightarrow> InputEntry \<Rightarrow> 's \<Rightarrow> 's \<times> string) \<Rightarrow> HandlerInput \<Rightarrow> 's \<Rightarrow> 's" where
  "entries_state f input s = fold (\<lambda>(key, entry) s. fst (f key entry s)) input s"

lemma handle_entries_state: "fst (handle_entries f input s) = entries_state f input s"
proof -
  have "fst (fold (\<lambda>(key, entry) (s, out). let (s', resp) = f key entry s
      in (s', AList.update key \<lparr>OutRequest = InRequest entry, OutResponse = Some resp\<rparr> out)) input (s, out))
    = entries_state f input s" for out
    by (induction input arbitrary: s out) (auto simp: entries_state_def case_prod_unfold Let_def)
  then show ?thesis by (simp add: handle_entries_def)
qed

lemma handle_entries_append:
  "handle_entries f (input @ [(key, entry)]) s =
     (let (s1, out) = handle_entries f input s; (s', resp) = f key entry s1
      in (s', AList.update key \<lparr>OutRequest = InRequest entry, OutResponse = Some resp\<rparr> out))"
  by (simp add: handle_entries_def Let_def case_prod_unfold)

lemma handle_entries_ok: "gomap_ok (snd (handle_entries f input s)) \<and> keys (snd (handle_entries f input s)) = keys input"
proof (induction input rule: rev_induct)
  case (snoc x input)
  obtain key entry where x: "x = (key, entry)" by (cases x)
  show ?case using snoc
    by (auto simp: x handle_entries_append Let_def case_prod_unfold gomap keys_update)
qed (simp add: handle_entries_def)

text \<open>The response of a key is that of its own step, in the state left by the keys before it.\<close>

lemma handle_entries_at:
  assumes "gomap_ok (pre @ (key, entry) # post)"
  shows "map_of (snd (handle_entries f (pre @ (key, entry) # post) s)) key
     = Some \<lparr>OutRequest = InRequest entry, OutResponse = Some (snd (f key entry (entries_state f pre s)))\<rparr>"
  using assms
proof (induction post rule: rev_induct)
  case Nil
  show ?case using handle_entries_state [of f pre s]
    by (simp add: handle_entries_append Let_def case_prod_unfold map_of_update)
next
  case (snoc x post)
  obtain k e where x: "x = (k, e)" by (cases x)
  then have "k \<noteq> key" using snoc.prems by auto
  then show ?case using snoc x handle_entries_append [of f "pre @ (key, entry) # post" k e s]
    by (simp add: Let_def case_prod_unfold map_of_update)
qed

lemma handle_entries_echo:
  assumes "gomap_ok input" "map_of input k = Some i"
  shows "\<exists>r. map_of (snd (handle_entries f input s)) k = Some \<lparr>OutRequest = InRequest i, OutResponse = Some r\<rparr>"
proof -
  have "(k, i) \<in> set input" using assms by simp
  then obtain pre post where "input = pre @ (k, i) # post" by (auto simp: in_set_conv_decomp)
  then show ?thesis using handle_entries_at [of pre k i post f s] assms(1) by auto
qed

text \<open>An invariant of the state that every step keeps holds at the end.\<close>

lemma entries_invariant:
  assumes "I s" and "\<And>key entry s. (key, entry) \<in> set input \<Longrightarrow> I s \<Longrightarrow> I (fst (f key entry s))"
  shows "I (entries_state f input s)"
  unfolding entries_state_def
proof (rule fold_invariant_all [where I = I, OF assms(1)])
  fix x s
  assume x: "x \<in> set input" "I s"
  obtain key entry where "x = (key, entry)" by (cases x)
  with assms(2) [of key entry s] x show "I ((\<lambda>(key, entry) s. fst (f key entry s)) x s)" by simp
qed

lemma entries_state_append:
  "entries_state f (pre @ (key, entry) # post) s = entries_state f post (fst (f key entry (entries_state f pre s)))"
  by (simp add: entries_state_def)

text \<open>
  Each response is that of a step in some state, and what holds after that step and is kept by
  the later ones holds at the end.
\<close>

lemma entry_response:
  assumes "gomap_ok input" "(key, entry) \<in> set input"
    and "\<And>pre s1. s1 = entries_state f pre s \<Longrightarrow> set pre \<subseteq> set input \<Longrightarrow> P (f key entry s1)"
    and "\<And>resp key' entry' s1. (key', entry') \<in> set input \<Longrightarrow> P (s1, resp) \<Longrightarrow> P (fst (f key' entry' s1), resp)"
  shows "\<exists>resp. map_of (snd (handle_entries f input s)) key = Some \<lparr>OutRequest = InRequest entry, OutResponse = Some resp\<rparr>
     \<and> P (entries_state f input s, resp)"
proof -
  obtain pre post where i: "input = pre @ (key, entry) # post" using assms(2) by (auto simp: in_set_conv_decomp)
  let ?s1 = "entries_state f pre s"
  obtain s2 resp where r: "f key entry ?s1 = (s2, resp)" by (cases "f key entry ?s1")
  have "P (f key entry ?s1)" by (rule assms(3) [OF refl]) (auto simp: i)
  then have "P (s2, resp)" by (simp add: r)
  then have "P (entries_state f post s2, resp)"
  proof (rule entries_invariant [where I = "\<lambda>s. P (s, resp)"])
    fix k e s'
    assume "(k, e) \<in> set post" "P (s', resp)"
    then show "P (fst (f k e s'), resp)" by (intro assms(4)) (auto simp: i)
  qed
  moreover have "entries_state f input s = entries_state f post s2" unfolding i entries_state_append by (simp add: r)
  moreover have "map_of (snd (handle_entries f input s)) key = Some \<lparr>OutRequest = InRequest entry, OutResponse = Some resp\<rparr>"
    using handle_entries_at [of pre key entry post f s] assms(1) unfolding i by (simp add: r)
  ultimately show ?thesis by auto
qed

end
