(* ===== verification/Handler_Wire.thy ===== *)
theory Handler_Wire
  imports Symmetric_Handler Provider_Calls Json_Compact
begin

text \<open>
  The text between \<open>fort-provider\<close> and a handler of a symmetric capability. The provider writes
  the requests (and cached responses) it keeps as bytes into one JSON object, the handler decodes
  it, and the other way round for its output. What arrives is what was sent, compacted.
\<close>

section \<open>Objects of raw members\<close>

lemma raw_value_reads:
  assumes "reads t v" "delimited r"
  shows "raw_value (t @ r) = Some (t, r)"
proof -
  obtain c s where c: "t = c # s" "value_head c" using reads_head [OF assms(1)] by blast
  then have k: "jskip (t @ r) = t @ r" by (simp add: jskip_def value_head_def)
  have "jvalue (json_fuel (t @ r)) (t @ r) = Some (v, r)"
    by (rule reads_jvalue [OF assms(1) _ assms(2)]) (simp add: json_fuel_def)
  then show ?thesis by (simp add: raw_value_def k Let_def)
qed

definition texts :: "string gomap \<Rightarrow> bool" where
  "texts ms \<longleftrightarrow> (\<forall>(k, t) \<in> set ms. \<exists>v. reads t v)"

abbreviation member_text :: "string \<times> string \<Rightarrow> string" where
  "member_text m \<equiv> json_quote (fst m) @ '':'' @ snd m"

lemma obj_text_members: "obj_text ms = ''{'' @ Join (map member_text ms) '','' @ ''}''"
  by (simp add: obj_text_def case_prod_unfold)

lemma jskip_quote: "jskip (json_quote s @ r) = quote_char # tl (json_quote s) @ r"
proof -
  have "json_quote s @ r = quote_char # tl (json_quote s) @ r" by (subst json_quote_Cons) simp
  then show ?thesis by (simp only: jskip_def dropWhile.simps) (simp add: jspace_def)
qed

lemma raw_members_text:
  "ms \<noteq> [] \<Longrightarrow> texts ms \<Longrightarrow> length ms \<le> n \<Longrightarrow> raw_members n (Join (map member_text ms) '','' @ ''}'') = Some ms"
proof (induction ms arbitrary: n)
  case (Cons m ms)
  obtain k t where m: "m = (k, t)" by (cases m)
  obtain n' where n: "n = Suc n'" using Cons.prems(3) by (cases n) auto
  obtain v where v: "reads t v" using Cons.prems(2) m by (auto simp: texts_def)
  have c: "jskip ('':'' @ s) = CHR '':'' # s" for s by (simp add: jskip_def jspace_def)
  show ?case
  proof (cases "ms = []")
    case True
    have "raw_value (t @ ''}'') = Some (t, ''}'')" by (rule raw_value_reads [OF v]) simp
    then show ?thesis
      by (simp add: n m True jskip_quote jstring_quote c [simplified] jskip_delimited)
  next
    case False
    let ?r = "'','' @ Join (map member_text ms) '','' @ ''}''"
    have "raw_value (t @ ?r) = Some (t, ?r)" by (rule raw_value_reads [OF v]) simp
    moreover have "raw_members n' (Join (map member_text ms) '','' @ ''}'') = Some ms"
      by (rule Cons.IH [OF False]) (use Cons.prems n in \<open>auto simp: texts_def\<close>)
    ultimately show ?thesis
      by (simp add: n m False Join_Cons jskip_quote jstring_quote c [simplified] jskip_delimited)
  qed
qed simp

lemma member_quote: "member_text m = quote_char # tl (json_quote (fst m)) @ '':'' @ snd m"
  by (subst json_quote_Cons) (rule append_Cons)

lemma obj_text_reads:
  assumes "texts ms"
  shows "\<exists>vs. reads (obj_text ms) (JObj (zip (map fst ms) vs)) \<and> length vs = length ms"
proof -
  have "\<forall>m \<in> set ms. \<exists>v. reads (snd m) v" using assms by (auto simp: texts_def)
  then obtain f where f: "\<forall>m \<in> set ms. reads (snd m) (f m)" by (rule bchoice [THEN exE])
  let ?mks = "map (\<lambda>m. (member_text m, fst m, f m)) ms"
  have "reads_member (member_text m) (fst m, f m)" if "m \<in> set ms" for m
    unfolding reads_member_def
  proof (intro exI conjI allI)
    show "member_text m = quote_char # tl (json_quote (fst m)) @ '':'' @ snd m" by (rule member_quote)
    show "reads (snd m) (snd (fst m, f m))" using f that by simp
    fix r
    show "jstring (tl (json_quote (fst m)) @ r) = Some (fst (fst m, f m), r)" by (simp add: jstring_quote)
  qed
  then have "reads (''{'' @ Join (map fst ?mks) '','' @ ''}'') (JObj (map snd ?mks))" by (intro reads_obj) auto
  moreover have "map snd ?mks = zip (map fst ms) (map f ms)" by (induction ms) simp_all
  moreover have "map fst ?mks = map member_text ms" by (simp add: o_def)
  ultimately have "reads (obj_text ms) (JObj (zip (map fst ms) (map f ms)))" by (simp only: obj_text_members)
  then show ?thesis by (intro exI [of _ "map f ms"]) simp
qed

lemma raw_object_text:
  assumes "texts ms"
  shows "raw_object (obj_text ms) = Some ms"
proof -
  obtain vs where vs: "reads (obj_text ms) (JObj (zip (map fst ms) vs))" "length vs = length ms"
    using obj_text_reads [OF assms] by blast
  have p: "json_parse (obj_text ms) = Some (JObj (zip (map fst ms) vs))" by (rule json_parse_reads [OF vs(1)])
  show ?thesis
  proof (cases ms)
    case Nil
    then show ?thesis using p by (simp add: raw_object_def)
  next
    case (Cons m ms')
    then obtain x xs where "zip (map fst ms) vs = x # xs" using vs(2) by (cases vs) auto
    moreover have "jskip (obj_text ms) = obj_text ms" by (simp add: obj_text_members jskip_def jspace_def)
    moreover have "raw_members (length (obj_text ms)) (Join (map member_text ms) '','' @ ''}'') = Some ms"
    proof (rule raw_members_text [OF _ assms])
      have "length xs \<le> length (Join (map member_text xs) '','')" for xs
        by (induction xs rule: induct_list012) (auto simp: json_quote_def)
      then show "length ms \<le> length (obj_text ms)" by (simp add: obj_text_members le_SucI)
    qed (simp add: Cons)
    ultimately show ?thesis using p by (simp add: raw_object_def obj_text_members)
  qed
qed

section \<open>Maps\<close>

lemma map_of_rev: "gomap_ok m \<Longrightarrow> map_of (rev m) = map_of m"
  by (rule map_of_inject_set [THEN iffD2]) (simp_all flip: rev_map)

lemma map_of_members: "map_of (go_map_of_members ms) k = map_of (rev ms) k"
proof -
  have "map_of (fold (\<lambda>(k, v) m. AList.update k v m) ms m) k = (case map_of (rev ms) k of None \<Rightarrow> map_of m k | Some v \<Rightarrow> Some v)" for m
    by (induction ms arbitrary: m) (auto simp: map_of_update map_add_def split: option.splits)
  then show ?thesis by (simp add: go_map_of_members_def split: option.splits)
qed

text \<open>
  Writing a map as an object with sorted keys and decoding the object again: what each member
  decodes to arrives under its key.
\<close>

lemma object_arrives:
  assumes "map_values f m = Some ts" "gomap_ok m"
    and "\<And>x t. f x = Some t \<Longrightarrow> (\<exists>v. reads t v) \<and> g t = Some (h x)"
  shows "raw_object (obj_text (sort_members ts)) = Some (sort_members ts)
     \<and> (\<exists>es. all_some (map (\<lambda>x. g (snd x)) (sort_members ts)) = Some es
          \<and> (\<forall>k. map_of (go_map_of_members (zip (map fst (sort_members ts)) es)) k = map_option h (map_of m k)))"
proof -
  have ts: "map_of ts k = Option.bind (map_of m k) f" "gomap_ok ts" for k
    using map_values_Some [OF assms(1)] assms(2) by simp_all
  let ?s = "sort_members ts"
  have sm: "map_of ?s k = map_of ts k" for k
    using ts(2) by (simp add: sort_members_map_of map_of_rev)
  have ok: "gomap_ok ?s" by (rule sort_members_sorted)
  have mem: "(\<exists>v. reads t v) \<and> (\<exists>x. map_of m k = Some x \<and> g t = Some (h x))" if "(k, t) \<in> set ?s" for k t
  proof -
    have "map_of ?s k = Some t" by (rule map_of_is_SomeI [OF ok that])
    then have "map_of ts k = Some t" by (simp only: sm)
    then show ?thesis using assms(3) ts(1) [of k] by (auto split: Option.bind_splits)
  qed
  have "texts ?s" using mem by (auto simp: texts_def)
  then have r: "raw_object (obj_text ?s) = Some ?s" by (rule raw_object_text)
  define es where "es = map (\<lambda>x. the (g (snd x))) ?s"
  have "g (snd x) = Some (the (g (snd x)))" if "x \<in> set ?s" for x using mem [of "fst x" "snd x"] that by auto
  then have e: "all_some (map (\<lambda>x. g (snd x)) ?s) = Some es" unfolding all_some_Some es_def by simp
  have z: "zip (map fst ?s) es = map (\<lambda>(k, t). (k, the (g t))) ?s" by (simp add: es_def zip_map1 zip_map2 case_prod_unfold zip_same_conv_map o_def)
  have "map_of (go_map_of_members (zip (map fst ?s) es)) k = map_option h (map_of m k)" for k
  proof -
    have "map_of (rev (map (\<lambda>(k, t). (k, the (g t))) ?s)) k = map_option (\<lambda>t. the (g t)) (map_of ?s k)"
    proof -
      have "gomap_ok (map (\<lambda>(k, t). (k, the (g t))) ?s)" using ok by (simp add: o_def case_prod_unfold)
      then show ?thesis by (simp only: map_of_rev map_of_map_val)
    qed
    also have "\<dots> = map_option h (map_of m k)"
    proof (cases "map_of ?s k")
      case (Some t)
      then show ?thesis using mem [OF map_of_SomeD [OF Some]] by auto
    next
      case None
      then have "map_of m k = None"
      proof (cases "map_of m k")
        case (Some x)
        then have "k \<in> keys ts" using map_values_Some [OF assms(1)] by (metis domI dom_map_of_conv_image_fst list.set_map)
        then show ?thesis using None sm by (simp add: map_of_eq_None_iff)
      qed simp
      then show ?thesis using None by simp
    qed
    finally show ?thesis unfolding z map_of_members .
  qed
  then show ?thesis using r e by blast
qed

section \<open>What arrives\<close>

definition received :: "raw \<Rightarrow> string" where
  "received r = (case r of None \<Rightarrow> ''null'' | Some b \<Rightarrow> json_compact b)"

definition arrives :: "InputEntry \<Rightarrow> InputEntry" where
  "arrives e = \<lparr>InRequest = Some (received (InRequest e)),
     InResponse = (if raw_len (InResponse e) = 0 then None else Some (received (InResponse e)))\<rparr>"

lemma marshal_raw_received: "marshal_raw r = Some t \<Longrightarrow> t = received r \<and> (\<exists>v. reads t v)"
  using reads_literals(1) compact_reads
  by (cases r) (auto simp: marshal_raw_def received_def json_valid_def split: if_splits)

lemma two_members:
  assumes "reads rq v" "reads rs w"
  shows "raw_object (obj_text [(''request'', rq), (''response'', rs)]) = Some [(''request'', rq), (''response'', rs)]"
    and "raw_object (obj_text [(''request'', rq)]) = Some [(''request'', rq)]"
    and "\<exists>x. reads (obj_text [(''request'', rq), (''response'', rs)]) x"
    and "\<exists>x. reads (obj_text [(''request'', rq)]) x"
proof -
  have t: "texts [(''request'', rq), (''response'', rs)]" "texts [(''request'', rq)]" using assms by (auto simp: texts_def)
  show "raw_object (obj_text [(''request'', rq), (''response'', rs)]) = Some [(''request'', rq), (''response'', rs)]"
    "raw_object (obj_text [(''request'', rq)]) = Some [(''request'', rq)]" by (rule raw_object_text t)+
  show "\<exists>x. reads (obj_text [(''request'', rq), (''response'', rs)]) x" using obj_text_reads [OF t(1)] by blast
  show "\<exists>x. reads (obj_text [(''request'', rq)]) x" using obj_text_reads [OF t(2)] by blast
qed

lemma field_names:
  "\<not> fold_eq ''request'' ''response''" "\<not> fold_eq ''response'' ''request''" "fold_eq ''request'' ''request''" "fold_eq ''response'' ''response''"
  by code_simp+

lemma entry_arrives:
  assumes "marshal_input_entry e = Some t"
  shows "(\<exists>v. reads t v) \<and> decode_input_entry t = Some (arrives e)"
proof -
  obtain rq where rq: "marshal_raw (InRequest e) = Some rq" using assms by (auto simp: marshal_input_entry_def split: option.splits)
  obtain v where v: "rq = received (InRequest e)" "reads rq v" using marshal_raw_received [OF rq] by blast
  show ?thesis
  proof (cases "raw_len (InResponse e) = 0")
    case True
    then have "t = obj_text [(''request'', rq)]" using assms rq by (simp add: marshal_input_entry_def)
    then show ?thesis using True v two_members(2,4) [OF v(2) v(2)]
      by (simp add: decode_input_entry_def dec_field_def field_names arrives_def)
  next
    case False
    then obtain rs where rs: "marshal_raw (InResponse e) = Some rs" "t = obj_text [(''request'', rq), (''response'', rs)]"
      using assms rq by (auto simp: marshal_input_entry_def)
    obtain w where w: "rs = received (InResponse e)" "reads rs w" using marshal_raw_received [OF rs(1)] by blast
    show ?thesis using False v(1) w(1) rs(2) two_members(1,3) [OF v(2) w(2)]
      by (simp add: decode_input_entry_def dec_field_def field_names arrives_def)
  qed
qed

lemma input_arrives:
  assumes "marshal_input input = Some data" "gomap_ok input"
  shows "\<exists>input'. decodeHandlerInput data = Some input' \<and> gomap_ok input'
     \<and> (\<forall>k. map_of input' k = map_option arrives (map_of input k))"
proof -
  obtain ts where ts: "map_values marshal_input_entry input = Some ts" "data = obj_text (sort_members ts)"
    using assms(1) by (auto simp: marshal_input_def)
  from object_arrives [where h = arrives, OF ts(1) assms(2) entry_arrives]
  obtain es where es: "raw_object data = Some (sort_members ts)"
    "all_some (map (\<lambda>x. decode_input_entry (snd x)) (sort_members ts)) = Some es"
    "\<forall>k. map_of (go_map_of_members (zip (map fst (sort_members ts)) es)) k = map_option arrives (map_of input k)"
    using ts(2) by blast
  then show ?thesis by (simp add: decodeHandlerInput_def go_map_of_members_ok)
qed

lemma output_entry_arrives:
  assumes "marshal_output_entry e = Some t"
  shows "(\<exists>v. reads t v) \<and> symmetric_response t = Some (Some (received (OutResponse e)))"
proof -
  obtain rq rs where r: "marshal_raw (OutRequest e) = Some rq" "marshal_raw (OutResponse e) = Some rs"
    "t = obj_text [(''request'', rq), (''response'', rs)]"
    using assms by (auto simp: marshal_output_entry_def split: Option.bind_splits)
  obtain v where v: "reads rq v" using marshal_raw_received [OF r(1)] by blast
  obtain w where w: "rs = received (OutResponse e)" "reads rs w" using marshal_raw_received [OF r(2)] by blast
  show ?thesis using w(1) r(3) two_members(1,3) [OF v w(2)]
    by (simp add: symmetric_response_def dec_field_def field_names)
qed

lemma output_arrives:
  assumes "writeOutput out = Some data" "gomap_ok out"
  shows "\<exists>resps. parseHandlerOutput data ''symmetric'' = Some resps \<and> gomap_ok resps
     \<and> (\<forall>k. map_of resps k = map_option (\<lambda>e. Some (received (OutResponse e))) (map_of out k))"
proof -
  obtain ts where ts: "map_values marshal_output_entry out = Some ts" "data = obj_text (sort_members ts)"
    using assms(1) by (auto simp: writeOutput_def)
  from object_arrives [where h = "\<lambda>e. Some (received (OutResponse e))", OF ts(1) assms(2) output_entry_arrives]
  obtain es where es: "raw_object data = Some (sort_members ts)"
    "all_some (map (\<lambda>x. symmetric_response (snd x)) (sort_members ts)) = Some es"
    "\<forall>k. map_of (go_map_of_members (zip (map fst (sort_members ts)) es)) k
        = map_option (\<lambda>e. Some (received (OutResponse e))) (map_of out k)"
    using ts(2) by blast
  then show ?thesis by (simp add: parseHandlerOutput_def go_map_of_members_ok)
qed

section \<open>A call over the wire\<close>

text \<open>
  \<open>f\<close> is what a handler computes from its decoded input; a process whose output the provider
  can parse printed that and nothing else.
\<close>

definition answers_with :: "(HandlerInput \<Rightarrow> HandlerOutput option) \<Rightarrow> (string \<Rightarrow> ExecResult) \<Rightarrow> bool" where
  "answers_with f process \<longleftrightarrow>
     (\<forall>input printed. process input = ExecOk printed \<and> parseHandlerOutput printed ''symmetric'' \<noteq> None \<longrightarrow>
       (\<exists>entries out. decodeHandlerInput input = Some entries \<and> f entries = Some out \<and> writeOutput out = Some printed))"

text \<open>What the provider gives the handler for an entry.\<close>

definition sent_entry :: "CapabilityConfig \<Rightarrow> ProviderStateEntry \<Rightarrow> InputEntry" where
  "sent_entry cfg e = arrives \<lparr>InRequest = Request e, InResponse = (if CacheResponse cfg then Response e else None)\<rparr>"

definition call_input :: "HostEnv \<Rightarrow> Agent \<Rightarrow> string \<Rightarrow> string \<Rightarrow> string \<Rightarrow> CapabilityConfig \<Rightarrow> string option" where
  "call_input env a cap origin body cfg =
     marshal_input (build_input (CacheResponse cfg) (getProviderState (recorded env a cap origin body) cap))"

definition call_env :: "string \<Rightarrow> string \<Rightarrow> string gomap" where
  "call_env cap origin = [(''FORT_ORIGIN'', origin), (''FORT_CAPABILITY'', cap), (''FORT_MODE'', ''async'')]"

context symmetric_handler begin

text \<open>
  A call that was answered is one run of the handler on the entries of the capability: the
  responses the provider goes on with are, key by key, those of the run.
\<close>

lemma call_is_run:
  assumes "handler_answers env a cap origin body cfg resps" and "state_ok (providerState a)"
    and "Format cfg = ''symmetric''"
    and "answers_with (\<lambda>es. snd (run henv es w)) (RunHandler env (handler_path cap) (call_env cap origin))"
  shows "\<exists>data entries out. call_input env a cap origin body cfg = Some data \<and> decodeHandlerInput data = Some entries
    \<and> snd (run henv entries w) = Some out \<and> gomap_ok entries \<and> gomap_ok out
    \<and> (\<forall>k. map_of entries k = map_option (sent_entry cfg) (recorded_entry env a cap origin body k))
    \<and> (\<forall>k. map_of resps k = map_option (\<lambda>e. Some (received (OutResponse e))) (map_of out k))
    \<and> keys out = keys entries"
proof -
  let ?state = "getProviderState (recorded env a cap origin body) cap"
  let ?input = "build_input (CacheResponse cfg) ?state"
  obtain data printed where d: "marshal_input ?input = Some data"
    and o: "RunHandler env (handler_path cap) (call_env cap origin) data = ExecOk printed"
      "parseHandlerOutput printed (Format cfg) = Some resps"
    using assms(1) by (auto simp: handler_answers_def call_env_def split: option.splits ExecResult.splits)
  have sok: "gomap_ok ?state" by (rule state_ok_get) (rule state_ok_recorded [OF assms(2)])
  then have iok: "gomap_ok ?input" by (simp add: build_input_def o_def case_prod_unfold)
  have im: "map_of ?input k = map_option (\<lambda>e. \<lparr>InRequest = Request e, InResponse = (if CacheResponse cfg then Response e else None)\<rparr>)
      (recorded_entry env a cap origin body k)" for k
    unfolding build_input_def map_of_map_val by (simp add: recorded_entry)
  obtain entries where e: "decodeHandlerInput data = Some entries" "gomap_ok entries"
    "\<And>k. map_of entries k = map_option arrives (map_of ?input k)"
    using input_arrives [OF d iok] by blast
  obtain out where r: "snd (run henv entries w) = Some out" "writeOutput out = Some printed"
    using assms(3,4) o e(1) unfolding answers_with_def by fastforce
  then have "run henv entries w = (fst (run henv entries w), Some out)" by (metis prod.collapse)
  from run_keys [OF e(2) this] have ok: "gomap_ok out" "keys out = keys entries" by blast+
  have "\<forall>k. map_of resps k = map_option (\<lambda>e. Some (received (OutResponse e))) (map_of out k)"
    using output_arrives [OF r(2) ok(1)] o(2) assms(3) by auto
  moreover have "\<forall>k. map_of entries k = map_option (sent_entry cfg) (recorded_entry env a cap origin body k)"
    unfolding e(3) im by (simp add: option.map_comp o_def sent_entry_def [abs_def])
  ultimately show ?thesis using d r(1) e(1,2) ok unfolding call_input_def by blast
qed

end

end
