(* ===== verification/Forgejo_Provider.thy ===== *)
theory Forgejo_Provider
  imports Handler_Wire
begin

text \<open>
  \<open>apps/forgejo/provider\<close>: the handler that gives hosts access tokens of the git server. It
  keeps one token per host and access level in a file, renews it when less than two hours of its
  day are left, and revokes the tokens no request asks for any more. The commands it runs
  (\<open>su\<close> with the server's own program, \<open>sqlite3\<close>) are parameters; the world holds the files,
  the commands run so far and what went to standard output.
\<close>

section \<open>types.go\<close>

record GitTokenRequest =
  Access :: string
  GitNeedID :: string

record GitTokenResponse =
  Token :: string
  Username :: string
  TokenTTL :: int
  TokenError :: string

record StoredToken =
  StoredValue :: string
  StoredExpiry :: int

definition request_fields :: "(string \<times> json) list \<Rightarrow> GitTokenRequest option" where
  "request_fields ms =
     Option.bind (dec_field ''access'' dec_string [] ms) (\<lambda>a.
     Option.bind (dec_field ''_fort_need_id'' dec_string [] ms) (\<lambda>n. Some \<lparr>Access = a, GitNeedID = n\<rparr>))"

definition token_response_json :: "GitTokenResponse \<Rightarrow> string" where
  "token_response_json r = json_print (JObj
     ((if Token r = [] then [] else [(''token'', JStr (Token r))])
      @ (if Username r = [] then [] else [(''username'', JStr (Username r))])
      @ (if TokenTTL r = 0 then [] else [(''ttl'', JNum (Itoa (TokenTTL r)))])
      @ (if TokenError r = [] then [] else [(''error'', JStr (TokenError r))])))"

definition token_error :: "string \<Rightarrow> GitTokenResponse" where
  "token_error msg = \<lparr>Token = [], Username = [], TokenTTL = 0, TokenError = msg\<rparr>"

definition stored_json :: "StoredToken \<Rightarrow> string" where
  "stored_json t = json_print (JObj [(''token'', JStr (StoredValue t)), (''expiry'', JNum (Itoa (StoredExpiry t)))])"

definition stored_fields :: "(string \<times> json) list \<Rightarrow> StoredToken option" where
  "stored_fields ms =
     Option.bind (dec_field ''token'' dec_string [] ms) (\<lambda>t.
     Option.bind (dec_field ''expiry'' dec_int 0 ms) (\<lambda>e. Some \<lparr>StoredValue = t, StoredExpiry = e\<rparr>))"

definition stored_of :: "string \<Rightarrow> StoredToken option" where
  "stored_of = unmarshal_struct stored_fields"

section \<open>forgejo.go\<close>

record ForgejoClient =
  forgejoPackage :: string
  suPath :: string
  sqlite3Path :: string
  workDir :: string
  customDir :: string
  dbPath :: string

definition NewForgejoClient :: "string \<Rightarrow> string \<Rightarrow> string \<Rightarrow> ForgejoClient" where
  "NewForgejoClient package su sqlite3 =
     \<lparr>forgejoPackage = package, suPath = su, sqlite3Path = sqlite3, workDir = ''/var/lib/forgejo'',
      customDir = ''/var/lib/forgejo/custom'', dbPath = ''/var/lib/forgejo/data/forgejo.db''\<rparr>"

text \<open>A command is its program and arguments.\<close>

type_synonym Command = "string list"

text \<open>
  \<open>RunCommand\<close>: the error of a command, if any, and its combined output, which may depend on
  the commands before it. \<open>SaveFileError\<close> and \<open>RemoveError\<close> are by file name.
\<close>

record ForgejoEnv =
  Client :: ForgejoClient
  ForgejoNow :: int
  RunCommand :: "Command list \<Rightarrow> Command \<Rightarrow> string option \<times> string"
  SaveFileError :: "string \<Rightarrow> string option"
  RemoveError :: "string \<Rightarrow> string option"
  ReadDirError :: "string option"
  TokenDirError :: "string option"

record ForgejoWorld =
  tokenFiles :: "string gomap"
  commands :: "Command list"
  stdout :: string

definition run_command :: "ForgejoEnv \<Rightarrow> Command \<Rightarrow> ForgejoWorld \<Rightarrow> ForgejoWorld \<times> string option \<times> string" where
  "run_command env cmd w = (w\<lparr>commands := commands w @ [cmd]\<rparr>, RunCommand env (commands w) cmd)"

definition generate_command :: "ForgejoClient \<Rightarrow> string \<Rightarrow> string \<Rightarrow> Command" where
  "generate_command c tokenName scopes =
     [suPath c, ''-s'', ''/bin/sh'', ''forgejo'', ''-c'',
      ''GITEA_WORK_DIR='' @ workDir c @ '' GITEA_CUSTOM='' @ customDir c @ '' '' @ forgejoPackage c
        @ ''/bin/forgejo admin user generate-access-token --username forge-admin --token-name '' @ tokenName
        @ '' --scopes '' @ scopes @ '' --raw'']"

definition revoke_command :: "ForgejoClient \<Rightarrow> string \<Rightarrow> Command" where
  "revoke_command c tokenName =
     [sqlite3Path c, dbPath c, ''DELETE FROM access_token WHERE name = '' @ [CHR 0x27] @ tokenName @ [CHR 0x27] @ '';'']"

definition GenerateToken :: "ForgejoEnv \<Rightarrow> string \<Rightarrow> string \<Rightarrow> ForgejoWorld \<Rightarrow> ForgejoWorld \<times> (string + string)" where
  "GenerateToken env tokenName scopes w =
     (case run_command env (generate_command (Client env) tokenName scopes) w of
        (w', Some err, output) \<Rightarrow> (w', Inl (''generate token failed: '' @ err @ '' (output: '' @ output @ '')''))
      | (w', None, output) \<Rightarrow>
          (let result = TrimSpace output in
           if Contains (ToLower result) ''error'' then (w', Inl (''generate token failed: '' @ result))
           else (w', Inr result)))"

text \<open>A failure of the revocation is reported on standard output, like the handler's answer.\<close>

definition RevokeToken :: "ForgejoEnv \<Rightarrow> string \<Rightarrow> ForgejoWorld \<Rightarrow> ForgejoWorld" where
  "RevokeToken env tokenName w =
     (case run_command env (revoke_command (Client env) tokenName) w of
        (w', Some err, output) \<Rightarrow>
          w'\<lparr>stdout := stdout w' @ ''revoke token warning: '' @ err @ '' (output: '' @ output @ '')'' @ [CHR 0x0A]\<rparr>
      | (w', None, _) \<Rightarrow> w')"

section \<open>main.go\<close>

abbreviation tokenTTL :: int where "tokenTTL \<equiv> 86400"
abbreviation token_rotation :: int where "token_rotation \<equiv> 7200"

text \<open>Files are named within \<open>/var/lib/forgejo/tokens\<close>; origins hold no slash.\<close>

definition loadStoredToken :: "string \<Rightarrow> ForgejoWorld \<Rightarrow> StoredToken option" where
  "loadStoredToken file w =
     (case map_of (tokenFiles w) file of
        None \<Rightarrow> None
      | Some data \<Rightarrow>
          (case stored_of data of
             None \<Rightarrow> None
           | Some stored \<Rightarrow> if StoredValue stored = [] then None else Some stored))"

definition saveStoredToken :: "ForgejoEnv \<Rightarrow> string \<Rightarrow> string \<Rightarrow> int \<Rightarrow> ForgejoWorld \<Rightarrow> ForgejoWorld" where
  "saveStoredToken env file token expiry w =
     (case SaveFileError env file of
        Some err \<Rightarrow> w
      | None \<Rightarrow> w\<lparr>tokenFiles := AList.update file (stored_json \<lparr>StoredValue = token, StoredExpiry = expiry\<rparr>) (tokenFiles w)\<rparr>)"

definition token_scopes :: "string \<Rightarrow> string" where
  "token_scopes access = (if access = ''rw'' then ''read:repository,write:repository'' else ''read:repository'')"

definition good_response :: "string \<Rightarrow> int \<Rightarrow> GitTokenResponse" where
  "good_response token ttl = \<lparr>Token = token, Username = ''forge-admin'', TokenTTL = ttl, TokenError = []\<rparr>"

definition token_name :: "string \<Rightarrow> string \<Rightarrow> string" where
  "token_name origin access = origin @ ''-'' @ access"

definition regenerate :: "ForgejoEnv \<Rightarrow> string \<Rightarrow> string \<Rightarrow> ForgejoWorld \<Rightarrow> ForgejoWorld \<times> GitTokenResponse" where
  "regenerate env name access w =
     (case GenerateToken env name (token_scopes access) (RevokeToken env name w) of
        (w', Inl err) \<Rightarrow> (w', token_error ''failed to generate token'')
      | (w', Inr token) \<Rightarrow>
          (saveStoredToken env name token (ForgejoNow env + tokenTTL) w', good_response token tokenTTL))"

definition processToken :: "ForgejoEnv \<Rightarrow> string \<Rightarrow> string \<Rightarrow> ForgejoWorld \<Rightarrow> ForgejoWorld \<times> GitTokenResponse" where
  "processToken env origin access w =
     (let name = token_name origin access in
      case loadStoredToken name w of
        Some stored \<Rightarrow>
          (let remaining = wrap64 (StoredExpiry stored - ForgejoNow env) in
           if remaining > token_rotation then (w, good_response (StoredValue stored) remaining)
           else regenerate env name access w)
      | None \<Rightarrow> regenerate env name access w)"

definition rwHosts :: "string list" where
  "rwHosts = [''ratched'', ''obrien'']"

text \<open>The access level of a request, or why it is refused.\<close>

definition wanted_access :: "string \<Rightarrow> InputEntry \<Rightarrow> string + string" where
  "wanted_access key entry =
     (let origin = hd (Split CHR '':'' key) in
      case unmarshal_struct request_fields (raw_bytes (InRequest entry)) of
        None \<Rightarrow> Inl ''invalid request format''
      | Some req \<Rightarrow>
          (let access = (if Access req = [] then ''ro'' else Access req) in
           if access \<noteq> ''ro'' \<and> access \<noteq> ''rw'' then Inl ''access must be ro or rw''
           else if access = ''rw'' \<and> origin \<notin> set rwHosts then Inl ''rw access not permitted for this host''
           else Inr access))"

text \<open>One turn of the loop; the state carries the files expected to exist.\<close>

definition process_entry ::
  "ForgejoEnv \<Rightarrow> string \<Rightarrow> InputEntry \<Rightarrow> ForgejoWorld \<times> string list \<Rightarrow> (ForgejoWorld \<times> string list) \<times> string" where
  "process_entry env key entry s =
     (case s of (w, expectedFiles) \<Rightarrow>
        case wanted_access key entry of
          Inl msg \<Rightarrow> ((w, expectedFiles), token_response_json (token_error msg))
        | Inr access \<Rightarrow>
            (let origin = hd (Split CHR '':'' key);
                 (w', resp) = processToken env origin access w
             in ((w', token_name origin access # expectedFiles), token_response_json resp)))"

definition collect_one :: "ForgejoEnv \<Rightarrow> string list \<Rightarrow> string \<Rightarrow> ForgejoWorld \<Rightarrow> ForgejoWorld" where
  "collect_one env expectedFiles name w =
     (if name \<in> set expectedFiles then w
      else
        (let w' = RevokeToken env name w in
         case RemoveError env name of
           Some err \<Rightarrow> w'
         | None \<Rightarrow> w'\<lparr>tokenFiles := AList.delete name (tokenFiles w')\<rparr>))"

definition garbageCollect :: "ForgejoEnv \<Rightarrow> string list \<Rightarrow> ForgejoWorld \<Rightarrow> ForgejoWorld" where
  "garbageCollect env expectedFiles w =
     (case ReadDirError env of
        Some err \<Rightarrow> w
      | None \<Rightarrow> fold (collect_one env expectedFiles) (map fst (tokenFiles w)) w)"

definition processEntries :: "ForgejoEnv \<Rightarrow> HandlerInput \<Rightarrow> ForgejoWorld \<Rightarrow> ForgejoWorld \<times> HandlerOutput option" where
  "processEntries env input w =
     (case handle_entries (process_entry env) input (w, []) of
        ((w', expectedFiles), out) \<Rightarrow> (garbageCollect env expectedFiles w', Some out))"

text \<open>
  \<open>main\<close> on standard input: exit status 1 when the input is no JSON of its type, the directory of the tokens cannot be made or the output
  cannot be written as JSON, else the output after whatever was printed before it.
\<close>

definition forgejo_main :: "ForgejoEnv \<Rightarrow> string \<Rightarrow> ForgejoWorld \<Rightarrow> ForgejoWorld \<times> ExecResult" where
  "forgejo_main env input w =
     (case decodeHandlerInput input of
        None \<Rightarrow> (w, ExecExit ''invalid input JSON'' (stdout w))
      | Some entries \<Rightarrow>
          (case TokenDirError env of
             Some err \<Rightarrow> (w, ExecExit (''failed to create token dir: '' @ err) (stdout w))
           | None \<Rightarrow>
               (case processEntries env entries w of
                  (w', None) \<Rightarrow> (w', ExecExit ''processing failed'' (stdout w'))
                | (w', Some out) \<Rightarrow>
                    (case writeOutput out of
                       None \<Rightarrow> (w', ExecExit ''failed to marshal output'' (stdout w'))
                     | Some data \<Rightarrow> (w', ExecOk (stdout w' @ data))))))"

section \<open>Lemmas\<close>

interpretation forgejo: symmetric_handler processEntries
proof
  fix env input w w' out k i
  assume ok: "gomap_ok input" and r: "processEntries env input w = (w', Some out)"
  obtain s where h: "handle_entries (process_entry env) input (w, []) = (s, out)"
    using r by (auto simp: processEntries_def split: prod.splits)
  then show "gomap_ok out \<and> keys out = keys input"
    using handle_entries_ok [of "process_entry env" input "(w, [])"] by simp
  assume "map_of input k = Some i"
  then show "\<exists>r. map_of out k = Some \<lparr>OutRequest = InRequest i, OutResponse = Some r\<rparr>"
    using handle_entries_echo [OF ok, of k i "process_entry env" "(w, [])"] h by simp
qed

lemma stored_in_range: "int64_ok (StoredExpiry t) \<Longrightarrow> stored_of (stored_json t) = Some t"
proof -
  assume e: "int64_ok (StoredExpiry t)"
  let ?ms = "[(''token'', JStr (StoredValue t)), (''expiry'', JNum (Itoa (StoredExpiry t)))]"
  have ne: "\<not> fold_eq ''expiry'' ''token''" "\<not> fold_eq ''token'' ''expiry''" by code_simp+
  have "json_ints (JObj ?ms)" by auto
  then have "stored_of (stored_json t) = stored_fields ?ms"
    unfolding stored_of_def stored_json_def by (rule unmarshal_printed)
  also have "\<dots> = Some t"
    using e by (simp add: stored_fields_def dec_field_def fold_eq_refl ne dec_string_def dec_int_def ParseInt_Itoa)
  finally show ?thesis .
qed

interpretation stored_codec: json_codec stored_json stored_of "\<lambda>t. int64_ok (StoredExpiry t)"
  by unfold_locales (rule stored_in_range)

lemma load_saved:
  assumes "int64_ok expiry"
  shows "loadStoredToken file' (saveStoredToken env file token expiry w) =
    (if file' = file \<and> SaveFileError env file = None
     then (if token = [] then None else Some \<lparr>StoredValue = token, StoredExpiry = expiry\<rparr>)
     else loadStoredToken file' w)"
  using assms by (auto simp: loadStoredToken_def saveStoredToken_def map_of_update stored_in_range split: option.splits)

subsection \<open>Effects of one request\<close>

lemma run_command_fields [simp]:
  "fst (run_command env cmd w) = w\<lparr>commands := commands w @ [cmd]\<rparr>"
  "snd (run_command env cmd w) = RunCommand env (commands w) cmd"
  by (simp_all add: run_command_def)

lemma RevokeToken_effect:
  "tokenFiles (RevokeToken env name w) = tokenFiles w"
  "commands (RevokeToken env name w) = commands w @ [revoke_command (Client env) name]"
  "fst (RunCommand env (commands w) (revoke_command (Client env) name)) = None \<Longrightarrow> stdout (RevokeToken env name w) = stdout w"
  "\<exists>t. stdout (RevokeToken env name w) = stdout w @ t \<and> (t = [] \<or> hd t = CHR ''r'')"
  by (auto simp: RevokeToken_def run_command_def split: prod.splits option.splits)

lemma GenerateToken_effect:
  assumes "GenerateToken env name scopes w = (w', r)"
  shows "tokenFiles w' = tokenFiles w" "commands w' = commands w @ [generate_command (Client env) name scopes]" "stdout w' = stdout w"
  using assms by (auto simp: GenerateToken_def run_command_def Let_def split: prod.splits option.splits if_splits)

lemma saveStoredToken_effect [simp]:
  "commands (saveStoredToken env file token expiry w) = commands w" "stdout (saveStoredToken env file token expiry w) = stdout w"
  "keys (tokenFiles (saveStoredToken env file token expiry w)) \<subseteq> insert file (keys (tokenFiles w))"
  "keys (tokenFiles w) \<subseteq> keys (tokenFiles (saveStoredToken env file token expiry w))"
  by (auto simp: saveStoredToken_def keys_update split: option.splits)

lemma regenerate_outcome:
  assumes "regenerate env name access w = (w', resp)"
  obtains w1 where "resp = token_error ''failed to generate token''" "w' = w1" "tokenFiles w1 = tokenFiles w"
      "commands w1 = commands w @ [revoke_command (Client env) name, generate_command (Client env) name (token_scopes access)]"
      "stdout w1 = stdout (RevokeToken env name w)"
  | w1 token where "resp = good_response token tokenTTL" "w' = saveStoredToken env name token (ForgejoNow env + tokenTTL) w1"
      "tokenFiles w1 = tokenFiles w"
      "commands w1 = commands w @ [revoke_command (Client env) name, generate_command (Client env) name (token_scopes access)]"
      "stdout w1 = stdout (RevokeToken env name w)"
proof -
  obtain w1 r where g: "GenerateToken env name (token_scopes access) (RevokeToken env name w) = (w1, r)"
    by (cases "GenerateToken env name (token_scopes access) (RevokeToken env name w)")
  note e = GenerateToken_effect [OF g]
  show thesis
    using assms g e that by (cases r) (auto simp: regenerate_def RevokeToken_effect)
qed

lemma load_cong: "tokenFiles w = tokenFiles w' \<Longrightarrow> loadStoredToken f w = loadStoredToken f w'"
  by (simp add: loadStoredToken_def)

text \<open>A file whose token is good for more than two hours.\<close>

definition lasting :: "ForgejoEnv \<Rightarrow> string \<Rightarrow> string \<Rightarrow> int \<Rightarrow> ForgejoWorld \<Rightarrow> bool" where
  "lasting env name token ttl w \<longleftrightarrow>
     (\<exists>e. loadStoredToken name w = Some \<lparr>StoredValue = token, StoredExpiry = e\<rparr>
        \<and> wrap64 (e - ForgejoNow env) = ttl \<and> token_rotation < ttl)"

lemma processToken_lasting:
  assumes "lasting env name token ttl w" "processToken env origin access w = (w', resp)" "int64_ok (ForgejoNow env + tokenTTL)"
  shows "lasting env name token ttl w'"
proof (cases "token_name origin access = name")
  case True
  then have "w' = w" using assms(1,2) by (auto simp: processToken_def Let_def lasting_def)
  then show ?thesis using assms(1) by simp
next
  case False
  let ?n = "token_name origin access"
  have "loadStoredToken name w' = loadStoredToken name w"
  proof (cases "w' = w")
    case F: False
    then have "regenerate env ?n access w = (w', resp)" using assms(2)
      by (auto simp: processToken_def Let_def split: option.splits if_splits)
    then show ?thesis
    proof (cases rule: regenerate_outcome)
      case (1 w1)
      then show ?thesis by (simp add: loadStoredToken_def)
    next
      case (2 w1 token)
      have "loadStoredToken name w1 = loadStoredToken name w" by (rule load_cong [OF 2(3)])
      then show ?thesis using 2(2) load_saved [OF assms(3)] False by simp
    qed
  qed simp
  then show ?thesis using assms(1) by (simp add: lasting_def)
qed

lemma processToken_response:
  assumes "processToken env origin access w = (w', resp)" "int64_ok (ForgejoNow env + tokenTTL)"
    and "SaveFileError env (token_name origin access) = None"
  obtains "resp = token_error ''failed to generate token''"
  | "resp = good_response [] tokenTTL"
  | token ttl where "resp = good_response token ttl" "token \<noteq> []" "lasting env (token_name origin access) token ttl w'"
proof -
  let ?n = "token_name origin access"
  show thesis
  proof (cases "regenerate env ?n access w = (w', resp)")
    case True
    then show thesis
    proof (cases rule: regenerate_outcome)
      case (1 w1)
      then show thesis using that(1) by simp
    next
      case (2 w1 token)
      have "lasting env ?n token tokenTTL w'" if "token \<noteq> []"
        using that 2 load_saved [OF assms(2)] assms(3) by (auto simp: lasting_def int64_ok_def)
      then show thesis using 2(1) that(2,3) by (cases "token = []") auto
    qed
  next
    case False
    then obtain stored where s: "loadStoredToken ?n w = Some stored" "wrap64 (StoredExpiry stored - ForgejoNow env) > token_rotation"
        "w' = w" "resp = good_response (StoredValue stored) (wrap64 (StoredExpiry stored - ForgejoNow env))"
      using assms(1) by (auto simp: processToken_def Let_def split: option.splits if_splits)
    have "StoredValue stored \<noteq> []" using s(1) by (auto simp: loadStoredToken_def split: option.splits if_splits)
    moreover have "lasting env ?n (StoredValue stored) (wrap64 (StoredExpiry stored - ForgejoNow env)) w'"
      using s by (auto simp: lasting_def intro!: exI [of _ "StoredExpiry stored"])
    ultimately show thesis using that(3) s(4) by blast
  qed
qed

subsection \<open>Garbage collection\<close>

lemma collect_one_effect:
  "tokenFiles (collect_one env ex name w) =
     (if name \<in> set ex \<or> RemoveError env name \<noteq> None then tokenFiles w else AList.delete name (tokenFiles w))"
  "commands (collect_one env ex name w) = commands w @ (if name \<in> set ex then [] else [revoke_command (Client env) name])"
  by (auto simp: collect_one_def Let_def RevokeToken_effect split: option.splits)

lemma collect_all_effect:
  "map_of (tokenFiles (fold (collect_one env ex) ns w)) n =
     (if n \<in> set ns \<and> n \<notin> set ex \<and> RemoveError env n = None then None else map_of (tokenFiles w) n)"
  "commands (fold (collect_one env ex) ns w) = commands w @ map (revoke_command (Client env)) (filter (\<lambda>n. n \<notin> set ex) ns)"
  by (induction ns arbitrary: w) (auto simp: collect_one_effect map_of_delete)

lemma garbageCollect_effect:
  "map_of (tokenFiles (garbageCollect env ex w)) n =
     (if ReadDirError env = None \<and> n \<notin> set ex \<and> RemoveError env n = None then None else map_of (tokenFiles w) n)"
  "commands (garbageCollect env ex w) = commands w @
     (if ReadDirError env = None then map (revoke_command (Client env)) (filter (\<lambda>n. n \<notin> set ex) (map fst (tokenFiles w))) else [])"
  by (auto simp: garbageCollect_def collect_all_effect map_of_eq_None_iff split: option.splits)

subsection \<open>Effects of a run\<close>

lemma run_parts:
  assumes "processEntries env input w = (w', Some out)"
  obtains w1 ex where "entries_state (process_entry env) input (w, []) = (w1, ex)"
    "out = snd (handle_entries (process_entry env) input (w, []))" "w' = garbageCollect env ex w1"
proof -
  obtain w1 ex out' where h: "handle_entries (process_entry env) input (w, []) = ((w1, ex), out')"
    by (cases "handle_entries (process_entry env) input (w, [])") (metis prod.exhaust)
  moreover have "entries_state (process_entry env) input (w, []) = (w1, ex)"
    using h handle_entries_state [of "process_entry env" input "(w, [])"] by simp
  ultimately show thesis using assms that [of w1 ex] by (simp add: processEntries_def)
qed

lemma process_entry_cases:
  obtains msg where "wanted_access key entry = Inl msg" "process_entry env key entry (w, ex) = ((w, ex), token_response_json (token_error msg))"
  | access w1 resp where "wanted_access key entry = Inr access"
      "processToken env (hd (Split CHR '':'' key)) access w = (w1, resp)"
      "process_entry env key entry (w, ex)
         = ((w1, token_name (hd (Split CHR '':'' key)) access # ex), token_response_json resp)"
proof (cases "wanted_access key entry")
  case (Inr access)
  obtain w1 resp where "processToken env (hd (Split CHR '':'' key)) access w = (w1, resp)"
    by (cases "processToken env (hd (Split CHR '':'' key)) access w")
  then show thesis using that(2) Inr by (simp add: process_entry_def Let_def)
qed (use that(1) in \<open>simp add: process_entry_def\<close>)

lemma processToken_commands:
  assumes "processToken env origin access w = (w', resp)"
  shows "(w' = w \<or> (\<exists>t. commands w' = commands w
            @ [revoke_command (Client env) (token_name origin access), generate_command (Client env) (token_name origin access) (token_scopes access)]
          \<and> stdout w' = stdout w @ t \<and> (t = [] \<or> hd t = CHR ''r'')))
    \<and> keys (tokenFiles w') \<subseteq> insert (token_name origin access) (keys (tokenFiles w))
    \<and> keys (tokenFiles w) \<subseteq> keys (tokenFiles w')"
proof (cases "w' = w")
  case False
  then have "regenerate env (token_name origin access) access w = (w', resp)" using assms
    by (auto simp: processToken_def Let_def split: option.splits if_splits)
  then show ?thesis
  proof (cases rule: regenerate_outcome)
    case (1 w1)
    then show ?thesis using RevokeToken_effect(4) [of env "token_name origin access" w] by auto
  next
    case (2 w1 token)
    then show ?thesis
      using RevokeToken_effect(4) [of env "token_name origin access" w]
        saveStoredToken_effect(3) [of env "token_name origin access" token "ForgejoNow env + tokenTTL" w1]
        saveStoredToken_effect(4) [of w1 env "token_name origin access" token "ForgejoNow env + tokenTTL"] by simp
  qed
qed auto

section \<open>Properties\<close>

text \<open>
  What holds of a response from its turn of the loop on: for an accepted request it is an error, or
  the token of an expected file, which lasts.
\<close>

definition promised :: "ForgejoEnv \<Rightarrow> string \<Rightarrow> InputEntry \<Rightarrow> (ForgejoWorld \<times> string list) \<times> string \<Rightarrow> bool" where
  "promised env key entry st \<longleftrightarrow> (\<exists>resp. snd st = token_response_json resp
    \<and> (case wanted_access key entry of
         Inl msg \<Rightarrow> resp = token_error msg
       | Inr access \<Rightarrow> resp = token_error ''failed to generate token'' \<or> resp = good_response [] tokenTTL
           \<or> (\<exists>token ttl. resp = good_response token ttl \<and> token_name (hd (Split CHR '':'' key)) access \<in> set (snd (fst st))
                \<and> lasting env (token_name (hd (Split CHR '':'' key)) access) token ttl (fst (fst st)))))"

lemma promised_step:
  assumes "int64_ok (ForgejoNow env + tokenTTL)" "\<And>name. SaveFileError env name = None"
  shows "promised env key entry (process_entry env key entry s)"
proof -
  obtain v x where s: "s = (v, x)" by (cases s)
  show ?thesis unfolding s
  proof (cases rule: process_entry_cases [of key entry env v x])
    case (1 msg)
    then show "promised env key entry (process_entry env key entry (v, x))" by (auto simp: promised_def)
  next
    case (2 access v1 resp)
    show "promised env key entry (process_entry env key entry (v, x))"
      by (cases rule: processToken_response [OF 2(2) assms]) (use 2 in \<open>auto simp: promised_def\<close>)
  qed
qed

lemma promised_keep:
  assumes "int64_ok (ForgejoNow env + tokenTTL)" "promised env key entry (s, t)"
  shows "promised env key entry (fst (process_entry env key' entry' s), t)"
proof -
  obtain v x where s: "s = (v, x)" by (cases s)
  show ?thesis
  proof (cases rule: process_entry_cases [of key' entry' env v x])
    case (1 msg)
    then show ?thesis using assms(2) s by simp
  next
    case (2 access v1 resp)
    note l = processToken_lasting [OF _ 2(2) assms(1)]
    have f: "fst (process_entry env key' entry' s) = (v1, token_name (hd (Split CHR '':'' key')) access # x)"
      using 2(3) s by simp
    show ?thesis
    proof (cases "wanted_access key entry")
      case (Inl msg)
      then show ?thesis using assms(2) by (simp add: promised_def)
    next
      case (Inr a)
      then show ?thesis using assms(2) s l unfolding f promised_def by simp blast
    qed
  qed
qed

text \<open>What a requester is told, with the file that backs it in the world at the end.\<close>

definition told :: "ForgejoEnv \<Rightarrow> string \<Rightarrow> InputEntry \<Rightarrow> ForgejoWorld \<Rightarrow> GitTokenResponse \<Rightarrow> bool" where
  "told env key entry w' resp \<longleftrightarrow>
    (case wanted_access key entry of
       Inl msg \<Rightarrow> resp = token_error msg
     | Inr access \<Rightarrow> resp = token_error ''failed to generate token'' \<or> resp = good_response [] tokenTTL
         \<or> (\<exists>token e. resp = good_response token (wrap64 (e - ForgejoNow env)) \<and> token_rotation < wrap64 (e - ForgejoNow env)
              \<and> loadStoredToken (token_name (hd (Split CHR '':'' key)) access) w' = Some \<lparr>StoredValue = token, StoredExpiry = e\<rparr>))"

lemma promised_end:
  assumes "promised env key entry ((w1, ex), t)"
  shows "\<exists>resp. t = token_response_json resp \<and> told env key entry (garbageCollect env ex w1) resp"
proof (cases "wanted_access key entry")
  case (Inl msg)
  then show ?thesis using assms by (simp add: promised_def told_def)
next
  case (Inr access)
  let ?n = "token_name (hd (Split CHR '':'' key)) access" and ?w = "garbageCollect env ex w1"
  have l: "lasting env ?n tok ttl ?w" if "lasting env ?n tok ttl w1" "?n \<in> set ex" for tok ttl
    using that by (simp add: lasting_def loadStoredToken_def garbageCollect_effect)
  obtain resp where resp: "t = token_response_json resp" "resp = token_error ''failed to generate token'' \<or> resp = good_response [] tokenTTL
      \<or> (\<exists>token ttl. resp = good_response token ttl \<and> ?n \<in> set ex \<and> lasting env ?n token ttl w1)"
    using assms Inr by (auto simp: promised_def)
  then have "resp = token_error ''failed to generate token'' \<or> resp = good_response [] tokenTTL
      \<or> (\<exists>token e. resp = good_response token (wrap64 (e - ForgejoNow env)) \<and> token_rotation < wrap64 (e - ForgejoNow env)
            \<and> loadStoredToken ?n ?w = Some \<lparr>StoredValue = token, StoredExpiry = e\<rparr>)"
    using l by (metis lasting_def)
  then have "told env key entry ?w resp" using Inr by (simp add: told_def)
  then show ?thesis using resp(1) by blast
qed

lemma run_tells:
  assumes "processEntries env input w = (w', Some out)" and "gomap_ok input" and "(key, entry) \<in> set input"
    and "int64_ok (ForgejoNow env + tokenTTL)" and "\<And>name. SaveFileError env name = None"
  shows "\<exists>resp. map_of out key = Some \<lparr>OutRequest = InRequest entry, OutResponse = Some (token_response_json resp)\<rparr>
    \<and> told env key entry w' resp"
proof -
  obtain w1 ex where r: "entries_state (process_entry env) input (w, []) = (w1, ex)"
    "out = snd (handle_entries (process_entry env) input (w, []))" "w' = garbageCollect env ex w1"
    using run_parts [OF assms(1)] .
  have "\<exists>t. map_of (snd (handle_entries (process_entry env) input (w, []))) key = Some \<lparr>OutRequest = InRequest entry, OutResponse = Some t\<rparr>
      \<and> promised env key entry (entries_state (process_entry env) input (w, []), t)"
    by (rule entry_response [OF assms(2,3)]) (rule promised_step [OF assms(4,5)], rule promised_keep [OF assms(4)])
  then obtain t where t: "map_of out key = Some \<lparr>OutRequest = InRequest entry, OutResponse = Some t\<rparr>"
      "promised env key entry ((w1, ex), t)"
    unfolding r(1) r(2) [symmetric] by blast
  then show ?thesis using promised_end [OF t(2)] r(3) by auto
qed

text \<open>
  C31: What a requester is told holds. For a request with an access level it may have, the
  response is an error, or a token with its time to live; the token is the one in the file of the
  host and level at the end of the run, whichever other requests the run served, and has more
  than two hours left. A request refused for its format, level or host is answered with that
  reason. (A save that fails, and an empty token from the server's program, are the exceptions.)
\<close>

theorem git_token_promise:
  assumes "processEntries env input w = (w', Some out)" and "gomap_ok input" and "(key, entry) \<in> set input"
    and "int64_ok (ForgejoNow env + tokenTTL)"
    and "\<And>name. SaveFileError env name = None"
  shows "\<exists>resp. map_of out key = Some \<lparr>OutRequest = InRequest entry, OutResponse = Some (token_response_json resp)\<rparr>
    \<and> (case wanted_access key entry of
         Inl msg \<Rightarrow> resp = token_error msg
       | Inr access \<Rightarrow> resp = token_error ''failed to generate token'' \<or> resp = good_response [] tokenTTL
           \<or> (\<exists>token e. resp = good_response token (wrap64 (e - ForgejoNow env)) \<and> token_rotation < wrap64 (e - ForgejoNow env)
                \<and> loadStoredToken (token_name (hd (Split CHR '':'' key)) access) w' = Some \<lparr>StoredValue = token, StoredExpiry = e\<rparr>))"
  using run_tells [OF assms] unfolding told_def .

text \<open>The token names, and the commands, that the accepted requests of an input ask for.\<close>

definition wants :: "HandlerInput \<Rightarrow> string \<Rightarrow> string \<Rightarrow> bool" where
  "wants input name access \<longleftrightarrow> (\<exists>key entry. (key, entry) \<in> set input \<and> wanted_access key entry = Inr access
     \<and> name = token_name (hd (Split CHR '':'' key)) access)"

definition asked_command :: "ForgejoEnv \<Rightarrow> HandlerInput \<Rightarrow> Command \<Rightarrow> bool" where
  "asked_command env input c \<longleftrightarrow> (\<exists>name access. wants input name access
     \<and> (c = revoke_command (Client env) name \<or> c = generate_command (Client env) name (token_scopes access)))"

definition loop_ok :: "ForgejoEnv \<Rightarrow> HandlerInput \<Rightarrow> ForgejoWorld \<Rightarrow> ForgejoWorld \<times> string list \<Rightarrow> bool" where
  "loop_ok env input w s \<longleftrightarrow>
     (\<exists>cs. commands (fst s) = commands w @ cs \<and> (\<forall>c \<in> set cs. asked_command env input c))
   \<and> (\<exists>t. stdout (fst s) = stdout w @ t \<and> (t = [] \<or> hd t = CHR ''r''))
   \<and> (\<forall>n \<in> set (snd s). \<exists>access. wants input n access)
   \<and> keys (tokenFiles (fst s)) \<subseteq> keys (tokenFiles w) \<union> set (snd s)
   \<and> keys (tokenFiles w) \<subseteq> keys (tokenFiles (fst s))"

lemma loop_ok_step:
  assumes i: "loop_ok env input w (v, x)" and p: "processToken env (hd (Split CHR '':'' key)) access v = (v1, resp)"
    and a: "wants input (token_name (hd (Split CHR '':'' key)) access) access"
  shows "loop_ok env input w (v1, token_name (hd (Split CHR '':'' key)) access # x)"
proof -
  let ?n = "token_name (hd (Split CHR '':'' key)) access"
  have q: "asked_command env input (revoke_command (Client env) ?n)"
    "asked_command env input (generate_command (Client env) ?n (token_scopes access))"
    using a by (auto simp: asked_command_def)
  obtain cs t where i': "commands v = commands w @ cs" "stdout v = stdout w @ t" "t = [] \<or> hd t = CHR ''r''"
    "\<forall>c \<in> set cs. asked_command env input c"
    using i by (auto simp: loop_ok_def)
  note e = processToken_commands [OF p]
  have "\<exists>cs. commands v1 = commands w @ cs \<and> (\<forall>c \<in> set cs. asked_command env input c)"
    using e i'(1,4) q by auto
  moreover have "\<exists>u. stdout v1 = stdout w @ u \<and> (u = [] \<or> hd u = CHR ''r'')"
    using e i'(2,3) by (cases t) auto
  moreover have "keys (tokenFiles v1) \<subseteq> keys (tokenFiles w) \<union> set (?n # x)" "keys (tokenFiles w) \<subseteq> keys (tokenFiles v1)"
  proof -
    have "keys (tokenFiles v) \<subseteq> keys (tokenFiles w) \<union> set x" "keys (tokenFiles w) \<subseteq> keys (tokenFiles v)"
      using i by (simp_all add: loop_ok_def)
    note v = this
    have e': "keys (tokenFiles v1) \<subseteq> insert ?n (keys (tokenFiles v))" "keys (tokenFiles v) \<subseteq> keys (tokenFiles v1)"
      using e by simp_all
    have g: "A \<subseteq> W \<union> set (n # xs)" if "A \<subseteq> insert n V" "V \<subseteq> W \<union> set xs" for A V W :: "string set" and n xs
      using that by auto
    show "keys (tokenFiles v1) \<subseteq> keys (tokenFiles w) \<union> set (?n # x)" by (rule g [OF e'(1) v(1)])
    show "keys (tokenFiles w) \<subseteq> keys (tokenFiles v1)" by (rule order_trans [OF v(2) e'(2)])
  qed
  moreover have "\<forall>n \<in> set (?n # x). \<exists>access. wants input n access"
    using i a unfolding loop_ok_def by (simp only: fst_conv snd_conv list.set) blast
  ultimately show ?thesis unfolding loop_ok_def by (simp only: fst_conv snd_conv)
qed

lemma loop_ok_end:
  assumes "entries_state (process_entry env) input (w, []) = (w1, ex)"
  shows "loop_ok env input w (w1, ex)"
  unfolding assms [symmetric]
proof (rule entries_invariant)
  show "loop_ok env input w (w, [])" by (auto simp: loop_ok_def)
  fix key entry s
  assume e: "(key, entry) \<in> set input" and i: "loop_ok env input w s"
  obtain v x where s: "s = (v, x)" by (cases s)
  show "loop_ok env input w (fst (process_entry env key entry s))" unfolding s
  proof (cases rule: process_entry_cases [of key entry env v x])
    case (1 msg)
    then show "loop_ok env input w (fst (process_entry env key entry (v, x)))" using i s by simp
  next
    case (2 access v1 resp)
    have "wants input (token_name (hd (Split CHR '':'' key)) access) access" using e 2(1) by (auto simp: wants_def)
    then show "loop_ok env input w (fst (process_entry env key entry (v, x)))"
      using loop_ok_step [OF _ 2(2)] i s 2(3) by simp
  qed
qed

lemma wanted_access_Inr:
  "wanted_access key entry = Inr access \<Longrightarrow> access = ''ro'' \<or> (access = ''rw'' \<and> hd (Split CHR '':'' key) \<in> set rwHosts)"
  by (cases "unmarshal_struct request_fields (raw_bytes (InRequest entry))")
     (auto simp add: wanted_access_def Let_def split: if_splits)

lemma wants_access: "wants input name access \<Longrightarrow> access = ''ro'' \<or> (access = ''rw'' \<and> name \<in> {''ratched-rw'', ''obrien-rw''})"
proof -
  assume "wants input name access"
  then obtain key entry where w: "wanted_access key entry = Inr access" "name = token_name (hd (Split CHR '':'' key)) access"
    by (auto simp: wants_def)
  show ?thesis using wanted_access_Inr [OF w(1)]
  proof
    assume r: "access = ''rw'' \<and> hd (Split CHR '':'' key) \<in> set rwHosts"
    then have "hd (Split CHR '':'' key) = ''ratched'' \<or> hd (Split CHR '':'' key) = ''obrien''" by (simp add: rwHosts_def)
    then show ?thesis using r w(2) by (auto simp: token_name_def)
  qed simp
qed

text \<open>The commands a run may execute, in the terms of the program's arguments.\<close>

definition allowed_command :: "ForgejoEnv \<Rightarrow> HandlerInput \<Rightarrow> Command \<Rightarrow> bool" where
  "allowed_command env input c \<longleftrightarrow> (\<exists>name. c = revoke_command (Client env) name)
     \<or> (\<exists>name. wants input name ''ro'' \<and> c = generate_command (Client env) name ''read:repository'')
     \<or> (\<exists>name \<in> {''ratched-rw'', ''obrien-rw''}. wants input name ''rw''
          \<and> c = generate_command (Client env) name ''read:repository,write:repository'')"

lemma asked_allowed:
  assumes "asked_command env input c"
  shows "allowed_command env input c"
proof -
  obtain name access where n: "wants input name access"
    "c = revoke_command (Client env) name \<or> c = generate_command (Client env) name (token_scopes access)"
    using assms by (auto simp: asked_command_def)
  from wants_access [OF n(1)] show ?thesis
  proof
    assume "access = ''ro''"
    then show ?thesis using n by (auto simp: token_scopes_def allowed_command_def)
  next
    assume r: "access = ''rw'' \<and> name \<in> {''ratched-rw'', ''obrien-rw''}"
    then have sc: "token_scopes access = ''read:repository,write:repository''" by (simp add: token_scopes_def)
    from n(2) show ?thesis
    proof
      assume c: "c = generate_command (Client env) name (token_scopes access)"
      have "wants input name ''rw'' \<and> c = generate_command (Client env) name ''read:repository,write:repository''"
        using n(1) r unfolding c sc by blast
      then show ?thesis unfolding allowed_command_def using r by (intro disjI2) (rule bexI [of _ name], simp_all only:)
    qed (auto simp: allowed_command_def)
  qed
qed

lemma run_confined:
  assumes "processEntries env input w = (w', Some out)"
    and "ReadDirError env = None" and "\<And>name. RemoveError env name = None"
  shows "\<exists>cs. commands w' = commands w @ cs \<and> (\<forall>c \<in> set cs. allowed_command env input c)
      \<and> (\<forall>name \<in> keys (tokenFiles w) - keys (tokenFiles w'). revoke_command (Client env) name \<in> set cs)"
    and "\<forall>name \<in> keys (tokenFiles w'). \<exists>access. wants input name access"
proof -
  obtain w1 ex where r: "entries_state (process_entry env) input (w, []) = (w1, ex)" "w' = garbageCollect env ex w1"
    using run_parts [OF assms(1)] by blast
  note l = loop_ok_end [OF r(1)]
  let ?gc = "map (revoke_command (Client env)) (filter (\<lambda>n. n \<notin> set ex) (map fst (tokenFiles w1)))"
  obtain cs where cs: "commands w1 = commands w @ cs" "\<forall>c \<in> set cs. asked_command env input c"
    using l by (auto simp: loop_ok_def)
  have c': "commands w' = commands w @ cs @ ?gc" using cs(1) assms(2) by (simp add: r(2) garbageCollect_effect)
  have k': "keys (tokenFiles w') = keys (tokenFiles w1) \<inter> set ex"
    using assms(2,3) by (auto simp: keys_dom r(2) dom_def garbageCollect_effect split: if_splits)
  have "allowed_command env input c" if "c \<in> set (cs @ ?gc)" for c
    using that cs(2) asked_allowed by (auto simp: allowed_command_def)
  moreover have "revoke_command (Client env) name \<in> set (cs @ ?gc)" if n: "name \<in> keys (tokenFiles w) - keys (tokenFiles w')" for name
  proof -
    have "keys (tokenFiles w) \<subseteq> keys (tokenFiles w1)" using l by (simp add: loop_ok_def)
    then have "name \<in> keys (tokenFiles w1)" "name \<notin> set ex" using n unfolding k' by blast+
    then show ?thesis by simp
  qed
  ultimately show "\<exists>cs. commands w' = commands w @ cs \<and> (\<forall>c \<in> set cs. allowed_command env input c)
      \<and> (\<forall>name \<in> keys (tokenFiles w) - keys (tokenFiles w'). revoke_command (Client env) name \<in> set cs)"
    using c' by blast
  have ex: "\<forall>name \<in> set ex. \<exists>access. wants input name access"
    using l unfolding loop_ok_def fst_conv snd_conv by (elim conjE)
  then show "\<forall>name \<in> keys (tokenFiles w'). \<exists>access. wants input name access" unfolding k' by (intro ballI) (elim IntE, rule bspec)
qed

text \<open>
  C32: Only the requests of this run leave tokens behind. A run executes nothing but revocations,
  and generations of tokens its accepted requests name, with write access for the hosts ratched
  and obrien alone. Afterwards the token files are those of the names the requests ask for: every
  other one is gone, its token revoked by name (when the directory can be read and the file
  removed).
\<close>

theorem git_tokens_confined:
  assumes "processEntries env input w = (w', Some out)"
    and "ReadDirError env = None" and "\<And>name. RemoveError env name = None"
  shows "(\<exists>cs. commands w' = commands w @ cs
      \<and> (\<forall>c \<in> set cs. (\<exists>name. c = revoke_command (Client env) name)
           \<or> (\<exists>name. wants input name ''ro'' \<and> c = generate_command (Client env) name ''read:repository'')
           \<or> (\<exists>name \<in> {''ratched-rw'', ''obrien-rw''}. wants input name ''rw''
                \<and> c = generate_command (Client env) name ''read:repository,write:repository''))
      \<and> (\<forall>name \<in> keys (tokenFiles w) - keys (tokenFiles w'). revoke_command (Client env) name \<in> set cs))
    \<and> (\<forall>name \<in> keys (tokenFiles w'). \<exists>access. wants input name access)"
  using run_confined [OF assms] unfolding allowed_command_def by (rule conjI)

subsection \<open>Standard output\<close>

definition noisy :: "ForgejoWorld \<Rightarrow> ForgejoWorld \<Rightarrow> bool" where
  "noisy w w' \<longleftrightarrow> (\<exists>t. stdout w' = stdout w @ t \<and> (t = [] \<or> hd t = CHR ''r''))"

lemma noisy_refl [simp]: "noisy w w"
  by (simp add: noisy_def)

lemma noisy_trans:
  assumes "noisy u v" "noisy v w"
  shows "noisy u w"
proof -
  obtain s t where "stdout v = stdout u @ s" "stdout w = stdout v @ t" "s = [] \<or> hd s = CHR ''r''" "t = [] \<or> hd t = CHR ''r''"
    using assms by (auto simp: noisy_def)
  then show ?thesis unfolding noisy_def by (cases s) auto
qed

lemma collect_one_noisy: "noisy w (collect_one env ex name w)"
  using RevokeToken_effect(4) [of env name w]
  by (auto simp: noisy_def collect_one_def Let_def split: option.splits)

lemma garbageCollect_noisy: "noisy w (garbageCollect env ex w)"
proof -
  have "noisy w (fold (collect_one env ex) ns w)" for ns w
  proof (induction ns arbitrary: w)
    case (Cons n ns)
    have "noisy w (fold (collect_one env ex) ns (collect_one env ex n w))"
      by (rule noisy_trans [OF collect_one_noisy Cons.IH])
    then show ?case by simp
  qed simp
  then show ?thesis by (simp add: garbageCollect_def split: option.splits)
qed

lemma processEntries_noisy:
  assumes "processEntries env input w = (w', Some out)"
  shows "noisy w w'"
proof -
  obtain w1 ex where r: "entries_state (process_entry env) input (w, []) = (w1, ex)" "w' = garbageCollect env ex w1"
    using run_parts [OF assms] by blast
  have "noisy w w1" using loop_ok_end [OF r(1)] by (auto simp: loop_ok_def noisy_def)
  then show ?thesis using garbageCollect_noisy r(2) noisy_trans by blast
qed

lemma json_parse_r: "json_parse (CHR ''r'' # s) = None"
proof -
  have "jskip (CHR ''r'' # s) = CHR ''r'' # s" by (simp add: jskip_def jspace_def)
  moreover have "jnumber (CHR ''r'' # s) = None"
    by (simp add: jnumber_def jint_part_def jdigits1_def is_digit_def)
  moreover have "\<not> HasPrefix (CHR ''r'' # s) ''null''" "\<not> HasPrefix (CHR ''r'' # s) ''true''" "\<not> HasPrefix (CHR ''r'' # s) ''false''"
    by (simp_all add: HasPrefix_def)
  ultimately have "jvalue (Suc n) (CHR ''r'' # s) = None" for n by (simp add: jvalue.simps)
  then show ?thesis by (simp add: json_parse_def json_fuel_def)
qed

text \<open>
  One failed revocation spoils the whole run. The warning of a revocation that fails goes to
  standard output, before the JSON, so that whenever a run printed one, what \<open>fort-provider\<close>
  reads cannot be parsed: none of the new tokens reaches its requester, though the old ones may be
  revoked. When every revocation succeeds nothing but the JSON is printed.
\<close>

theorem revoke_warning_spoils_output:
  assumes "forgejo_main env input w = (w', ExecOk output)" and "stdout w = []"
  shows "(stdout w' \<noteq> [] \<longrightarrow> parseHandlerOutput output format = None)
    \<and> (stdout w' = [] \<longrightarrow> (\<exists>entries out. decodeHandlerInput input = Some entries
         \<and> processEntries env entries w = (w', Some out) \<and> writeOutput out = Some output))"
proof -
  obtain entries out data where r: "decodeHandlerInput input = Some entries"
      "processEntries env entries w = (w', Some out)" "writeOutput out = Some data" "output = stdout w' @ data"
    using assms(1) by (auto simp: forgejo_main_def split: option.splits prod.splits)
  have "parseHandlerOutput output format = None" if ne: "stdout w' \<noteq> []"
  proof -
    have "hd (stdout w') = CHR ''r''" using processEntries_noisy [OF r(2)] assms(2) ne by (auto simp: noisy_def)
    then obtain s where "output = CHR ''r'' # s" using ne r(4) by (cases "stdout w'") auto
    then show ?thesis by (simp add: parseHandlerOutput_def raw_object_def json_parse_r)
  qed
  then show ?thesis using r by auto
qed

section \<open>Witnesses\<close>

definition demo_git_env :: "string option \<Rightarrow> ForgejoEnv" where
  "demo_git_env sqliteError = \<lparr>Client = NewForgejoClient ''/forgejo'' ''su'' ''sqlite3'', ForgejoNow = 1000,
     RunCommand = (\<lambda>hist cmd. if hd cmd = ''su'' then (None, ''secret'' @ [CHR 0x0A]) else (sqliteError, [])),
     SaveFileError = (\<lambda>_. None), RemoveError = (\<lambda>_. None), ReadDirError = None, TokenDirError = None\<rparr>"

definition demo_git_input :: HandlerInput where
  "demo_git_input = [(''ratched:git-token-x'', \<lparr>InRequest = Some (js ''{~access~:~rw~}''), InResponse = None\<rparr>),
     (''lordhenry:git-token-y'', \<lparr>InRequest = Some (js ''{~access~:~rw~}''), InResponse = None\<rparr>)]"

definition demo_git_world :: ForgejoWorld where
  "demo_git_world = \<lparr>tokenFiles = [(''gone-ro'', ''x'')], commands = [], stdout = []\<rparr>"

lemma demo_wanted:
  "wanted_access ''ratched:git-token-x'' \<lparr>InRequest = Some (js ''{~access~:~rw~}''), InResponse = None\<rparr> = Inr ''rw''"
  "wanted_access ''lordhenry:git-token-y'' \<lparr>InRequest = Some (js ''{~access~:~rw~}''), InResponse = None\<rparr>
     = Inl ''rw access not permitted for this host''"
  by code_simp+

lemma demo_git_run: "\<exists>out. processEntries (demo_git_env None) demo_git_input demo_git_world
   = (\<lparr>tokenFiles = [(''ratched-rw'', stored_json \<lparr>StoredValue = ''secret'', StoredExpiry = 87400\<rparr>)],
      commands = [revoke_command (NewForgejoClient ''/forgejo'' ''su'' ''sqlite3'') ''ratched-rw'',
        generate_command (NewForgejoClient ''/forgejo'' ''su'' ''sqlite3'') ''ratched-rw'' ''read:repository,write:repository'',
        revoke_command (NewForgejoClient ''/forgejo'' ''su'' ''sqlite3'') ''gone-ro''], stdout = []\<rparr>, Some out)"
proof -
  have "fst (processEntries (demo_git_env None) demo_git_input demo_git_world)
   = \<lparr>tokenFiles = [(''ratched-rw'', stored_json \<lparr>StoredValue = ''secret'', StoredExpiry = 87400\<rparr>)],
      commands = [revoke_command (NewForgejoClient ''/forgejo'' ''su'' ''sqlite3'') ''ratched-rw'',
        generate_command (NewForgejoClient ''/forgejo'' ''su'' ''sqlite3'') ''ratched-rw'' ''read:repository,write:repository'',
        revoke_command (NewForgejoClient ''/forgejo'' ''su'' ''sqlite3'') ''gone-ro''], stdout = []\<rparr>"
    by code_simp
  moreover have "\<exists>w out. processEntries (demo_git_env None) demo_git_input demo_git_world = (w, Some out)"
    by (simp add: processEntries_def split: prod.splits)
  ultimately show ?thesis by auto
qed

theorem git_token_promise_witness:
  "\<exists>w' out. processEntries (demo_git_env None) demo_git_input demo_git_world = (w', Some out)
     \<and> map_of out ''lordhenry:git-token-y'' = Some \<lparr>OutRequest = Some (js ''{~access~:~rw~}''),
         OutResponse = Some (token_response_json (token_error ''rw access not permitted for this host''))\<rparr>"
proof -
  obtain w' out where r: "processEntries (demo_git_env None) demo_git_input demo_git_world = (w', Some out)"
    using demo_git_run by blast
  let ?e = "\<lparr>InRequest = Some (js ''{~access~:~rw~}''), InResponse = None\<rparr> :: InputEntry"
  have "gomap_ok demo_git_input" "(''lordhenry:git-token-y'', ?e) \<in> set demo_git_input"
    "int64_ok (ForgejoNow (demo_git_env None) + tokenTTL)" "\<And>name. SaveFileError (demo_git_env None) name = None"
    by (simp_all add: demo_git_input_def demo_git_env_def int64_ok_def)
  from git_token_promise [OF r this] r show ?thesis by (simp add: demo_wanted)
qed

theorem git_tokens_confined_witness:
  "\<exists>w' out. processEntries (demo_git_env None) demo_git_input demo_git_world = (w', Some out)
     \<and> (\<forall>name \<in> keys (tokenFiles w'). \<exists>access. wants demo_git_input name access)"
proof -
  obtain w' out where r: "processEntries (demo_git_env None) demo_git_input demo_git_world = (w', Some out)"
    using demo_git_run by blast
  have "ReadDirError (demo_git_env None) = None" "\<And>name. RemoveError (demo_git_env None) name = None"
    by (simp_all add: demo_git_env_def)
  from git_tokens_confined [OF r this] r show ?thesis by blast
qed

theorem revoke_warning_spoils_output_witness:
  "\<exists>w' output. forgejo_main (demo_git_env (Some ''locked'')) (js ''{~bob:x~:{~request~:{}}}'') demo_git_world = (w', ExecOk output)
     \<and> parseHandlerOutput output ''symmetric'' = None"
proof -
  let ?env = "demo_git_env (Some ''locked'')" and ?in = "js ''{~bob:x~:{~request~:{}}}''"
  have d: "decodeHandlerInput ?in = Some [(''bob:x'', \<lparr>InRequest = Some ''{}'', InResponse = None\<rparr>)]" by code_simp
  obtain w' data where r: "forgejo_main ?env ?in demo_git_world = (w', ExecOk data)" "stdout w' \<noteq> []"
  proof -
    have a: "stdout (fst (forgejo_main ?env ?in demo_git_world)) \<noteq> []" by code_simp
    have "(case snd (forgejo_main ?env ?in demo_git_world) of ExecOk _ \<Rightarrow> True | _ \<Rightarrow> False)" by code_simp
    then show thesis using that a by (cases "forgejo_main ?env ?in demo_git_world") (auto split: ExecResult.splits)
  qed
  have "stdout demo_git_world = []" by (simp add: demo_git_world_def)
  from revoke_warning_spoils_output [OF r(1) this] r show ?thesis by blast
qed

end
