(* ===== verification/Git_Token_Call.thy ===== *)
theory Git_Token_Call
  imports Forgejo_Provider
begin

text \<open>
  The capability \<open>git-token\<close> end to end: a request that \<open>fort-provider\<close> admits, the run of
  \<open>apps/forgejo/provider\<close> on the text it is given, and the callback the requester gets.
\<close>

lemma token_response_compact: "json_compact (token_response_json r) = token_response_json r"
  unfolding token_response_json_def by (rule compact_print) auto

lemma forgejo_answers:
  assumes "stdout w = []"
  shows "answers_with (\<lambda>es. snd (processEntries fenv es w)) (\<lambda>data. snd (forgejo_main fenv data w))"
  unfolding answers_with_def
proof (intro allI impI)
  fix data printed
  assume p: "snd (forgejo_main fenv data w) = ExecOk printed \<and> parseHandlerOutput printed ''symmetric'' \<noteq> None"
  then obtain w' where m: "forgejo_main fenv data w = (w', ExecOk printed)" by (cases "forgejo_main fenv data w") auto
  from revoke_warning_spoils_output [OF m assms] p
  show "\<exists>entries out. decodeHandlerInput data = Some entries \<and> snd (processEntries fenv entries w) = Some out \<and> writeOutput out = Some printed"
    by fastforce
qed

text \<open>The decoded access level does not depend on the layout of the request's text.\<close>

lemma wanted_access_compact:
  assumes "json_valid body" "InRequest e = Some body" "InRequest e' = Some (json_compact body)"
  shows "wanted_access key e' = wanted_access key e"
proof -
  obtain v where "json_parse body = Some v" using assms(1) by (auto simp: json_valid_def)
  then have "unmarshal_struct request_fields (json_compact body) = unmarshal_struct request_fields body"
    using compact_parse by (simp add: unmarshal_struct_def)
  then show ?thesis using assms(2,3) by (simp add: wanted_access_def raw_bytes_def)
qed

lemma told_compact:
  assumes "json_valid body" "InRequest e = Some body" "InRequest e' = Some (json_compact body)"
  shows "told fenv key e' w' resp \<longleftrightarrow> told fenv key e w' resp"
  unfolding told_def wanted_access_compact [OF assms] ..

lemma call_tells:
  assumes "handler_answers env a cap origin body cfg resps" and "state_ok (providerState a)"
    and "Format cfg = ''symmetric''" and "stdout w = []"
    and "\<And>data. RunHandler env (handler_path cap) (call_env cap origin) data = snd (forgejo_main fenv data w)"
    and "int64_ok (ForgejoNow fenv + tokenTTL)" and "\<And>name. SaveFileError fenv name = None"
    and "recorded_entry env a cap origin body key = Some e" "Request e = Some b" "json_valid b"
  shows "\<exists>data resp. call_input env a cap origin body cfg = Some data
    \<and> map_of resps key = Some (Some (token_response_json resp))
    \<and> told fenv key \<lparr>InRequest = Some b, InResponse = None\<rparr> (fst (forgejo_main fenv data w)) resp"
proof -
  have run: "RunHandler env (handler_path cap) (call_env cap origin) = (\<lambda>data. snd (forgejo_main fenv data w))"
    by (rule ext) (rule assms(5))
  obtain data entries out where r: "call_input env a cap origin body cfg = Some data" "decodeHandlerInput data = Some entries"
    "snd (processEntries fenv entries w) = Some out" "gomap_ok entries"
    "\<And>k. map_of entries k = map_option (sent_entry cfg) (recorded_entry env a cap origin body k)"
    "\<And>k. map_of resps k = map_option (\<lambda>e. Some (received (OutResponse e))) (map_of out k)"
    using forgejo.call_is_run [OF assms(1-3), of fenv w] forgejo_answers [OF assms(4)] unfolding run by blast
  obtain w' where w': "processEntries fenv entries w = (w', Some out)" using r(3) by (cases "processEntries fenv entries w") auto
  have "TokenDirError fenv = None"
  proof (rule ccontr)
    assume "TokenDirError fenv \<noteq> None"
    then have "snd (forgejo_main fenv data w) \<noteq> ExecOk x" for x using r(2) by (auto simp: forgejo_main_def)
    then show False using assms(1) r(1) run unfolding handler_answers_def call_input_def call_env_def
      by (auto split: option.splits ExecResult.splits)
  qed
  then have fw: "fst (forgejo_main fenv data w) = w'" by (simp add: forgejo_main_def r(2) w' split: option.splits)
  have m: "map_of entries key = Some (sent_entry cfg e)" using r(5) assms(8) by simp
  obtain resp where resp: "map_of out key = Some \<lparr>OutRequest = InRequest (sent_entry cfg e), OutResponse = Some (token_response_json resp)\<rparr>"
    "told fenv key (sent_entry cfg e) w' resp"
    using run_tells [OF w' r(4) map_of_SomeD [OF m] assms(6,7)] by blast
  have "told fenv key \<lparr>InRequest = Some b, InResponse = None\<rparr> w' resp"
    using resp(2) told_compact [OF assms(10), of "\<lparr>InRequest = Some b, InResponse = None\<rparr>" "sent_entry cfg e"] assms(9)
    by (simp add: sent_entry_def arrives_def received_def)
  moreover have "map_of resps key = Some (Some (token_response_json resp))"
    using r(6) [of key] resp(1) by (simp add: received_def token_response_compact)
  ultimately show ?thesis using r(1) fw by blast
qed

text \<open>
  C6: A git token reaches its requester. When a call of the capability is answered by the provider
  program, the caller is called back at the path of its need with the response of that run for its
  request: an error with the reason, or a token that is the one in the file of the caller's host
  and access level after the run, with more than two hours left. The layout of the request's text,
  the other requests of the capability and the order in which they are handled make no difference.
\<close>

theorem git_token_call:
  assumes "handler_answers env a cap origin body cfg resps" and "state_ok (providerState a)"
    and "Format cfg = ''symmetric''" and "stdout w = []"
    and "\<And>data. RunHandler env (handler_path cap) (call_env cap origin) data = snd (forgejo_main fenv data w)"
    and "int64_ok (ForgejoNow fenv + tokenTTL)" and "\<And>name. SaveFileError fenv name = None"
    and "CHR '':'' \<notin> set origin" and "extractNeedID (Some body) \<noteq> []"
  shows "\<exists>data resp. call_input env a cap origin body cfg = Some data
    \<and> sendCallback origin (callback_path cap (extractNeedID (Some body))) (Some (token_response_json resp))
        \<in> set (snd (snd (executeAsyncHandler env a cap origin body cfg)))
    \<and> (case wanted_access (makeStateKey origin (Some body)) \<lparr>InRequest = Some body, InResponse = None\<rparr> of
         Inl msg \<Rightarrow> resp = token_error msg
       | Inr access \<Rightarrow> resp = token_error ''failed to generate token'' \<or> resp = good_response [] tokenTTL
           \<or> (\<exists>token e. resp = good_response token (wrap64 (e - ForgejoNow fenv)) \<and> token_rotation < wrap64 (e - ForgejoNow fenv)
                \<and> loadStoredToken (token_name origin access) (fst (forgejo_main fenv data w))
                    = Some \<lparr>StoredValue = token, StoredExpiry = e\<rparr>))"
proof -
  let ?key = "makeStateKey origin (Some body)"
  have v: "json_valid body" using makeStateKey_invalid [of body origin] assms(9) by (auto simp: makeStateKey_def)
  have o: "hd (Split CHR '':'' ?key) = origin" using assms(8,9) by (simp add: makeStateKey_def Split_append)
  have e: "recorded_entry env a cap origin body ?key = Some \<lparr>Request = Some body, Response = None, UpdatedAt = RecordTime env\<rparr>"
    by (simp add: recorded_entry_def)
  obtain data resp where r: "call_input env a cap origin body cfg = Some data" "map_of resps ?key = Some (Some (token_response_json resp))"
    "told fenv ?key \<lparr>InRequest = Some body, InResponse = None\<rparr> (fst (forgejo_main fenv data w)) resp"
    using call_tells [OF assms(1-7) e] v by auto
  have "raw_len (Some (token_response_json resp)) > 0" by (simp add: raw_len_def token_response_json_def)
  from caller_always_answered [OF assms(2,1,8,9) r(2) this] r(1,3) show ?thesis unfolding told_def o by blast
qed

text \<open>A host whose first request finds an empty state.\<close>

definition demo_git_agent :: Agent where
  "demo_git_agent = demo_agent\<lparr>providerState := []\<rparr>"

definition demo_git_host :: HostEnv where
  "demo_git_host = demo_env\<lparr>RunHandler := (\<lambda>path vars input. snd (forgejo_main (demo_git_env None) input demo_git_world))\<rparr>"

definition demo_git_cfg :: CapabilityConfig where
  "demo_git_cfg = zero_CapabilityConfig\<lparr>Mode := ''async'', Format := ''symmetric''\<rparr>"

definition demo_git_body :: string where
  "demo_git_body = js ''{ ~access~: ~rw~, ~_fort_need_id~: ~git-token-x~ }''"

theorem git_token_call_witness:
  "\<exists>resp. (''ratched'', ''needs/git-token/x'', token_response_json resp)
      \<in> set (snd (snd (executeAsyncHandler demo_git_host demo_git_agent ''git-token'' ''ratched'' demo_git_body demo_git_cfg)))
     \<and> TokenError resp \<noteq> ''rw access not permitted for this host''"
proof -
  have a: "(case call_input demo_git_host demo_git_agent ''git-token'' ''ratched'' demo_git_body demo_git_cfg of None \<Rightarrow> False
    | Some data \<Rightarrow> (case snd (forgejo_main (demo_git_env None) data demo_git_world) of
        ExecOk printed \<Rightarrow> (case parseHandlerOutput printed ''symmetric'' of None \<Rightarrow> False | Some _ \<Rightarrow> True) | _ \<Rightarrow> False))"
    by code_simp
  have run: "RunHandler demo_git_host path vars data = snd (forgejo_main (demo_git_env None) data demo_git_world)" for path vars data
    by (simp add: demo_git_host_def)
  have f: "Format demo_git_cfg = ''symmetric''" by (simp add: demo_git_cfg_def)
  obtain resps where ans: "handler_answers demo_git_host demo_git_agent ''git-token'' ''ratched'' demo_git_body demo_git_cfg resps"
    using a unfolding handler_answers_def call_input_def run f by (auto split: option.splits ExecResult.splits)
  have side: "state_ok (providerState demo_git_agent)" "stdout demo_git_world = []" "int64_ok (ForgejoNow (demo_git_env None) + tokenTTL)"
    "\<And>name. SaveFileError (demo_git_env None) name = None" "CHR '':'' \<notin> set ''ratched''"
    by (simp_all add: demo_git_agent_def state_ok_def demo_git_world_def demo_git_env_def int64_ok_def)
  have n: "extractNeedID (Some demo_git_body) = ''git-token-x''" by code_simp
  have w: "wanted_access (makeStateKey ''ratched'' (Some demo_git_body)) \<lparr>InRequest = Some demo_git_body, InResponse = None\<rparr> = Inr ''rw''"
    by code_simp
  have s: "sendCallback ''ratched'' (callback_path ''git-token'' ''git-token-x'') (Some r) = (''ratched'', ''needs/git-token/x'', r)" for r
    by (simp add: sendCallback_def callback_path_def raw_bytes_def TrimPrefix_def HasPrefix_def)
  from git_token_call [OF ans side(1) f side(2) run side(3,4,5)] n w s show ?thesis
    by (auto simp: token_error_def good_response_def)
qed

end
