(* ===== verification/Attic_Provider.thy ===== *)
theory Attic_Provider
  imports Handler_Wire
begin

text \<open>
  \<open>apps/attic/provider\<close>: the handler that gives hosts the configuration of the binary cache. It
  answers every key the same: the push token the cache's bootstrap left in a file, and the cache's
  public key, from its own file or else from the \<open>attic\<close> command, whose output it keeps.
\<close>

record CacheResponse =
  CacheURL :: string
  CacheName :: string
  PublicKey :: string
  PushToken :: string
  CacheError :: string

definition cache_response_json :: "CacheResponse \<Rightarrow> string" where
  "cache_response_json r = json_print (JObj (concat (map (\<lambda>(k, v). if v = [] then [] else [(k, JStr v)])
     [(''cacheUrl'', CacheURL r), (''cacheName'', CacheName r), (''publicKey'', PublicKey r),
      (''pushToken'', PushToken r), (''error'', CacheError r)])))"

definition cache_error :: "string \<Rightarrow> CacheResponse" where
  "cache_error msg = \<lparr>CacheURL = [], CacheName = [], PublicKey = [], PushToken = [], CacheError = msg\<rparr>"

text \<open>
  The three bootstrap files, by name; the error, if any, of preparing the command's home (the
  temporary directory, its configuration directory, its configuration file), the command's error
  and output, and the error of keeping the key. The command sees the admin token, in its
  configuration.
\<close>

record AtticEnv =
  cacheURL :: string
  cacheName :: string
  TempDirError :: "string option"
  ConfigDirError :: "string option"
  ConfigWriteError :: "string option"
  CacheInfo :: "string \<Rightarrow> string option \<times> string"
  KeyWriteError :: "string option"

type_synonym AtticWorld = "string gomap"

definition readFile :: "AtticWorld \<Rightarrow> string \<Rightarrow> string + string" where
  "readFile w path =
     (case map_of w path of
        None \<Rightarrow> Inl (''open '' @ path)
      | Some data \<Rightarrow> (let content = TrimSpace data in if content = [] then Inl ''file is empty'' else Inr content))"

text \<open>The first match of \<open>Public Key:\s*(\S+)\<close>, leftmost; its group, or nothing.\<close>

fun parsePublicKey :: "string \<Rightarrow> string" where
  "parsePublicKey [] = []"
| "parsePublicKey (c # s) =
     (let rest = dropWhile regex_space (TrimPrefix (c # s) ''Public Key:'') in
      if HasPrefix (c # s) ''Public Key:'' \<and> rest \<noteq> [] then takeWhile (\<lambda>x. \<not> regex_space x) rest
      else parsePublicKey s)"

definition attic_config :: "AtticEnv \<Rightarrow> string \<Rightarrow> string" where
  "attic_config env adminToken =
     js ''default-server = ~local~'' @ [CHR 0x0A, CHR 0x0A] @ ''[servers.local]'' @ [CHR 0x0A]
       @ js ''endpoint = ~'' @ cacheURL env @ js ''~'' @ [CHR 0x0A]
       @ js ''token = ~'' @ adminToken @ js ''~'' @ [CHR 0x0A]"

definition getPublicKey :: "AtticEnv \<Rightarrow> AtticWorld \<Rightarrow> AtticWorld \<times> (string + string)" where
  "getPublicKey env w =
     (case readFile w ''public-key'' of
        Inr pk \<Rightarrow> (w, Inr pk)
      | Inl _ \<Rightarrow>
          (case readFile w ''admin-token'' of
             Inl _ \<Rightarrow> (w, Inl ''admin token not yet created'')
           | Inr adminToken \<Rightarrow>
               (case TempDirError env of
                  Some err \<Rightarrow> (w, Inl (''failed to create temp dir: '' @ err))
                | None \<Rightarrow>
                    (case ConfigDirError env of
                       Some err \<Rightarrow> (w, Inl (''failed to create config dir: '' @ err))
                     | None \<Rightarrow>
                         (case ConfigWriteError env of
                            Some err \<Rightarrow> (w, Inl (''failed to write config: '' @ err))
                          | None \<Rightarrow>
                              (case CacheInfo env (attic_config env adminToken) of
                                 (Some err, output) \<Rightarrow>
                                   (w, Inl (''attic cache info failed: '' @ err @ '' (output: '' @ output @ '')''))
                               | (None, output) \<Rightarrow>
                                   (let publicKey = parsePublicKey output in
                                    if publicKey = [] then (w, Inl (''could not parse public key from output: '' @ output))
                                    else (case KeyWriteError env of
                                            Some _ \<Rightarrow> (w, Inr publicKey)
                                          | None \<Rightarrow> (AList.update ''public-key'' publicKey w, Inr publicKey)))))))))"

definition getCacheConfig :: "AtticEnv \<Rightarrow> AtticWorld \<Rightarrow> AtticWorld \<times> CacheResponse" where
  "getCacheConfig env w =
     (case readFile w ''ci-token'' of
        Inl _ \<Rightarrow> (w, cache_error ''CI token not yet created'')
      | Inr ciToken \<Rightarrow>
          (case getPublicKey env w of
             (w', Inl err) \<Rightarrow> (w', cache_error err)
           | (w', Inr publicKey) \<Rightarrow>
               (w', \<lparr>CacheURL = cacheURL env, CacheName = cacheName env, PublicKey = publicKey,
                     PushToken = ciToken, CacheError = []\<rparr>)))"

definition answer_all :: "CacheResponse \<Rightarrow> string \<Rightarrow> InputEntry \<Rightarrow> unit \<Rightarrow> unit \<times> string" where
  "answer_all resp key entry u = (u, cache_response_json resp)"

definition processCacheEntries :: "AtticEnv \<Rightarrow> HandlerInput \<Rightarrow> AtticWorld \<Rightarrow> AtticWorld \<times> HandlerOutput option" where
  "processCacheEntries env input w =
     (case getCacheConfig env w of
        (w', resp) \<Rightarrow> (w', Some (snd (handle_entries (answer_all resp) input ()))))"

definition attic_main :: "AtticEnv \<Rightarrow> string \<Rightarrow> AtticWorld \<Rightarrow> AtticWorld \<times> ExecResult" where
  "attic_main env input w =
     (case decodeHandlerInput input of
        None \<Rightarrow> (w, ExecExit ''invalid input JSON'' [])
      | Some entries \<Rightarrow>
          (case processCacheEntries env entries w of
             (w', None) \<Rightarrow> (w', ExecExit ''processing failed'' [])
           | (w', Some out) \<Rightarrow>
               (case writeOutput out of
                  None \<Rightarrow> (w', ExecExit ''failed to marshal output'' [])
                | Some data \<Rightarrow> (w', ExecOk data))))"

section \<open>Lemmas\<close>

interpretation attic: symmetric_handler processCacheEntries
proof
  fix env input w w' out k i
  assume ok: "gomap_ok input" and r: "processCacheEntries env input w = (w', Some out)"
  obtain resp where h: "out = snd (handle_entries (answer_all resp) input ())"
    using r by (auto simp: processCacheEntries_def split: prod.splits)
  then show "gomap_ok out \<and> keys out = keys input"
    using handle_entries_ok [of "answer_all resp" input "()"] by simp
  assume "map_of input k = Some i"
  then show "\<exists>r. map_of out k = Some \<lparr>OutRequest = InRequest i, OutResponse = Some r\<rparr>"
    using handle_entries_echo [OF ok, of k i "answer_all resp" "()"] h by simp
qed

lemma readFile_other: "p \<noteq> q \<Longrightarrow> readFile (AList.update q x w) p = readFile w p"
  by (simp add: readFile_def map_of_update)

text \<open>A key the command printed is not empty and holds no blank but, possibly, a vertical tab.\<close>

lemma parsePublicKey_chars: "c \<in> set (parsePublicKey out) \<Longrightarrow> \<not> regex_space c"
  by (induction out rule: parsePublicKey.induct) (auto simp: Let_def split: if_splits dest: set_takeWhileD)

lemma getPublicKey_outcome:
  assumes "getPublicKey env w = (w', Inr pk)"
  shows "(readFile w ''public-key'' = Inr pk \<and> w' = w)
    \<or> (\<exists>admin out. readFile w ''admin-token'' = Inr admin \<and> CacheInfo env (attic_config env admin) = (None, out)
         \<and> pk = parsePublicKey out \<and> pk \<noteq> []
         \<and> w' = (if KeyWriteError env = None then AList.update ''public-key'' pk w else w))"
  using assms by (auto simp: getPublicKey_def Let_def split: sum.splits option.splits prod.splits if_splits)

lemma key_stored:
  assumes "getPublicKey env w = (w', Inr key)" "KeyWriteError env = None" "CHR 0x0B \<notin> set key"
  shows "readFile w' ''public-key'' = Inr key \<and> readFile w' ''ci-token'' = readFile w ''ci-token''"
  using getPublicKey_outcome [OF assms(1)]
proof
  assume "\<exists>admin out. readFile w ''admin-token'' = Inr admin \<and> CacheInfo env (attic_config env admin) = (None, out)
     \<and> key = parsePublicKey out \<and> key \<noteq> []
     \<and> w' = (if KeyWriteError env = None then AList.update ''public-key'' key w else w)"
  then obtain out where p: "key = parsePublicKey out" "key \<noteq> []" "w' = AList.update ''public-key'' key w"
    using assms(2) by auto
  have "\<not> is_space c" if "c \<in> set key" for c
    using parsePublicKey_chars [of c out] that assms(3) p(1) by (auto simp: regex_space_def is_space_def)
  then have "TrimSpace key = key" by (rule TrimSpace_id)
  then have "readFile w' ''public-key'' = Inr key" using p(2,3) by (simp add: readFile_def map_of_update)
  moreover have "readFile w' ''ci-token'' = readFile w ''ci-token''" unfolding p(3) by (rule readFile_other) simp
  ultimately show ?thesis by simp
qed simp

section \<open>Properties\<close>

text \<open>
  The cache's configuration is given out whole and does not change by itself. Every key gets
  the same response: the push token of the bootstrap file, with the public key kept in the key
  file or printed by the cache, or an error alone. After a successful run that could keep the key
  the next one gives the same response, whatever the command would print by then.
\<close>

theorem cache_config_stable:
  assumes "processCacheEntries env input w = (w', Some out)" and "gomap_ok input"
  shows "\<exists>resp. getCacheConfig env w = (w', resp)
    \<and> (\<forall>k i. map_of input k = Some i \<longrightarrow>
         map_of out k = Some \<lparr>OutRequest = InRequest i, OutResponse = Some (cache_response_json resp)\<rparr>)
    \<and> (CacheError resp = [] \<longrightarrow> readFile w ''ci-token'' = Inr (PushToken resp) \<and> PublicKey resp \<noteq> []
         \<and> CacheURL resp = cacheURL env \<and> CacheName resp = cacheName env)
    \<and> (CacheError resp = [] \<and> KeyWriteError env = None \<and> CHR 0x0B \<notin> set (PublicKey resp)
        \<and> cacheURL env' = cacheURL env \<and> cacheName env' = cacheName env
        \<longrightarrow> getCacheConfig env' w' = (w', resp))"
proof -
  obtain resp where g: "getCacheConfig env w = (w', resp)" and o: "out = snd (handle_entries (answer_all resp) input ())"
    using assms(1) by (auto simp: processCacheEntries_def split: prod.splits)
  have keys: "map_of out k = Some \<lparr>OutRequest = InRequest i, OutResponse = Some (cache_response_json resp)\<rparr>"
    if m: "map_of input k = Some i" for k i
  proof -
    obtain pre post where "input = pre @ (k, i) # post" using map_of_SomeD [OF m] by (auto simp: in_set_conv_decomp)
    then show ?thesis using handle_entries_at [of pre k i post "answer_all resp" "()"] assms(2)
      by (simp add: o answer_all_def)
  qed
  have ok: "readFile w ''ci-token'' = Inr (PushToken resp) \<and> getPublicKey env w = (w', Inr (PublicKey resp))
      \<and> CacheURL resp = cacheURL env \<and> CacheName resp = cacheName env" if "CacheError resp = []"
    using g that by (auto simp: getCacheConfig_def cache_error_def getPublicKey_def Let_def
        split: sum.splits prod.splits option.splits if_splits)
  have stored: "readFile w' ''public-key'' = Inr (PublicKey resp) \<and> readFile w' ''ci-token'' = Inr (PushToken resp)"
    if "CacheError resp = []" "KeyWriteError env = None" "CHR 0x0B \<notin> set (PublicKey resp)"
    using key_stored [of env w w', OF _ that(2,3)] ok [OF that(1)] by metis
  have "getCacheConfig env' w' = (w', resp)"
    if "CacheError resp = []" "KeyWriteError env = None" "CHR 0x0B \<notin> set (PublicKey resp)"
      "cacheURL env' = cacheURL env" "cacheName env' = cacheName env"
    using stored [OF that(1-3)] ok [OF that(1)] that(1,4,5)
    by (cases resp) (simp add: getCacheConfig_def getPublicKey_def)
  moreover have "PublicKey resp \<noteq> []" if "CacheError resp = []"
    using ok [OF that] getPublicKey_outcome [of env w w' "PublicKey resp"]
    by (auto simp: readFile_def Let_def split: option.splits if_splits)
  ultimately show ?thesis using g keys ok by (intro exI [of _ resp] conjI allI impI) simp_all
qed

definition demo_attic :: "string \<Rightarrow> AtticEnv" where
  "demo_attic out = \<lparr>cacheURL = ''https://cache'', cacheName = ''fort'', TempDirError = None, ConfigDirError = None,
     ConfigWriteError = None, CacheInfo = (\<lambda>_. (None, out)), KeyWriteError = None\<rparr>"

definition demo_attic_files :: AtticWorld where
  "demo_attic_files = [(''ci-token'', ''push '' ), (''admin-token'', ''admin'')]"

theorem cache_config_stable_witness:
  "\<exists>w' resp. getCacheConfig (demo_attic ''  Public Key: fort:k=  '') demo_attic_files = (w', resp)
     \<and> PublicKey resp = ''fort:k='' \<and> getCacheConfig (demo_attic ''other'') w' = (w', resp)"
proof -
  let ?e = "demo_attic ''  Public Key: fort:k=  ''" and ?i = "[(''k'', \<lparr>InRequest = None, InResponse = None\<rparr>)] :: HandlerInput"
  obtain w' out where r: "processCacheEntries ?e ?i demo_attic_files = (w', Some out)"
    by (cases "getCacheConfig ?e demo_attic_files") (simp add: processCacheEntries_def)
  have v: "snd (getCacheConfig ?e demo_attic_files)
    = \<lparr>CacheURL = ''https://cache'', CacheName = ''fort'', PublicKey = ''fort:k='', PushToken = ''push'', CacheError = []\<rparr>"
    by code_simp
  have ok: "gomap_ok ?i" by simp
  from cache_config_stable [OF r ok, of "demo_attic ''other''"]
  obtain resp where "getCacheConfig ?e demo_attic_files = (w', resp)"
    "CacheError resp = [] \<and> KeyWriteError ?e = None \<and> CHR 0x0B \<notin> set (PublicKey resp)
        \<and> cacheURL (demo_attic ''other'') = cacheURL ?e \<and> cacheName (demo_attic ''other'') = cacheName ?e
        \<longrightarrow> getCacheConfig (demo_attic ''other'') w' = (w', resp)" by blast
  then show ?thesis using v by (auto simp: demo_attic_def)
qed

end
