(* ===== verification/Pocket_ID.thy ===== *)
theory Pocket_ID
  imports Handler_Wire
begin

text \<open>
  \<open>apps/pocket-id/provider\<close>: the handler that gives services their OIDC credentials. It
  drives the REST interface of the identity server, which is a parameter: what a call returns may
  depend on the calls before it, so that the world is the list of the calls made so far. The page
  loop of \<open>GetAllClients\<close> ends only when the server says so and is a partial function:
  \<open>None\<close> is a loop that goes on for ever.
\<close>

section \<open>types.go\<close>

record OIDCRequest =
  ClientName :: string
  Groups :: "string list"
  RequestCallbacks :: "string list"
  OIDCNeedID :: string

record OIDCResponse =
  ResponseID :: string
  ClientSecret :: string
  OIDCError :: string

record PocketIDClient =
  ClientID :: string
  Name :: string

record PocketIDClientList =
  ListData :: "PocketIDClient list"
  CurrentPage :: int
  TotalPages :: int

record PocketIDGroup =
  GroupID :: string
  GroupName :: string

definition oidc_request_fields :: "(string \<times> json) list \<Rightarrow> OIDCRequest option" where
  "oidc_request_fields ms =
     Option.bind (dec_field ''client_name'' dec_string [] ms) (\<lambda>n.
     Option.bind (dec_field ''groups'' dec_strings [] ms) (\<lambda>g.
     Option.bind (dec_field ''callback_urls'' dec_strings [] ms) (\<lambda>c.
     Option.bind (dec_field ''_fort_need_id'' dec_string [] ms) (\<lambda>i.
       Some \<lparr>ClientName = n, Groups = g, RequestCallbacks = c, OIDCNeedID = i\<rparr>))))"

definition oidc_response_fields :: "(string \<times> json) list \<Rightarrow> OIDCResponse option" where
  "oidc_response_fields ms =
     Option.bind (dec_field ''client_id'' dec_string [] ms) (\<lambda>i.
     Option.bind (dec_field ''client_secret'' dec_string [] ms) (\<lambda>s.
     Option.bind (dec_field ''error'' dec_string [] ms) (\<lambda>e.
       Some \<lparr>ResponseID = i, ClientSecret = s, OIDCError = e\<rparr>)))"

definition oidc_response_of :: "string \<Rightarrow> OIDCResponse option" where
  "oidc_response_of = unmarshal_struct oidc_response_fields"

definition oidc_response_json :: "OIDCResponse \<Rightarrow> string" where
  "oidc_response_json r = json_print (JObj
     ((if ResponseID r = [] then [] else [(''client_id'', JStr (ResponseID r))])
      @ (if ClientSecret r = [] then [] else [(''client_secret'', JStr (ClientSecret r))])
      @ (if OIDCError r = [] then [] else [(''error'', JStr (OIDCError r))])))"

definition oidc_error :: "string \<Rightarrow> OIDCResponse" where
  "oidc_error msg = \<lparr>ResponseID = [], ClientSecret = [], OIDCError = msg\<rparr>"

definition id_name :: "(string \<Rightarrow> string \<Rightarrow> 'a) \<Rightarrow> (string \<times> json) list \<Rightarrow> 'a option" where
  "id_name mk ms =
     Option.bind (dec_field ''id'' dec_string [] ms) (\<lambda>i.
     Option.bind (dec_field ''name'' dec_string [] ms) (\<lambda>n. Some (mk i n)))"

definition client_fields :: "(string \<times> json) list \<Rightarrow> PocketIDClient option" where
  "client_fields = id_name PocketIDClient.make"

definition group_fields :: "(string \<times> json) list \<Rightarrow> PocketIDGroup option" where
  "group_fields = id_name PocketIDGroup.make"

definition dec_pagination :: "json \<Rightarrow> int \<times> int \<Rightarrow> (int \<times> int) option" where
  "dec_pagination v old =
     (case v of
        JNull \<Rightarrow> Some old
      | JObj ms \<Rightarrow>
          Option.bind (dec_field ''currentPage'' dec_int (fst old) ms) (\<lambda>c.
          Option.bind (dec_field ''totalPages'' dec_int (snd old) ms) (\<lambda>t. Some (c, t)))
      | _ \<Rightarrow> None)"

definition client_list_fields :: "(string \<times> json) list \<Rightarrow> PocketIDClientList option" where
  "client_list_fields ms =
     Option.bind (dec_field ''data'' (dec_structs client_fields) [] ms) (\<lambda>d.
     Option.bind (dec_field ''pagination'' dec_pagination (0, 0) ms) (\<lambda>(c, t).
       Some \<lparr>ListData = d, CurrentPage = c, TotalPages = t\<rparr>))"

definition group_list_fields :: "(string \<times> json) list \<Rightarrow> PocketIDGroup list option" where
  "group_list_fields ms = dec_field ''data'' (dec_structs group_fields) [] ms"

definition secret_fields :: "(string \<times> json) list \<Rightarrow> string option" where
  "secret_fields ms = dec_field ''secret'' dec_string [] ms"

definition client_request_json :: "string \<Rightarrow> string list \<Rightarrow> string" where
  "client_request_json name callbackURLs = json_print (JObj
     [(''name'', JStr name), (''callbackURLs'', JArr (map JStr callbackURLs)), (''logoutCallbackURLs'', JArr []),
      (''isPublic'', JBool False), (''pkceEnabled'', JBool False), (''requiresReauthentication'', JBool False)])"

definition groups_request_json :: "slice \<Rightarrow> string" where
  "groups_request_json ids = json_print (JObj [(''userGroupIds'', slice_json ids)])"

section \<open>api.go\<close>

record HttpCall =
  Method :: string
  Url :: string
  XApiKey :: string
  CallBody :: "string option"

datatype HttpResult =
    NotCreated string
  | NotDone string
  | NotRead string
  | HttpResponse nat string

record PocketIDAPI =
  baseURL :: string
  apiKey :: string
  Do :: "HttpCall list \<Rightarrow> HttpCall \<Rightarrow> HttpResult"

type_synonym calls = "HttpCall list"

definition api_call :: "PocketIDAPI \<Rightarrow> string \<Rightarrow> string \<Rightarrow> string option \<Rightarrow> HttpCall" where
  "api_call c method endpoint body =
     \<lparr>Method = method, Url = baseURL c @ endpoint, XApiKey = apiKey c, CallBody = body\<rparr>"

definition call_result :: "HttpResult \<Rightarrow> string + string" where
  "call_result r =
     (case r of
        NotCreated err \<Rightarrow> Inl (''create request: '' @ err)
      | NotDone err \<Rightarrow> Inl (''do request: '' @ err)
      | NotRead err \<Rightarrow> Inl (''read response: '' @ err)
      | HttpResponse status body \<Rightarrow>
          if status \<ge> 400 then Inl (''API error '' @ Itoa (int status) @ '': '' @ body) else Inr body)"

definition doRequest :: "PocketIDAPI \<Rightarrow> string \<Rightarrow> string \<Rightarrow> string option \<Rightarrow> calls \<Rightarrow> calls \<times> (string + string)" where
  "doRequest c method endpoint body w =
     (let call = api_call c method endpoint body in (w @ [call], call_result (Do c w call)))"

definition page_endpoint :: "int \<Rightarrow> string" where
  "page_endpoint page = ''/api/oidc/clients?pagination%5Bpage%5D='' @ Itoa page"

definition get_page :: "PocketIDAPI \<Rightarrow> int \<Rightarrow> calls \<Rightarrow> calls \<times> (string + PocketIDClientList)" where
  "get_page c page w =
     (case doRequest c ''GET'' (page_endpoint page) None w of
        (w', Inl err) \<Rightarrow> (w', Inl (''get clients page '' @ Itoa page @ '': '' @ err))
      | (w', Inr body) \<Rightarrow>
          (w', case unmarshal_struct client_list_fields body of
                 None \<Rightarrow> Inl ''parse clients response''
               | Some list \<Rightarrow> Inr list))"

text \<open>The loop over the pages, from the one given.\<close>

partial_function (option) client_pages ::
  "PocketIDAPI \<Rightarrow> int \<Rightarrow> PocketIDClient list \<Rightarrow> calls \<Rightarrow> (calls \<times> (string + PocketIDClient list)) option" where
  "client_pages c page allClients w =
     (case get_page c page w of
        (w', r) \<Rightarrow>
          (case r of
             Inl err \<Rightarrow> Some (w', Inl err)
           | Inr list \<Rightarrow>
               if CurrentPage list \<ge> TotalPages list then Some (w', Inr (allClients @ ListData list))
               else client_pages c (wrap64 (page + 1)) (allClients @ ListData list) w'))"

definition GetAllClients :: "PocketIDAPI \<Rightarrow> calls \<Rightarrow> (calls \<times> (string + PocketIDClient list)) option" where
  "GetAllClients c w = client_pages c 1 [] w"

definition client_endpoint :: "string \<Rightarrow> string" where
  "client_endpoint clientID = ''/api/oidc/clients/'' @ clientID"

definition CreateClient :: "PocketIDAPI \<Rightarrow> string \<Rightarrow> string list \<Rightarrow> calls \<Rightarrow> calls \<times> (string + PocketIDClient)" where
  "CreateClient c name callbackURLs w =
     (case doRequest c ''POST'' ''/api/oidc/clients'' (Some (client_request_json name callbackURLs)) w of
        (w', Inl err) \<Rightarrow> (w', Inl (''create client: '' @ err))
      | (w', Inr body) \<Rightarrow>
          (w', case unmarshal_struct client_fields body of
                 None \<Rightarrow> Inl ''parse create response''
               | Some client \<Rightarrow> Inr client))"

text \<open>The update sends no name.\<close>

definition UpdateClientCallbacks :: "PocketIDAPI \<Rightarrow> string \<Rightarrow> string list \<Rightarrow> calls \<Rightarrow> calls \<times> (string + string)" where
  "UpdateClientCallbacks c clientID callbackURLs =
     doRequest c ''PUT'' (client_endpoint clientID) (Some (client_request_json [] callbackURLs))"

definition DeleteClient :: "PocketIDAPI \<Rightarrow> string \<Rightarrow> calls \<Rightarrow> calls \<times> (string + string)" where
  "DeleteClient c clientID = doRequest c ''DELETE'' (client_endpoint clientID) None"

definition RegenerateSecret :: "PocketIDAPI \<Rightarrow> string \<Rightarrow> calls \<Rightarrow> calls \<times> (string + string)" where
  "RegenerateSecret c clientID w =
     (case doRequest c ''POST'' (client_endpoint clientID @ ''/secret'') (Some ''{}'') w of
        (w', Inl err) \<Rightarrow> (w', Inl (''regenerate secret: '' @ err))
      | (w', Inr body) \<Rightarrow>
          (w', case unmarshal_struct secret_fields body of
                 None \<Rightarrow> Inl ''parse secret response''
               | Some secret \<Rightarrow> Inr secret))"

text \<open>\<open>url.QueryEscape\<close>\<close>

definition query_byte :: "char \<Rightarrow> string" where
  "query_byte ch =
     (if CHR ''a'' \<le> ch \<and> ch \<le> CHR ''z'' \<or> CHR ''A'' \<le> ch \<and> ch \<le> CHR ''Z'' \<or> is_digit ch \<or> ch \<in> set ''-_.~''
      then [ch]
      else if ch = CHR '' '' then ''+''
      else ''%'' @ map (\<lambda>d. ''0123456789ABCDEF'' ! d) [byte ch div 16, byte ch mod 16])"

definition QueryEscape :: "string \<Rightarrow> string" where
  "QueryEscape s = concat (map query_byte s)"

definition GetGroupID :: "PocketIDAPI \<Rightarrow> string \<Rightarrow> calls \<Rightarrow> calls \<times> (string + string)" where
  "GetGroupID c name w =
     (case doRequest c ''GET'' (''/api/user-groups?search='' @ QueryEscape name) None w of
        (w', Inl err) \<Rightarrow> (w', Inl (''search groups: '' @ err))
      | (w', Inr body) \<Rightarrow>
          (w', case unmarshal_struct group_list_fields body of
                 None \<Rightarrow> Inl ''parse groups response''
               | Some groups \<Rightarrow>
                   Inr (case find (\<lambda>g. GroupName g = name) groups of None \<Rightarrow> [] | Some g \<Rightarrow> GroupID g)))"

definition SetAllowedGroups :: "PocketIDAPI \<Rightarrow> string \<Rightarrow> slice \<Rightarrow> calls \<Rightarrow> calls \<times> (string + string)" where
  "SetAllowedGroups c clientID groupIDs =
     doRequest c ''PUT'' (client_endpoint clientID @ ''/allowed-user-groups'') (Some (groups_request_json groupIDs))"

definition FindClientByName :: "PocketIDClient list \<Rightarrow> string \<Rightarrow> PocketIDClient option" where
  "FindClientByName clients name = find (\<lambda>x. Name x = name) clients"

definition FindClientByID :: "PocketIDClient list \<Rightarrow> string \<Rightarrow> PocketIDClient option" where
  "FindClientByID clients i = find (\<lambda>x. ClientID x = i) clients"

section \<open>main.go\<close>

text \<open>
  The ids of the groups that were found; a slice that was never appended to stays nil. Errors
  are only reported.
\<close>

definition resolve_group :: "PocketIDAPI \<Rightarrow> string \<Rightarrow> calls \<times> slice \<Rightarrow> calls \<times> slice" where
  "resolve_group c name s =
     (case s of (w, groupIDs) \<Rightarrow>
        case GetGroupID c name w of
          (w', Inl err) \<Rightarrow> (w', groupIDs)
        | (w', Inr i) \<Rightarrow> (w', if i = [] then groupIDs else Some (elems groupIDs @ [i])))"

definition resolveGroupIDs :: "PocketIDAPI \<Rightarrow> string list \<Rightarrow> calls \<Rightarrow> calls \<times> slice" where
  "resolveGroupIDs c groupNames w =
     (if groupNames = [] then (w, Some []) else fold (resolve_group c) groupNames (w, None))"

text \<open>\<open>keptIDs\<close> travels with the calls.\<close>

type_synonym PocketState = "calls \<times> string list"

definition createNewClient ::
  "PocketIDAPI \<Rightarrow> string \<Rightarrow> slice \<Rightarrow> string list \<Rightarrow> PocketState \<Rightarrow> PocketState \<times> OIDCResponse" where
  "createNewClient c name groupIDs callbackURLs s =
     (case s of (w, keptIDs) \<Rightarrow>
        case CreateClient c name callbackURLs w of
          (w1, Inl err) \<Rightarrow> ((w1, keptIDs), oidc_error (''Failed to create client: '' @ err))
        | (w1, Inr client) \<Rightarrow>
            (let w2 = (if elems groupIDs = [] then w1 else fst (SetAllowedGroups c (ClientID client) groupIDs w1)) in
             case RegenerateSecret c (ClientID client) w2 of
               (w3, Inl err) \<Rightarrow> ((w3, keptIDs), oidc_error (''Failed to generate secret: '' @ err))
             | (w3, Inr secret) \<Rightarrow>
                 ((w3, ClientID client # keptIDs),
                  \<lparr>ResponseID = ClientID client, ClientSecret = secret, OIDCError = []\<rparr>)))"

definition sync_client :: "PocketIDAPI \<Rightarrow> string \<Rightarrow> slice \<Rightarrow> string list \<Rightarrow> calls \<Rightarrow> calls" where
  "sync_client c clientID groupIDs callbackURLs w =
     (let w1 = fst (SetAllowedGroups c clientID groupIDs w) in
      if callbackURLs = [] then w1 else fst (UpdateClientCallbacks c clientID callbackURLs w1))"

text \<open>The cached response, when it holds credentials of a client that still exists.\<close>

definition cached_credentials :: "PocketIDClient list \<Rightarrow> raw \<Rightarrow> OIDCResponse option" where
  "cached_credentials existing cachedResp =
     (if raw_len cachedResp = 0 then None
      else case oidc_response_of (raw_bytes cachedResp) of
             None \<Rightarrow> None
           | Some cached \<Rightarrow>
               if ResponseID cached \<noteq> [] \<and> ClientSecret cached \<noteq> [] \<and> FindClientByID existing (ResponseID cached) \<noteq> None
               then Some cached else None)"

definition processClient ::
  "PocketIDAPI \<Rightarrow> PocketIDClient list \<Rightarrow> OIDCRequest \<Rightarrow> raw \<Rightarrow> PocketState \<Rightarrow> PocketState \<times> OIDCResponse" where
  "processClient c existing req cachedResp s =
     (case s of (w, keptIDs) \<Rightarrow>
        case resolveGroupIDs c (Groups req) w of (w1, groupIDs) \<Rightarrow>
        case cached_credentials existing cachedResp of
          Some cached \<Rightarrow>
            ((sync_client c (ResponseID cached) groupIDs (RequestCallbacks req) w1, ResponseID cached # keptIDs), cached)
        | None \<Rightarrow>
            (case FindClientByName existing (ClientName req) of
               None \<Rightarrow> createNewClient c (ClientName req) groupIDs (RequestCallbacks req) (w1, keptIDs)
             | Some client \<Rightarrow>
                 (let w2 = sync_client c (ClientID client) groupIDs (RequestCallbacks req) w1 in
                  case RegenerateSecret c (ClientID client) w2 of
                    (w3, Inr secret) \<Rightarrow>
                      ((w3, ClientID client # keptIDs),
                       \<lparr>ResponseID = ClientID client, ClientSecret = secret, OIDCError = []\<rparr>)
                  | (w3, Inl _) \<Rightarrow>
                      (case DeleteClient c (ClientID client) w3 of
                         (w4, Inl err) \<Rightarrow> ((w4, keptIDs), oidc_error (''Failed to delete client for recreation: '' @ err))
                       | (w4, Inr _) \<Rightarrow>
                           createNewClient c (ClientName req) groupIDs (RequestCallbacks req) (w4, keptIDs)))))"

text \<open>One turn of the loop over the input.\<close>

definition process_request ::
  "PocketIDAPI \<Rightarrow> PocketIDClient list \<Rightarrow> string \<Rightarrow> InputEntry \<Rightarrow> PocketState \<Rightarrow> PocketState \<times> OIDCResponse" where
  "process_request c existing key entry s =
     (case unmarshal_struct oidc_request_fields (raw_bytes (InRequest entry)) of
        None \<Rightarrow> (s, oidc_error ''invalid request format'')
      | Some req \<Rightarrow>
          if ClientName req = [] then (s, oidc_error ''client_name required in request'')
          else processClient c existing req (InResponse entry) s)"

definition client_entry ::
  "PocketIDAPI \<Rightarrow> PocketIDClient list \<Rightarrow> string \<Rightarrow> InputEntry \<Rightarrow> PocketState \<Rightarrow> PocketState \<times> string" where
  "client_entry c existing key entry s =
     (case process_request c existing key entry s of (s', resp) \<Rightarrow> (s', oidc_response_json resp))"

definition collect_client :: "PocketIDAPI \<Rightarrow> string list \<Rightarrow> PocketIDClient \<Rightarrow> calls \<Rightarrow> calls" where
  "collect_client c keptIDs client w =
     (if ClientID client \<in> set keptIDs then w else fst (DeleteClient c (ClientID client) w))"

definition garbageCollect :: "PocketIDAPI \<Rightarrow> string list \<Rightarrow> calls \<Rightarrow> calls option" where
  "garbageCollect c keptIDs w =
     Option.bind (GetAllClients c w) (\<lambda>(w1, r).
       case r of
         Inl err \<Rightarrow> Some w1
       | Inr clients \<Rightarrow> Some (fold (collect_client c keptIDs) clients w1))"

definition processEntries :: "PocketIDAPI \<Rightarrow> HandlerInput \<Rightarrow> calls \<Rightarrow> (calls \<times> HandlerOutput option) option" where
  "processEntries c input w =
     Option.bind (GetAllClients c w) (\<lambda>(w1, r).
       case r of
         Inl err \<Rightarrow> Some (w1, None)
       | Inr existing \<Rightarrow>
           (case handle_entries (client_entry c existing) input (w1, []) of
              ((w2, keptIDs), out) \<Rightarrow> map_option (\<lambda>w3. (w3, Some out)) (garbageCollect c keptIDs w2)))"

definition outputServiceKeyError :: "HandlerInput \<Rightarrow> HandlerOutput" where
  "outputServiceKeyError input =
     snd (handle_entries (\<lambda>key entry s. (s, oidc_response_json (oidc_error ''Service key not yet created''))) input ())"

text \<open>
  \<open>main\<close>, with the URL, the transport and the contents of the service key file, if it could
  be read. \<open>None\<close> is a run that never ends.
\<close>

definition pocket_main ::
  "string \<Rightarrow> (calls \<Rightarrow> HttpCall \<Rightarrow> HttpResult) \<Rightarrow> string option \<Rightarrow> string \<Rightarrow> calls \<Rightarrow> (calls \<times> ExecResult) option" where
  "pocket_main url transport serviceKey input w =
     (let write = (\<lambda>w' out. case writeOutput out of
                       None \<Rightarrow> (w', ExecExit ''failed to marshal output'' [])
                     | Some data \<Rightarrow> (w', ExecOk data)) in
      case decodeHandlerInput input of
        None \<Rightarrow> Some (w, ExecExit ''invalid input JSON'' [])
      | Some entries \<Rightarrow>
          (let key = (case serviceKey of None \<Rightarrow> [] | Some data \<Rightarrow> TrimSpace data) in
           if key = [] then Some (write w (outputServiceKeyError entries))
           else map_option (\<lambda>(w', r). case r of
                                None \<Rightarrow> (w', ExecExit ''processing failed'' [])
                              | Some out \<Rightarrow> write w' out)
                  (processEntries \<lparr>baseURL = url, apiKey = key, Do = transport\<rparr> entries w)))"

section \<open>Lemmas\<close>

subsection \<open>The contract of the handlers\<close>

lemma entries_run:
  assumes "processEntries c input w = Some (w', Some out)"
  obtains w1 existing w2 keptIDs where "GetAllClients c w = Some (w1, Inr existing)"
    "handle_entries (client_entry c existing) input (w1, []) = ((w2, keptIDs), out)"
    "garbageCollect c keptIDs w2 = Some w'"
  using assms unfolding processEntries_def
  by (auto split: sum.splits prod.splits Option.bind_splits)

text \<open>A run that never ends gives no output.\<close>

definition pocket_run :: "PocketIDAPI \<Rightarrow> HandlerInput \<Rightarrow> calls \<Rightarrow> calls \<times> HandlerOutput option" where
  "pocket_run c input w = (case processEntries c input w of None \<Rightarrow> (w, None) | Some r \<Rightarrow> r)"

interpretation pocket: symmetric_handler pocket_run
proof
  fix c input w w' out k i
  assume ok: "gomap_ok input" and "pocket_run c input w = (w', Some out)"
  then have "processEntries c input w = Some (w', Some out)" by (auto simp: pocket_run_def split: option.splits)
  then obtain w1 existing w2 keptIDs where
    h: "handle_entries (client_entry c existing) input (w1, []) = ((w2, keptIDs), out)"
    by (rule entries_run)
  show "gomap_ok out \<and> keys out = keys input"
    using handle_entries_ok [of "client_entry c existing" input "(w1, [])"] by (simp add: h)
  assume "map_of input k = Some i"
  then show "\<exists>r. map_of out k = Some \<lparr>OutRequest = InRequest i, OutResponse = Some r\<rparr>"
    using handle_entries_echo [OF ok, of k i "client_entry c existing" "(w1, [])"] h by simp
qed

lemma response_read [simp]: "oidc_response_of (oidc_response_json r) = Some r"
proof -
  let ?ms = "(if ResponseID r = [] then [] else [(''client_id'', JStr (ResponseID r))])
      @ (if ClientSecret r = [] then [] else [(''client_secret'', JStr (ClientSecret r))])
      @ (if OIDCError r = [] then [] else [(''error'', JStr (OIDCError r))])"
  have ne: "\<not> fold_eq ''client_id'' ''client_secret''" "\<not> fold_eq ''client_secret'' ''client_id''"
    "\<not> fold_eq ''client_id'' ''error''" "\<not> fold_eq ''error'' ''client_id''"
    "\<not> fold_eq ''client_secret'' ''error''" "\<not> fold_eq ''error'' ''client_secret''" by code_simp+
  have "json_ints (JObj ?ms)" by auto
  then have "oidc_response_of (oidc_response_json r) = oidc_response_fields ?ms"
    unfolding oidc_response_of_def oidc_response_json_def by (rule unmarshal_printed)
  also have "\<dots> = Some r"
    by (simp add: oidc_response_fields_def dec_field_def fold_eq_refl ne dec_string_def)
  finally show ?thesis .
qed

interpretation response_codec: json_codec oidc_response_json oidc_response_of "\<lambda>_. True"
  by unfold_locales (rule response_read)

subsection \<open>The calls of each operation\<close>

lemma api_call_simps [simp]:
  "Method (api_call c method endpoint body) = method" "Url (api_call c method endpoint body) = baseURL c @ endpoint"
  by (simp_all add: api_call_def)

lemma doRequest_calls [simp]: "fst (doRequest c method endpoint body w) = w @ [api_call c method endpoint body]"
  by (simp add: doRequest_def Let_def)

lemma delete_calls [simp]: "fst (DeleteClient c i w) = w @ [api_call c ''DELETE'' (client_endpoint i) None]"
  by (simp add: DeleteClient_def)

lemma groups_calls [simp]:
  "fst (SetAllowedGroups c i g w) = w @ [api_call c ''PUT'' (client_endpoint i @ ''/allowed-user-groups'') (Some (groups_request_json g))]"
  by (simp add: SetAllowedGroups_def)

lemma update_calls [simp]:
  "fst (UpdateClientCallbacks c i us w) = w @ [api_call c ''PUT'' (client_endpoint i) (Some (client_request_json [] us))]"
  by (simp add: UpdateClientCallbacks_def)

lemma secret_calls [simp]: "fst (RegenerateSecret c i w) = w @ [api_call c ''POST'' (client_endpoint i @ ''/secret'') (Some ''{}'')]"
  by (simp add: RegenerateSecret_def doRequest_def Let_def split: sum.splits)

lemma create_calls [simp]: "fst (CreateClient c n us w) = w @ [api_call c ''POST'' ''/api/oidc/clients'' (Some (client_request_json n us))]"
  by (simp add: CreateClient_def doRequest_def Let_def split: sum.splits)

lemma group_id_calls [simp]:
  "fst (GetGroupID c n w) = w @ [api_call c ''GET'' (''/api/user-groups?search='' @ QueryEscape n) None]"
  by (simp add: GetGroupID_def doRequest_def Let_def split: sum.splits)

lemma get_page_calls [simp]: "fst (get_page c p w) = w @ [api_call c ''GET'' (page_endpoint p) None]"
  by (simp add: get_page_def doRequest_def Let_def split: sum.splits)

text \<open>The log \<open>w'\<close> is \<open>w\<close> with calls of the given methods after it.\<close>

definition only :: "string set \<Rightarrow> calls \<Rightarrow> calls \<Rightarrow> bool" where
  "only ms w w' \<longleftrightarrow> (\<exists>t. w' = w @ t \<and> Method ` set t \<subseteq> ms)"

lemma only_refl [simp]: "only ms w w"
  by (simp add: only_def)

lemma only_snoc [simp]: "Method call \<in> ms \<Longrightarrow> only ms w (w @ [call])"
  by (simp add: only_def)

lemma only_trans: "only ms w1 w2 \<Longrightarrow> only ms w2 w3 \<Longrightarrow> only ms w1 w3"
  by (elim only_def [THEN iffD1, elim_format] exE conjE, unfold only_def) (simp add: image_Un)

lemma only_mono: "only ms w w' \<Longrightarrow> ms \<subseteq> ms' \<Longrightarrow> only ms' w w'"
  by (auto simp: only_def)

lemma resolve_group_only: "only {''GET''} (fst s) (fst (resolve_group c name s))"
proof -
  obtain w g where s: "s = (w, g)" by (cases s)
  have "fst (resolve_group c name s) = fst (GetGroupID c name w)"
    by (simp add: s resolve_group_def case_prod_unfold split: sum.split)
  then show ?thesis by (simp add: s)
qed

lemma resolve_only: "only {''GET''} w (fst (resolveGroupIDs c names w))"
proof -
  have "only {''GET''} (fst s) (fst (fold (resolve_group c) names s))" for s
  proof (induction names arbitrary: s)
    case (Cons n names)
    show ?case using only_trans [OF resolve_group_only Cons.IH] by simp
  qed simp
  from this [of "(w, None)"] show ?thesis by (simp add: resolveGroupIDs_def)
qed

lemma sync_only: "only {''PUT''} w (sync_client c i g us w)"
  by (auto simp: sync_client_def Let_def only_def)

subsection \<open>One request\<close>

abbreviation any_method :: "string set" where
  "any_method \<equiv> {''GET'', ''POST'', ''PUT'', ''DELETE''}"

text \<open>A response holds an id exactly when that id was added to the kept ones.\<close>

definition settled :: "string list \<Rightarrow> string list \<Rightarrow> OIDCResponse \<Rightarrow> bool" where
  "settled kept kept' resp \<longleftrightarrow> kept' = kept \<and> ResponseID resp = [] \<or> kept' = ResponseID resp # kept"

lemma create_outcome:
  assumes "createNewClient c n g us (w, kept) = ((w', kept'), resp)"
  shows "only {''POST'', ''PUT''} w w' \<and> settled kept kept' resp"
proof -
  obtain w1 r where c: "CreateClient c n us w = (w1, r)" by (cases "CreateClient c n us w")
  have w1: "only {''POST'', ''PUT''} w w1" using create_calls [of c n us w] by (simp add: c)
  show ?thesis
  proof (cases r)
    case (Inl err)
    with assms c w1 show ?thesis by (auto simp: createNewClient_def settled_def oidc_error_def)
  next
    case (Inr client)
    define w2 where "w2 = (if elems g = [] then w1 else fst (SetAllowedGroups c (ClientID client) g w1))"
    obtain w3 q where s: "RegenerateSecret c (ClientID client) w2 = (w3, q)" by (cases "RegenerateSecret c (ClientID client) w2")
    have w2: "only {''POST'', ''PUT''} w1 w2" by (simp add: w2_def)
    have w3: "only {''POST'', ''PUT''} w2 w3" using secret_calls [of c "ClientID client" w2] by (simp add: s)
    have "((w', kept'), resp) = (case q of
        Inl err \<Rightarrow> ((w3, kept), oidc_error (''Failed to generate secret: '' @ err))
      | Inr secret \<Rightarrow> ((w3, ClientID client # kept), \<lparr>ResponseID = ClientID client, ClientSecret = secret, OIDCError = []\<rparr>))"
      using assms by (cases q) (simp_all add: createNewClient_def c Inr s flip: w2_def)
    then have "w' = w3" "settled kept kept' resp"
      by (auto simp: settled_def oidc_error_def split: sum.splits)
    then show ?thesis using only_trans [OF w1 only_trans [OF w2 w3]] by simp
  qed
qed

lemma sync_any: "only any_method w (sync_client c i g callbacks w)"
  by (rule only_mono [OF sync_only]) simp

lemma listed_outcome:
  assumes p: "processClient c existing req cachedResp (w, kept) = ((w', kept'), resp)"
    and l: "cached_credentials existing cachedResp = None" "FindClientByName existing (ClientName req) = Some client"
    and r: "resolveGroupIDs c (Groups req) w = (w1, g)" "only any_method w w1"
  shows "only any_method w w' \<and> settled kept kept' resp"
proof -
  let ?i = "ClientID client"
  note def = processClient_def [of c existing req cachedResp "(w, kept)", simplified r(1) l prod.case option.case]
  define w2 where "w2 = sync_client c ?i g (RequestCallbacks req) w1"
  obtain w3 q where s: "RegenerateSecret c ?i w2 = (w3, q)" by (cases "RegenerateSecret c ?i w2")
  have "only any_method w2 w3" using secret_calls [of c ?i w2] by (simp add: s)
  then have w3: "only any_method w w3" using only_trans [OF r(2) only_trans [OF sync_any]] by (simp add: w2_def)
  show ?thesis
  proof (cases q)
    case (Inr secret)
    with p s w3 show ?thesis by (auto simp: def settled_def Let_def simp flip: w2_def)
  next
    case q: (Inl err)
    obtain w4 d where d: "DeleteClient c ?i w3 = (w4, d)" by (cases "DeleteClient c ?i w3")
    have "only any_method w3 w4" using delete_calls [of c ?i w3] by (simp add: d)
    then have w4: "only any_method w w4" by (rule only_trans [OF w3])
    show ?thesis
    proof (cases d)
      case (Inl err)
      with p s w4 d q show ?thesis by (auto simp: def settled_def oidc_error_def Let_def simp flip: w2_def)
    next
      case (Inr ok)
      with p s d q have "createNewClient c (ClientName req) g (RequestCallbacks req) (w4, kept) = ((w', kept'), resp)"
        by (simp add: def Let_def flip: w2_def)
      from create_outcome [OF this] show ?thesis using only_trans [OF w4] by (auto intro: only_mono)
    qed
  qed
qed

lemma process_outcome:
  assumes "processClient c existing req cachedResp (w, kept) = ((w', kept'), resp)"
  shows "only any_method w w' \<and> settled kept kept' resp"
proof -
  obtain w1 g where r: "resolveGroupIDs c (Groups req) w = (w1, g)" by (cases "resolveGroupIDs c (Groups req) w")
  have w1: "only any_method w w1" using resolve_only [of w c "Groups req"] by (auto simp: r intro: only_mono)
  note def = processClient_def [of c existing req cachedResp "(w, kept)", simplified r prod.case]
  show ?thesis
  proof (cases "cached_credentials existing cachedResp")
    case (Some cached)
    with assms only_trans [OF w1 sync_any] show ?thesis by (auto simp: def settled_def)
  next
    case none: None
    show ?thesis
    proof (cases "FindClientByName existing (ClientName req)")
      case None
      with assms none have "createNewClient c (ClientName req) g (RequestCallbacks req) (w1, kept) = ((w', kept'), resp)"
        by (simp add: def)
      from create_outcome [OF this] show ?thesis using only_trans [OF w1] by (auto intro: only_mono)
    next
      case (Some client)
      from listed_outcome [OF assms none Some r w1] show ?thesis .
    qed
  qed
qed

lemma request_outcome:
  assumes "process_request c existing key entry (w, kept) = ((w', kept'), resp)"
  shows "only any_method w w' \<and> settled kept kept' resp"
proof (cases "unmarshal_struct oidc_request_fields (raw_bytes (InRequest entry))")
  case None
  with assms show ?thesis by (auto simp: process_request_def settled_def oidc_error_def)
next
  case (Some req)
  show ?thesis
  proof (cases "ClientName req = []")
    case True
    with Some assms show ?thesis by (auto simp: process_request_def settled_def oidc_error_def)
  next
    case False
    with Some assms have "processClient c existing req (InResponse entry) (w, kept) = ((w', kept'), resp)"
      by (simp add: process_request_def)
    then show ?thesis by (rule process_outcome)
  qed
qed

subsection \<open>All requests\<close>

text \<open>The client ids that an output gives out.\<close>

definition answered_ids :: "HandlerOutput \<Rightarrow> string list" where
  "answered_ids out =
     map (\<lambda>(k, e). case oidc_response_of (raw_bytes (OutResponse e)) of None \<Rightarrow> [] | Some r \<Rightarrow> ResponseID r) out"

lemma update_fresh: "k \<notin> keys m \<Longrightarrow> AList.update k v m = m @ [(k, v)]"
  by (induction m) auto

lemma answered_update:
  "k \<notin> keys out \<Longrightarrow> answered_ids (AList.update k \<lparr>OutRequest = rq, OutResponse = Some (oidc_response_json r)\<rparr> out)
     = answered_ids out @ [ResponseID r]"
  by (simp add: update_fresh answered_ids_def raw_bytes_def)

lemma kept_answered:
  assumes "gomap_ok input" "handle_entries (client_entry c existing) input (w, []) = ((w', kept), out)"
  shows "only any_method w w' \<and> (\<forall>x. x \<noteq> [] \<longrightarrow> x \<in> set kept \<longleftrightarrow> x \<in> set (answered_ids out))"
  using assms
proof (induction input arbitrary: w' kept out rule: rev_induct)
  case Nil
  then show ?case by (auto simp: handle_entries_def answered_ids_def)
next
  case (snoc a input)
  obtain k e where a: "a = (k, e)" by (cases a)
  obtain w1 kept1 out1 where h: "handle_entries (client_entry c existing) input (w, []) = ((w1, kept1), out1)"
    by (metis surj_pair)
  obtain w2 kept2 resp where p: "process_request c existing k e (w1, kept1) = ((w2, kept2), resp)"
    by (metis surj_pair)
  then have ce: "client_entry c existing k e (w1, kept1) = ((w2, kept2), oidc_response_json resp)"
    by (simp add: client_entry_def)
  have IH: "only any_method w w1" "\<And>x. x \<noteq> [] \<Longrightarrow> x \<in> set kept1 \<longleftrightarrow> x \<in> set (answered_ids out1)"
    using snoc.IH [OF _ h] snoc.prems(1) by auto
  have "k \<notin> keys input" using snoc.prems(1) by (simp add: a)
  then have fresh: "k \<notin> keys out1"
    using handle_entries_ok [of "client_entry c existing" input "(w, [])"] by (simp add: h)
  have eqs: "w' = w2" "kept = kept2"
    "out = AList.update k \<lparr>OutRequest = InRequest e, OutResponse = Some (oidc_response_json resp)\<rparr> out1"
    using snoc.prems(2) ce by (simp_all add: a handle_entries_append h)
  have "only any_method w1 w2" "settled kept1 kept2 resp" using request_outcome [OF p] by auto
  then show ?case using only_trans [OF IH(1)] IH(2) answered_update [OF fresh]
    by (auto simp: eqs settled_def)
qed

lemma collect_calls:
  "fold (collect_client c kept) clients w =
     w @ map (\<lambda>x. api_call c ''DELETE'' (client_endpoint (ClientID x)) None) (filter (\<lambda>x. ClientID x \<notin> set kept) clients)"
  by (induction clients arbitrary: w) (simp_all add: collect_client_def)

subsection \<open>The page loop\<close>

definition page_call :: "PocketIDAPI \<Rightarrow> int \<Rightarrow> HttpCall" where
  "page_call c page = api_call c ''GET'' (page_endpoint page) None"

lemma pages_only:
  assumes ret: "client_pages c page acc w = Some res"
  shows "only {''GET''} w (fst res)"
proof (rule client_pages.raw_induct [where P = "\<lambda>c page acc w res. only {''GET''} w (fst res)", OF _ ret])
  fix f c page acc w and res :: "calls \<times> (string + PocketIDClient list)"
  assume IH: "\<And>c page acc w res. f c page acc w = Some res \<Longrightarrow> only {''GET''} w (fst res)"
    and eq: "(case get_page c page w of
        (w', r) \<Rightarrow>
          (case r of
             Inl err \<Rightarrow> Some (w', Inl err)
           | Inr list \<Rightarrow>
               if CurrentPage list \<ge> TotalPages list then Some (w', Inr (acc @ ListData list))
               else f c (wrap64 (page + 1)) (acc @ ListData list) w')) = Some res"
  obtain w1 q where g: "get_page c page w = (w1, q)" by (cases "get_page c page w")
  have w1: "only {''GET''} w w1" using get_page_calls [of c page w] by (simp add: g)
  show "only {''GET''} w (fst res)"
  proof (cases q)
    case (Inl err)
    with eq w1 show ?thesis by (auto simp: g)
  next
    case (Inr list)
    show ?thesis
    proof (cases "CurrentPage list \<ge> TotalPages list")
      case True
      with eq w1 show ?thesis by (auto simp: g Inr)
    next
      case False
      with eq have "f c (wrap64 (page + 1)) (acc @ ListData list) w1 = Some res" by (simp add: g Inr)
      then show ?thesis by (rule only_trans [OF w1 IH])
    qed
  qed
qed

text \<open>
  A server that gives page after page of its list makes the loop end after the last one; one
  that gives the first of two pages whatever page it is asked for makes it go on for ever.
\<close>

lemma pages_from:
  assumes "\<And>p w. page \<le> p \<Longrightarrow> p \<le> n \<Longrightarrow>
      get_page c p w = (w @ [page_call c p], Inr \<lparr>ListData = data p, CurrentPage = p, TotalPages = lastp\<rparr>)"
    and "n = max 1 lastp" "1 \<le> page" "page \<le> n" "n < 2 ^ 63"
  shows "client_pages c page acc w = Some (w @ map (page_call c) [page..n], Inr (acc @ concat (map data [page..n])))"
  using assms
proof (induction "nat (n - page)" arbitrary: page acc w)
  case 0
  then have "page = n" by simp
  with 0 show ?case using 0(2) [of page w] by (subst client_pages.simps) simp
next
  case (Suc k)
  have g: "get_page c page w = (w @ [page_call c page], Inr \<lparr>ListData = data page, CurrentPage = page, TotalPages = lastp\<rparr>)"
    using Suc.prems(1) [of page w] Suc.prems(4) by simp
  have lt: "page < n" using Suc.hyps(2) by simp
  then have more: "page < lastp" using Suc.prems(2,3) by simp
  have next_page: "wrap64 (page + 1) = page + 1" using lt Suc.prems(3,5) by (intro wrap64_id) (simp add: int64_ok_def)
  have "client_pages c (page + 1) (acc @ data page) (w @ [page_call c page])
      = Some ((w @ [page_call c page]) @ map (page_call c) [page + 1..n],
              Inr ((acc @ data page) @ concat (map data [page + 1..n])))"
    using Suc.prems Suc.hyps(2) lt by (intro Suc.hyps(1)) simp_all
  then show ?case using more lt
    by (subst client_pages.simps) (simp add: g next_page upto_rec1 [of page n])
qed

lemma pages_stuck:
  assumes "\<And>p w. get_page c p w = (w @ [page_call c p], Inr \<lparr>ListData = data, CurrentPage = 1, TotalPages = 2\<rparr>)"
  shows "GetAllClients c w = None"
proof -
  have "False" if ret: "client_pages c 1 [] w = Some res" for res
  proof -
    have "c' \<noteq> c" if "client_pages c' page acc w = Some res" for c' page acc w res
    proof (rule client_pages.raw_induct [where P = "\<lambda>c' page acc w res. c' \<noteq> c", OF _ that])
      fix f c' page acc w and res :: "calls \<times> (string + PocketIDClient list)"
      assume IH: "\<And>c' page acc w res. f c' page acc w = Some res \<Longrightarrow> c' \<noteq> c"
        and eq: "(case get_page c' page w of
        (w', r) \<Rightarrow>
          (case r of
             Inl err \<Rightarrow> Some (w', Inl err)
           | Inr list \<Rightarrow>
               if CurrentPage list \<ge> TotalPages list then Some (w', Inr (acc @ ListData list))
               else f c' (wrap64 (page + 1)) (acc @ ListData list) w')) = Some res"
      show "c' \<noteq> c"
      proof
        assume "c' = c"
        with eq have "f c' (wrap64 (page + 1)) (acc @ data) (w @ [page_call c page]) = Some res" by (simp add: assms)
        then show False using IH \<open>c' = c\<close> by blast
      qed
    qed
    from this [OF ret] show False by simp
  qed
  then show ?thesis unfolding GetAllClients_def by (cases "client_pages c 1 [] w") auto
qed

section \<open>Properties\<close>

text \<open>
  C35: The page loop ends and misses nothing. When the server answers each page up to its last one with
  that page, fetching all clients returns the clients of all pages in order, after one call for
  each page.
\<close>

theorem pages_complete:
  assumes "\<And>p w. 1 \<le> p \<Longrightarrow> p \<le> max 1 lastp \<Longrightarrow> Do c w (page_call c p) = HttpResponse 200 (text p)"
    and "\<And>p. 1 \<le> p \<Longrightarrow> p \<le> max 1 lastp \<Longrightarrow> unmarshal_struct client_list_fields (text p)
      = Some \<lparr>ListData = data p, CurrentPage = p, TotalPages = lastp\<rparr>"
    and "lastp < 2 ^ 63"
  shows "GetAllClients c w
    = Some (w @ map (page_call c) [1..max 1 lastp], Inr (concat (map data [1..max 1 lastp])))"
proof -
  have "get_page c p w = (w @ [page_call c p], Inr \<lparr>ListData = data p, CurrentPage = p, TotalPages = lastp\<rparr>)"
    if "1 \<le> p" "p \<le> max 1 lastp" for p w
    using assms(1) [OF that, of w] assms(2) [OF that]
    by (simp add: get_page_def doRequest_def Let_def call_result_def flip: page_call_def)
  with pages_from [of 1 "max 1 lastp" c data lastp "[]" w] assms(3) show ?thesis
    by (simp add: GetAllClients_def)
qed

text \<open>
  C33: What a run deletes at its end is what it did not answer with. After the requests the clients
  are listed again; if that fails nothing is deleted, and otherwise each listed client whose id is
  in no response of this run is deleted, once per listing, and no other. A client whose request
  was malformed, or whose creation failed half way, is in no response.
\<close>

theorem unanswered_clients_deleted:
  assumes "processEntries c input w = Some (w', Some out)" and "gomap_ok input"
  shows "\<exists>w2 w3 r. only any_method w w2 \<and> GetAllClients c w2 = Some (w3, r) \<and> only {''GET''} w2 w3
    \<and> (\<forall>err. r = Inl err \<longrightarrow> w' = w3)
    \<and> (\<forall>clients. r = Inr clients \<and> [] \<notin> ClientID ` set clients \<longrightarrow>
         w' = w3 @ map (\<lambda>x. api_call c ''DELETE'' (client_endpoint (ClientID x)) None)
                     (filter (\<lambda>x. ClientID x \<notin> set (answered_ids out)) clients))"
proof -
  obtain w1 existing w2 kept where l: "GetAllClients c w = Some (w1, Inr existing)"
    and h: "handle_entries (client_entry c existing) input (w1, []) = ((w2, kept), out)"
    and g: "garbageCollect c kept w2 = Some w'"
    using assms(1) by (rule entries_run)
  obtain w3 r where l2: "GetAllClients c w2 = Some (w3, r)"
    and w': "w' = (case r of Inl _ \<Rightarrow> w3 | Inr clients \<Rightarrow> fold (collect_client c kept) clients w3)"
    using g by (auto simp: garbageCollect_def split: Option.bind_splits sum.splits)
  have k: "only any_method w1 w2" "\<And>x. x \<noteq> [] \<Longrightarrow> x \<in> set kept \<longleftrightarrow> x \<in> set (answered_ids out)"
    using kept_answered [OF assms(2) h] by auto
  have "only {''GET''} w w1" using pages_only [OF l [unfolded GetAllClients_def]] by simp
  then have "only any_method w w1" by (rule only_mono) simp
  then have "only any_method w w2" using k(1) by (rule only_trans)
  moreover have "only {''GET''} w2 w3" using pages_only [OF l2 [unfolded GetAllClients_def]] by simp
  moreover have "w' = w3 @ map (\<lambda>x. api_call c ''DELETE'' (client_endpoint (ClientID x)) None)
                     (filter (\<lambda>x. ClientID x \<notin> set (answered_ids out)) clients)"
    if r: "r = Inr clients" "[] \<notin> ClientID ` set clients" for clients
  proof -
    have "filter (\<lambda>x. ClientID x \<notin> set kept) clients = filter (\<lambda>x. ClientID x \<notin> set (answered_ids out)) clients"
    proof (rule filter_cong [OF refl])
      fix x
      assume "x \<in> set clients"
      then have "ClientID x \<noteq> []" using r(2) by force
      then show "(ClientID x \<notin> set kept) = (ClientID x \<notin> set (answered_ids out))" using k(2) by blast
    qed
    then show ?thesis by (simp add: w' r(1) collect_calls)
  qed
  moreover have "w' = w3" if "r = Inl err" for err using w' that by simp
  ultimately show ?thesis using l2 by (intro exI [of _ w2] exI [of _ w3] exI [of _ r] conjI allI impI) simp_all
qed

text \<open>A well-formed request that comes with the credentials of a listed client.\<close>

definition cached_entry :: "PocketIDClient list \<Rightarrow> InputEntry \<Rightarrow> bool" where
  "cached_entry existing i \<longleftrightarrow>
     (case unmarshal_struct oidc_request_fields (raw_bytes (InRequest i)) of None \<Rightarrow> False | Some req \<Rightarrow> ClientName req \<noteq> [])
     \<and> cached_credentials existing (InResponse i) \<noteq> None"

lemma cached_entry_answer:
  assumes "cached_entry existing i"
  shows "only {''GET'', ''PUT'', ''DELETE''} (fst s) (fst (fst (client_entry c existing k i s)))"
    and "Some (snd (client_entry c existing k i s)) = map_option oidc_response_json (cached_credentials existing (InResponse i))"
proof -
  obtain req r where q: "unmarshal_struct oidc_request_fields (raw_bytes (InRequest i)) = Some req" "ClientName req \<noteq> []"
    "cached_credentials existing (InResponse i) = Some r"
    using assms by (auto simp: cached_entry_def split: option.splits)
  obtain u kept where s: "s = (u, kept)" by (cases s)
  obtain u1 gs where rs: "resolveGroupIDs c (Groups req) u = (u1, gs)" by (cases "resolveGroupIDs c (Groups req) u")
  let ?ms = "{''GET'', ''PUT'', ''DELETE''}"
  have "only ?ms u u1" using resolve_only [of u c "Groups req"] by (auto simp: rs intro: only_mono)
  moreover have "only ?ms u1 (sync_client c (ResponseID r) gs (RequestCallbacks req) u1)"
    by (rule only_mono [OF sync_only]) simp
  ultimately have "only ?ms u (sync_client c (ResponseID r) gs (RequestCallbacks req) u1)" by (rule only_trans)
  then show "only ?ms (fst s) (fst (fst (client_entry c existing k i s)))"
    "Some (snd (client_entry c existing k i s)) = map_option oidc_response_json (cached_credentials existing (InResponse i))"
    using q by (simp_all add: s client_entry_def process_request_def processClient_def rs)
qed

lemma listing_only: "GetAllClients c u = Some res \<Longrightarrow> only {''GET''} u (fst res)"
  unfolding GetAllClients_def by (rule pages_only)

lemma collect_only:
  assumes "garbageCollect c kept w = Some w'"
  shows "only {''GET'', ''DELETE''} w w'"
proof -
  obtain w3 r where l: "GetAllClients c w = Some (w3, r)"
    and w': "w' = (case r of Inl _ \<Rightarrow> w3 | Inr clients \<Rightarrow> fold (collect_client c kept) clients w3)"
    using assms by (auto simp: garbageCollect_def split: Option.bind_splits sum.splits)
  have "only {''GET'', ''DELETE''} w3 w'" by (cases r) (auto simp: w' collect_calls only_def)
  moreover have "only {''GET'', ''DELETE''} w w3" using listing_only [OF l] by (auto intro: only_mono)
  ultimately show ?thesis using only_trans by blast
qed

text \<open>
  C34: Credentials are stable. When every request is well-formed and comes with a cached response that
  decodes to the credentials of a listed client, the run gives each key these credentials again,
  encoded anew, and creates no client and no secret.
\<close>

theorem credentials_stable:
  assumes "processEntries c input w = Some (w', Some out)" and "gomap_ok input"
    and "GetAllClients c w = Some (w1, Inr existing)"
    and "\<And>k i. map_of input k = Some i \<Longrightarrow> cached_entry existing i"
  shows "(\<forall>k i. map_of input k = Some i \<longrightarrow> map_of out k = Some \<lparr>OutRequest = InRequest i,
        OutResponse = map_option oidc_response_json (cached_credentials existing (InResponse i))\<rparr>)
    \<and> only {''GET'', ''PUT'', ''DELETE''} w w'"
proof (intro conjI allI impI)
  obtain w2 kept where h: "handle_entries (client_entry c existing) input (w1, []) = ((w2, kept), out)"
    and g: "garbageCollect c kept w2 = Some w'"
    using assms(1) by (rule entries_run) (use assms(3) in auto)
  fix k i
  assume m: "map_of input k = Some i"
  obtain pre post where i: "input = pre @ (k, i) # post" using map_of_SomeD [OF m] by (auto simp: in_set_conv_decomp)
  show "map_of out k = Some \<lparr>OutRequest = InRequest i,
      OutResponse = map_option oidc_response_json (cached_credentials existing (InResponse i))\<rparr>"
    using handle_entries_at [of pre k i post "client_entry c existing" "(w1, [])"] assms(2) cached_entry_answer(2) [OF assms(4) [OF m]]
    by (simp add: h flip: i)
next
  let ?ms = "{''GET'', ''PUT'', ''DELETE''}"
  obtain w2 kept where h: "handle_entries (client_entry c existing) input (w1, []) = ((w2, kept), out)"
    and g: "garbageCollect c kept w2 = Some w'"
    using assms(1) by (rule entries_run) (use assms(3) in auto)
  have "only ?ms w1 (fst (entries_state (client_entry c existing) input (w1, [])))"
  proof (rule entries_invariant [where I = "\<lambda>s :: PocketState. only ?ms w1 (fst s)"])
    fix k i and s :: PocketState
    assume e: "(k, i) \<in> set input" "only ?ms w1 (fst s)"
    then have "cached_entry existing i" using assms(2,4) by simp
    from only_trans [OF e(2) cached_entry_answer(1) [OF this]] show "only ?ms w1 (fst (fst (client_entry c existing k i s)))" .
  qed simp
  moreover have "entries_state (client_entry c existing) input (w1, []) = (w2, kept)"
    using handle_entries_state [of "client_entry c existing" input "(w1, [])"] by (simp add: h)
  ultimately have "only ?ms w1 w2" by simp
  moreover have "only ?ms w w1" using listing_only [OF assms(3)] by (auto intro: only_mono)
  moreover have "only ?ms w2 w'" using collect_only [OF g] by (auto intro: only_mono)
  ultimately show "only ?ms w w'" using only_trans by blast
qed

text \<open>
  Groups that cannot be found do not restrict a client. If no group of a request resolves, for
  whatever reason, and the client has to be created, it is created and answered without any call
  that sets its allowed groups.
\<close>

theorem unresolved_groups_open:
  assumes "elems (snd (resolveGroupIDs c (Groups req) w)) = []"
    and "cached_credentials existing cachedResp = None" "FindClientByName existing (ClientName req) = None"
    and "processClient c existing req cachedResp (w, kept) = ((w', kept'), resp)"
  shows "only {''GET'', ''POST''} w w'
    \<and> (OIDCError resp = [] \<longrightarrow> kept' = ResponseID resp # kept)"
proof -
  obtain w1 g where r: "resolveGroupIDs c (Groups req) w = (w1, g)" by (cases "resolveGroupIDs c (Groups req) w")
  have w1: "only {''GET'', ''POST''} w w1" using resolve_only [of w c "Groups req"] by (auto simp: r intro: only_mono)
  have new: "createNewClient c (ClientName req) g (RequestCallbacks req) (w1, kept) = ((w', kept'), resp)"
    using assms(2-4) by (simp add: processClient_def r)
  have g: "elems g = []" using assms(1) by (simp add: r)
  obtain w2 q where cc: "CreateClient c (ClientName req) (RequestCallbacks req) w1 = (w2, q)"
    by (cases "CreateClient c (ClientName req) (RequestCallbacks req) w1")
  have w2: "only {''GET'', ''POST''} w1 w2" using create_calls [of c "ClientName req" "RequestCallbacks req" w1] by (simp add: cc)
  show ?thesis
  proof (cases q)
    case (Inl err)
    with new cc only_trans [OF w1 w2] show ?thesis by (auto simp: createNewClient_def oidc_error_def)
  next
    case (Inr client)
    obtain w3 d where d: "RegenerateSecret c (ClientID client) w2 = (w3, d)" by (cases "RegenerateSecret c (ClientID client) w2")
    have w3: "only {''GET'', ''POST''} w2 w3" using secret_calls [of c "ClientID client" w2] by (simp add: d)
    from only_trans [OF w1 only_trans [OF w2 w3]] new cc Inr d g show ?thesis
      by (cases d) (auto simp: createNewClient_def oidc_error_def)
  qed
qed

section \<open>Witnesses\<close>

definition demo_page :: "int \<Rightarrow> string" where
  "demo_page p =
     (if p = 1 then js ''{~data~:[{~id~:~a~,~name~:~one~}],~pagination~:{~currentPage~:1,~totalPages~:2}}''
      else js ''{~data~:[{~id~:~b~,~name~:~two~}],~pagination~:{~currentPage~:2,~totalPages~:2}}'')"

definition demo_clients :: "int \<Rightarrow> PocketIDClient list" where
  "demo_clients p = (if p = 1 then [\<lparr>ClientID = ''a'', Name = ''one''\<rparr>] else [\<lparr>ClientID = ''b'', Name = ''two''\<rparr>])"

definition demo_api :: PocketIDAPI where
  "demo_api = \<lparr>baseURL = ''id'', apiKey = ''key'',
     Do = (\<lambda>w call. HttpResponse 200
            (if Url call = ''id'' @ page_endpoint 1 then demo_page 1
             else if Url call = ''id'' @ page_endpoint 2 then demo_page 2
             else if Method call = ''POST'' then js ''{~id~:~n~,~secret~:~s~}'' else ''{}''))\<rparr>"

lemma demo_listing: "GetAllClients demo_api w = Some (w @ map (page_call demo_api) [1..2], Inr (demo_clients 1 @ demo_clients 2))"
proof -
  have p: "get_page demo_api p w = (w @ [page_call demo_api p], Inr \<lparr>ListData = demo_clients p, CurrentPage = p, TotalPages = 2\<rparr>)"
    if "1 \<le> p" "p \<le> 2" for p w
  proof -
    have "p = 1 \<or> p = 2" using that by arith
    moreover have "page_endpoint 1 \<noteq> page_endpoint 2" by code_simp
    moreover have "unmarshal_struct client_list_fields (demo_page 1) = Some \<lparr>ListData = demo_clients 1, CurrentPage = 1, TotalPages = 2\<rparr>"
      "unmarshal_struct client_list_fields (demo_page 2) = Some \<lparr>ListData = demo_clients 2, CurrentPage = 2, TotalPages = 2\<rparr>" by code_simp+
    ultimately show ?thesis
      by (auto simp: get_page_def doRequest_def Let_def call_result_def demo_api_def api_call_def page_call_def)
  qed
  have e: "[1..2] = [1, 2 :: int]" by (simp add: upto.simps)
  from pages_from [of 1 2 demo_api demo_clients 2 "[]" w] p show ?thesis by (simp add: GetAllClients_def e)
qed

text \<open>A run on this server, with the listings put in.\<close>

definition demo_result :: "HandlerInput \<Rightarrow> calls \<times> HandlerOutput option" where
  "demo_result input =
     (let listed = map (page_call demo_api) [1, 2]; clients = demo_clients 1 @ demo_clients 2;
          ((w, keptIDs), out) = handle_entries (client_entry demo_api clients) input (listed, [])
      in (fold (collect_client demo_api keptIDs) clients (w @ listed), Some out))"

lemma demo_oidc_calls: "processEntries demo_api input [] = Some (demo_result input)"
proof -
  have e: "[1..2] = [1, 2 :: int]" by (simp add: upto.simps)
  show ?thesis
    by (simp add: processEntries_def garbageCollect_def demo_listing demo_result_def Let_def e split: prod.splits)
qed

theorem pages_complete_witness:
  "GetAllClients demo_api [] = Some (map (page_call demo_api) [1, 2],
     Inr [\<lparr>ClientID = ''a'', Name = ''one''\<rparr>, \<lparr>ClientID = ''b'', Name = ''two''\<rparr>])"
proof -
  have two: "p = 1 \<or> p = 2" if "1 \<le> p" "p \<le> max 1 (2 :: int)" for p using that by auto
  have "page_endpoint 1 \<noteq> page_endpoint 2" by code_simp
  then have r: "Do demo_api w (page_call demo_api p) = HttpResponse 200 (demo_page p)" if "1 \<le> p" "p \<le> max 1 2" for p w
    using two [OF that] by (auto simp: demo_api_def page_call_def api_call_def)
  have d: "unmarshal_struct client_list_fields (demo_page p) = Some \<lparr>ListData = demo_clients p, CurrentPage = p, TotalPages = 2\<rparr>"
    if "1 \<le> p" "p \<le> max 1 2" for p
  proof -
    have "unmarshal_struct client_list_fields (demo_page 1) = Some \<lparr>ListData = demo_clients 1, CurrentPage = 1, TotalPages = 2\<rparr>"
      "unmarshal_struct client_list_fields (demo_page 2) = Some \<lparr>ListData = demo_clients 2, CurrentPage = 2, TotalPages = 2\<rparr>" by code_simp+
    then show ?thesis using two [OF that] by auto
  qed
  have e: "[1..2] = [1, 2 :: int]" by (simp add: upto.simps)
  from pages_complete [of 2 demo_api demo_page demo_clients "[]"] r d show ?thesis
    by (simp add: e demo_clients_def)
qed

text \<open>Client \<open>b\<close> belongs to a key whose request is malformed.\<close>

definition demo_oidc_input :: HandlerInput where
  "demo_oidc_input =
     [(''x:oidc'', \<lparr>InRequest = Some (js ''{~client_name~:~one~}''), InResponse = None\<rparr>),
      (''y:oidc'', \<lparr>InRequest = Some ''{'', InResponse = Some (js ''{~client_id~:~b~,~client_secret~:~t~}'')\<rparr>)]"

lemma demo_oidc_run: "\<exists>w' out. processEntries demo_api demo_oidc_input [] = Some (w', Some out)
   \<and> answered_ids out = [''a'', []] \<and> map Method w' = [''GET'', ''GET'', ''PUT'', ''POST'', ''GET'', ''GET'', ''DELETE'']"
proof -
  have "(\<lambda>(w', out). (map Method w', map_option answered_ids out)) (demo_result demo_oidc_input)
    = ([''GET'', ''GET'', ''PUT'', ''POST'', ''GET'', ''GET'', ''DELETE''], Some [''a'', []])"
    by code_simp
  then show ?thesis unfolding demo_oidc_calls by (cases "demo_result demo_oidc_input") auto
qed

theorem unanswered_clients_deleted_witness:
  "\<exists>w'. (\<exists>out. processEntries demo_api demo_oidc_input [] = Some (w', Some out))
     \<and> api_call demo_api ''DELETE'' ''/api/oidc/clients/b'' None \<in> set w'"
proof -
  obtain w' out where r: "processEntries demo_api demo_oidc_input [] = Some (w', Some out)" and a: "answered_ids out = [''a'', []]"
    using demo_oidc_run by blast
  have "gomap_ok demo_oidc_input" by (simp add: demo_oidc_input_def)
  from unanswered_clients_deleted [OF r this] obtain w2 w3 q where q: "GetAllClients demo_api w2 = Some (w3, q)"
    "\<forall>clients. q = Inr clients \<and> [] \<notin> ClientID ` set clients \<longrightarrow>
         w' = w3 @ map (\<lambda>x. api_call demo_api ''DELETE'' (client_endpoint (ClientID x)) None)
                     (filter (\<lambda>x. ClientID x \<notin> set (answered_ids out)) clients)" by blast
  have "q = Inr (demo_clients 1 @ demo_clients 2)" using q(1) by (simp add: demo_listing)
  with q(2) have "w' = w3 @ [api_call demo_api ''DELETE'' ''/api/oidc/clients/b'' None]"
    by (simp add: demo_clients_def a client_endpoint_def)
  then show ?thesis using r by auto
qed

text \<open>The same with well-formed requests and cached credentials.\<close>

definition demo_cached_input :: HandlerInput where
  "demo_cached_input =
     [(''y:oidc'', \<lparr>InRequest = Some (js ''{~client_name~:~two~}''),
        InResponse = Some (oidc_response_json \<lparr>ResponseID = ''b'', ClientSecret = ''t'', OIDCError = []\<rparr>)\<rparr>)]"

theorem credentials_stable_witness:
  "\<exists>w' out. processEntries demo_api demo_cached_input [] = Some (w', Some out)
     \<and> map_of out ''y:oidc'' = Some \<lparr>OutRequest = Some (js ''{~client_name~:~two~}''),
         OutResponse = Some (oidc_response_json \<lparr>ResponseID = ''b'', ClientSecret = ''t'', OIDCError = []\<rparr>)\<rparr>
     \<and> only {''GET'', ''PUT'', ''DELETE''} [] w'"
proof -
  let ?r = "\<lparr>ResponseID = ''b'', ClientSecret = ''t'', OIDCError = []\<rparr>"
  obtain w' out where r: "processEntries demo_api demo_cached_input [] = Some (w', Some out)"
    by (simp add: demo_oidc_calls demo_result_def Let_def case_prod_unfold)
  have q: "map_option ClientName (unmarshal_struct oidc_request_fields (js ''{~client_name~:~two~}'')) = Some ''two''" by code_simp
  have c: "cached_credentials (demo_clients 1 @ demo_clients 2) (Some (oidc_response_json ?r)) = Some ?r" by code_simp
  have ok: "gomap_ok demo_cached_input" by (simp add: demo_cached_input_def)
  have e: "cached_entry (demo_clients 1 @ demo_clients 2) i" if "map_of demo_cached_input k = Some i" for k i
    using that q c by (auto simp: demo_cached_input_def cached_entry_def raw_bytes_def split: if_splits option.splits)
  have "(\<forall>k i. map_of demo_cached_input k = Some i \<longrightarrow> map_of out k = Some \<lparr>OutRequest = InRequest i,
        OutResponse = map_option oidc_response_json (cached_credentials (demo_clients 1 @ demo_clients 2) (InResponse i))\<rparr>)
    \<and> only {''GET'', ''PUT'', ''DELETE''} [] w'"
    by (rule credentials_stable [OF r ok demo_listing e])
  moreover have "map_of demo_cached_input ''y:oidc'' = Some \<lparr>InRequest = Some (js ''{~client_name~:~two~}''),
      InResponse = Some (oidc_response_json ?r)\<rparr>" by (simp add: demo_cached_input_def)
  ultimately show ?thesis using r c by fastforce
qed

text \<open>The server knows no group.\<close>

definition demo_oidc_request :: OIDCRequest where
  "demo_oidc_request = \<lparr>ClientName = ''new'', Groups = [''admins''], RequestCallbacks = [], OIDCNeedID = []\<rparr>"

theorem unresolved_groups_open_witness:
  "\<exists>w'. processClient demo_api [] demo_oidc_request None ([], [])
       = ((w', [''n'']), \<lparr>ResponseID = ''n'', ClientSecret = ''s'', OIDCError = []\<rparr>)
     \<and> only {''GET'', ''POST''} [] w'"
proof -
  obtain w' kept' resp where p: "processClient demo_api [] demo_oidc_request None ([], []) = ((w', kept'), resp)"
    by (metis surj_pair)
  have s: "snd (processClient demo_api [] demo_oidc_request None ([], [])) = \<lparr>ResponseID = ''n'', ClientSecret = ''s'', OIDCError = []\<rparr>"
    by code_simp
  have "elems (snd (resolveGroupIDs demo_api (Groups demo_oidc_request) [])) = []" by code_simp
  moreover have "cached_credentials [] None = None" "FindClientByName [] (ClientName demo_oidc_request) = None" by code_simp+
  ultimately have "only {''GET'', ''POST''} [] w' \<and> (OIDCError resp = [] \<longrightarrow> kept' = ResponseID resp # [])"
    by (rule unresolved_groups_open [OF _ _ _ p])
  then show ?thesis using p s by auto
qed

end
