(* ===== verification/Lan_IP.thy ===== *)
theory Lan_IP
  imports Json_Text
begin

text \<open>
  \<open>aspects/mesh/provider\<close>: the \<open>lan-ip\<close> capability, the source address of the default
  route as \<open>ip route get\<close> prints it.
\<close>

record LanIPResponse =
  LanIP :: string
  LanError :: string

definition lan_response_json :: "LanIPResponse \<Rightarrow> string" where
  "lan_response_json r = json_print (JObj
     ((if LanIP r = [] then [] else [(''lan_ip'', JStr (LanIP r))])
      @ (if LanError r = [] then [] else [(''error'', JStr (LanError r))])))"

text \<open>
  \<open>\d{1,3}\.\<close> and \<open>\d{1,3}\<close> at the start of a text, greedily: before a dot all the digits
  there are, at the end of the pattern at most three of them.
\<close>

definition match_octet_dot :: "string \<Rightarrow> (string \<times> string) option" where
  "match_octet_dot s =
     (let ds = takeWhile is_digit s; r = dropWhile is_digit s in
      if 1 \<le> length ds \<and> length ds \<le> 3 \<and> r \<noteq> [] \<and> hd r = CHR ''.'' then Some (ds @ ''.'', tl r) else None)"

definition match_ip :: "string \<Rightarrow> string option" where
  "match_ip s =
     Option.bind (match_octet_dot s) (\<lambda>(a, s1).
     Option.bind (match_octet_dot s1) (\<lambda>(b, s2).
     Option.bind (match_octet_dot s2) (\<lambda>(c, s3).
       let d = take 3 (takeWhile is_digit s3) in if d = [] then None else Some (a @ b @ c @ d))))"

text \<open>\<open>src\s+(...)\<close> at the start of a text.\<close>

definition match_src :: "string \<Rightarrow> string option" where
  "match_src s =
     (if HasPrefix s ''src'' \<and> takeWhile regex_space (TrimPrefix s ''src'') \<noteq> []
      then match_ip (dropWhile regex_space (TrimPrefix s ''src'')) else None)"

text \<open>The leftmost match; the trimming of the group changes nothing.\<close>

fun parseSourceIP :: "string \<Rightarrow> string" where
  "parseSourceIP [] = []"
| "parseSourceIP (c # s) =
     (case match_src (c # s) of Some ip \<Rightarrow> TrimSpace ip | None \<Rightarrow> parseSourceIP s)"

text \<open>The command's error, if any, and its output.\<close>

definition getLanIP :: "string option \<times> string \<Rightarrow> LanIPResponse" where
  "getLanIP run =
     (case run of
        (Some err, _) \<Rightarrow> \<lparr>LanIP = [], LanError = ''ip route failed: '' @ err\<rparr>
      | (None, output) \<Rightarrow>
          (let ip = parseSourceIP output in
           if ip = [] then \<lparr>LanIP = [], LanError = ''no default route''\<rparr> else \<lparr>LanIP = ip, LanError = []\<rparr>))"

text \<open>\<open>main\<close>: the exit status and the standard output; the input is read and ignored.\<close>

definition lan_main :: "string option \<Rightarrow> string option \<times> string \<Rightarrow> nat \<times> string" where
  "lan_main stdinError run =
     (case stdinError of
        Some err \<Rightarrow> (1, lan_response_json \<lparr>LanIP = [], LanError = ''failed to read stdin: '' @ err\<rparr>)
      | None \<Rightarrow>
          (let r = getLanIP run in (if LanError r = [] then 0 else 1, lan_response_json r)))"

section \<open>Lemmas\<close>

definition octet :: "string \<Rightarrow> bool" where
  "octet ds \<longleftrightarrow> 1 \<le> length ds \<and> length ds \<le> 3 \<and> list_all is_digit ds"

text \<open>Four groups of one to three digits.\<close>

definition dotted_quad :: "string \<Rightarrow> bool" where
  "dotted_quad ip \<longleftrightarrow> (\<exists>a b c d. octet a \<and> octet b \<and> octet c \<and> octet d
     \<and> ip = a @ ''.'' @ b @ ''.'' @ c @ ''.'' @ d)"

lemma match_octet_dot_iff: "match_octet_dot s = Some (x, r) \<longleftrightarrow> (\<exists>a. octet a \<and> x = a @ ''.'' \<and> s = a @ ''.'' @ r)"
proof
  assume "match_octet_dot s = Some (x, r)"
  then have h: "1 \<le> length (takeWhile is_digit s)" "length (takeWhile is_digit s) \<le> 3" "x = takeWhile is_digit s @ ''.''"
    and d: "dropWhile is_digit s \<noteq> [] \<and> hd (dropWhile is_digit s) = CHR ''.'' \<and> r = tl (dropWhile is_digit s)"
    by (simp_all add: match_octet_dot_def Let_def split: if_splits del: dropWhile_eq_Nil_conv dropWhile_eq_Cons_conv)
  from d have "dropWhile is_digit s = CHR ''.'' # r" by (cases "dropWhile is_digit s") simp_all
  with takeWhile_dropWhile_id [of is_digit s] have e: "takeWhile is_digit s @ CHR ''.'' # r = s" by (simp only:)
  have o: "octet (takeWhile is_digit s)" using h by (auto simp: octet_def list_all_iff dest: set_takeWhileD)
  show "\<exists>a. octet a \<and> x = a @ ''.'' \<and> s = a @ ''.'' @ r"
  proof (intro exI conjI)
    show "s = takeWhile is_digit s @ ''.'' @ r" unfolding append_Cons append_Nil by (rule e [symmetric])
  qed (fact o, fact h(3))
next
  assume "\<exists>a. octet a \<and> x = a @ ''.'' \<and> s = a @ ''.'' @ r"
  then obtain a where a: "octet a" "x = a @ ''.''" "s = a @ ''.'' @ r" by blast
  have "\<not> is_digit CHR ''.''" by (simp add: is_digit_def)
  then have "takeWhile is_digit s = a" "dropWhile is_digit s = CHR ''.'' # r"
    using a by (auto simp: octet_def list_all_iff takeWhile_append2 dropWhile_append2)
  then show "match_octet_dot s = Some (x, r)" using a by (simp add: match_octet_dot_def octet_def)
qed

lemma match_ip_shape: "match_ip s = Some ip \<Longrightarrow> dotted_quad ip"
proof -
  assume "match_ip s = Some ip"
  then obtain a b c s1 s2 s3 where m: "match_octet_dot s = Some (a, s1)" "match_octet_dot s1 = Some (b, s2)"
    "match_octet_dot s2 = Some (c, s3)" "take 3 (takeWhile is_digit s3) \<noteq> []" "ip = a @ b @ c @ take 3 (takeWhile is_digit s3)"
    by (auto simp: match_ip_def Let_def split: Option.bind_splits if_splits)
  have "octet (take 3 (takeWhile is_digit s3))"
    using m(4) by (auto simp: octet_def list_all_iff Suc_le_eq dest!: in_set_takeD set_takeWhileD)
  moreover obtain a' where "octet a'" "a = a' @ ''.''" using m(1) by (auto simp: match_octet_dot_iff)
  moreover obtain b' where "octet b'" "b = b' @ ''.''" using m(2) by (auto simp: match_octet_dot_iff)
  moreover obtain c' where "octet c'" "c = c' @ ''.''" using m(3) by (auto simp: match_octet_dot_iff)
  ultimately show ?thesis using m(5) unfolding dotted_quad_def
    by (intro exI [of _ a'] exI [of _ b'] exI [of _ c'] exI [of _ "take 3 (takeWhile is_digit s3)"]) simp
qed

lemma dotted_quad_plain: "dotted_quad ip \<Longrightarrow> c \<in> set ip \<Longrightarrow> is_digit c \<or> c = CHR ''.''"
  by (auto simp: dotted_quad_def octet_def list_all_iff)

lemma dotted_quad_trim: "dotted_quad ip \<Longrightarrow> TrimSpace ip = ip"
  by (rule TrimSpace_id) (auto dest!: dotted_quad_plain simp: is_digit_def is_space_def)

lemma parse_shape: "parseSourceIP s = [] \<or> dotted_quad (parseSourceIP s)"
proof (induction s rule: parseSourceIP.induct)
  case (2 c s)
  then show ?case
    by (cases "match_src (c # s)")
      (auto simp: match_src_def dotted_quad_trim split: if_splits dest!: match_ip_shape)
qed simp

lemma match_ip_found:
  assumes "dotted_quad ip" "rest = [] \<or> \<not> is_digit (hd rest)"
  shows "match_ip (ip @ rest) = Some ip"
proof -
  obtain a b c d where q: "octet a" "octet b" "octet c" "octet d" "ip = a @ ''.'' @ b @ ''.'' @ c @ ''.'' @ d"
    using assms(1) by (auto simp: dotted_quad_def)
  have "match_octet_dot (ip @ rest) = Some (a @ ''.'', b @ ''.'' @ c @ ''.'' @ d @ rest)"
    "match_octet_dot (b @ ''.'' @ c @ ''.'' @ d @ rest) = Some (b @ ''.'', c @ ''.'' @ d @ rest)"
    "match_octet_dot (c @ ''.'' @ d @ rest) = Some (c @ ''.'', d @ rest)"
    using q by (auto simp: match_octet_dot_iff)
  moreover have "takeWhile is_digit (d @ rest) = d"
    using q(4) assms(2) by (cases rest) (auto simp: octet_def list_all_iff takeWhile_append2)
  ultimately show ?thesis using q(4,5) by (auto simp: match_ip_def octet_def)
qed

lemma match_src_found:
  assumes "dotted_quad ip" "rest = [] \<or> \<not> is_digit (hd rest)" "sp \<noteq> []" "list_all regex_space sp"
  shows "match_src (''src'' @ sp @ ip @ rest) = Some ip"
proof -
  have "ip \<noteq> []" "is_digit (hd ip)" using assms(1) by (auto simp: dotted_quad_def octet_def list_all_iff hd_append Suc_le_eq)
  then have "\<not> regex_space (hd ip)" by (auto simp: regex_space_def is_digit_def)
  then have "takeWhile regex_space (sp @ ip @ rest) = sp" "dropWhile regex_space (sp @ ip @ rest) = ip @ rest"
    using assms(4) \<open>ip \<noteq> []\<close> by (cases ip; auto simp: list_all_iff takeWhile_append2 dropWhile_append2)+
  moreover have "HasPrefix (''src'' @ sp @ ip @ rest) ''src''" "TrimPrefix (''src'' @ sp @ ip @ rest) ''src'' = sp @ ip @ rest"
    by (rule HasPrefix_append, rule TrimPrefix_append)
  ultimately show ?thesis using assms(3) match_ip_found [OF assms(1,2)] unfolding match_src_def by simp
qed

section \<open>Properties\<close>

text \<open>
  The capability answers with an address or an error, never both or neither. The address has the
  shape of one, four groups of one to three digits; it is the one after the first \<open>src\<close> of the
  command's output, whatever the rest says, and a run that gives an address is the only one that
  exits with status zero.
\<close>

theorem lan_ip_found:
  assumes "octet a" "octet b" "octet c" "octet d"
    and "ip = a @ ''.'' @ b @ ''.'' @ c @ ''.'' @ d"
    and "rest = [] \<or> \<not> is_digit (hd rest)" "sp \<noteq> []" "list_all regex_space sp"
    and "\<And>k. k < length pre \<Longrightarrow> match_src (drop k (pre @ ''src'' @ sp @ ip @ rest)) = None"
  shows "getLanIP (None, pre @ ''src'' @ sp @ ip @ rest) = \<lparr>LanIP = ip, LanError = []\<rparr>
    \<and> (\<forall>run. (LanIP (getLanIP run) = [] \<longleftrightarrow> LanError (getLanIP run) \<noteq> [])
         \<and> (LanIP (getLanIP run) \<noteq> [] \<longrightarrow> dotted_quad (LanIP (getLanIP run)))
         \<and> (fst (lan_main None run) = 0 \<longleftrightarrow> LanIP (getLanIP run) \<noteq> []))"
proof -
  have q: "dotted_quad ip" using assms(1-5) by (auto simp: dotted_quad_def)
  then have ne: "ip \<noteq> []" by (auto simp: dotted_quad_def octet_def)
  have "parseSourceIP (pre @ ''src'' @ sp @ ip @ rest) = ip"
    using assms(9)
  proof (induction pre)
    case Nil
    show ?case using match_src_found [OF q assms(6-8)] dotted_quad_trim [OF q] by simp
  next
    case (Cons x pre)
    have "match_src (drop k (pre @ ''src'' @ sp @ ip @ rest)) = None" if "k < length pre" for k
      using Cons.prems [of "Suc k"] that by simp
    moreover have "match_src ((x # pre) @ ''src'' @ sp @ ip @ rest) = None" using Cons.prems [of 0] by simp
    ultimately show ?case using Cons.IH by (simp del: append_Cons add: append_Cons [of x pre])
  qed
  moreover have "(LanIP (getLanIP run) = [] \<longleftrightarrow> LanError (getLanIP run) \<noteq> [])
         \<and> (LanIP (getLanIP run) \<noteq> [] \<longrightarrow> dotted_quad (LanIP (getLanIP run)))
         \<and> (fst (lan_main None run) = 0 \<longleftrightarrow> LanIP (getLanIP run) \<noteq> [])" for run
    using parse_shape [of "snd run"]
    by (cases run; cases "fst run") (auto simp: getLanIP_def lan_main_def Let_def)
  ultimately show ?thesis using ne by (simp add: getLanIP_def Let_def)
qed

theorem lan_ip_found_witness:
  "LanIP (getLanIP (None, ''1.1.1.1 dev eth0 src  192.168.1.100 uid 0'')) = ''192.168.1.100''"
proof -
  let ?pre = "''1.1.1.1 dev eth0 ''"
  have o: "octet ''192''" "octet ''168''" "octet ''1''" "octet ''100''" by code_simp+
  have s: "list_all regex_space ''  ''" "\<not> is_digit (hd '' uid 0'')" by code_simp+
  have n: "list_all (\<lambda>k. match_src (drop k (?pre @ ''src'' @ ''  '' @ ''192.168.1.100'' @ '' uid 0'')) = None) [0..<length ?pre]"
    by code_simp
  have "match_src (drop k (?pre @ ''src'' @ ''  '' @ ''192.168.1.100'' @ '' uid 0'')) = None" if "k < length ?pre" for k
    using n that unfolding list_all_iff by (metis atLeastLessThan_iff le0 set_upt)
  from lan_ip_found [OF o _ _ _ s(1) this] s(2) show ?thesis by simp
qed

end
