(* ===== verification/Notify.thy ===== *)
theory Notify
  imports Signed_Token
begin

text \<open>
  \<open>apps/homeassistant/provider\<close>: the \<open>notify\<close> capability, which posts a notification to
  the webhook of Home Assistant. What the webhook does is a parameter.
\<close>

section \<open>types.go\<close>

record NotifyAction =
  Action :: string
  ActionTitle :: string
  URI :: string

record NotifyRequest =
  Title :: string
  Message :: string
  NotifyURL :: string
  Actions :: "NotifyAction list"

record NotifyResponse =
  NotifyStatus :: string
  NotifyError :: string

definition action_fields :: "(string \<times> json) list \<Rightarrow> NotifyAction option" where
  "action_fields ms =
     Option.bind (dec_field ''action'' dec_string [] ms) (\<lambda>a.
     Option.bind (dec_field ''title'' dec_string [] ms) (\<lambda>t.
     Option.bind (dec_field ''uri'' dec_string [] ms) (\<lambda>u. Some \<lparr>Action = a, ActionTitle = t, URI = u\<rparr>)))"

definition notify_fields :: "(string \<times> json) list \<Rightarrow> NotifyRequest option" where
  "notify_fields ms =
     Option.bind (dec_field ''title'' dec_string [] ms) (\<lambda>t.
     Option.bind (dec_field ''message'' dec_string [] ms) (\<lambda>m.
     Option.bind (dec_field ''url'' dec_string [] ms) (\<lambda>u.
     Option.bind (dec_field ''actions'' (dec_structs action_fields) [] ms) (\<lambda>a.
       Some \<lparr>Title = t, Message = m, NotifyURL = u, Actions = a\<rparr>))))"

definition notify_of :: "string \<Rightarrow> NotifyRequest option" where
  "notify_of = unmarshal_struct notify_fields"

text \<open>A member that is left out when empty.\<close>

definition text_member :: "string \<Rightarrow> string \<Rightarrow> (string \<times> json) list" where
  "text_member name v = (if v = [] then [] else [(name, JStr v)])"

definition action_json :: "NotifyAction \<Rightarrow> json" where
  "action_json a = JObj ([(''action'', JStr (Action a)), (''title'', JStr (ActionTitle a))] @ text_member ''uri'' (URI a))"

definition notify_json :: "NotifyRequest \<Rightarrow> string" where
  "notify_json r = json_print (JObj
     (text_member ''title'' (Title r) @ [(''message'', JStr (Message r))] @ text_member ''url'' (NotifyURL r)
      @ (if Actions r = [] then [] else [(''actions'', JArr (map action_json (Actions r)))])))"

definition notify_response_json :: "NotifyResponse \<Rightarrow> string" where
  "notify_response_json r = json_print (JObj (text_member ''status'' (NotifyStatus r) @ text_member ''error'' (NotifyError r)))"

section \<open>main.go\<close>

text \<open>
  The outcome of a post: no request could be made, none was answered, or a status came back.
  \<open>posts\<close> are the bodies posted so far.
\<close>

datatype Posted =
    NoRequest string
  | NoAnswer string
  | Answered nat

type_synonym webhook = "string \<Rightarrow> Posted"

definition sendNotification :: "webhook \<Rightarrow> NotifyRequest \<Rightarrow> string list \<Rightarrow> string list \<times> NotifyResponse" where
  "sendNotification hook req posts =
     (let body = notify_json req; failed = (\<lambda>msg. \<lparr>NotifyStatus = [], NotifyError = msg\<rparr>) in
      case hook body of
        NoRequest err \<Rightarrow> (posts, failed (''failed to create request: '' @ err))
      | NoAnswer err \<Rightarrow> (posts @ [body], failed (''webhook request failed: '' @ err))
      | Answered status \<Rightarrow>
          (posts @ [body],
           if status \<noteq> 200 then failed (''webhook returned '' @ Itoa (int status))
           else \<lparr>NotifyStatus = ''sent'', NotifyError = []\<rparr>))"

definition processRequest :: "webhook \<Rightarrow> string \<Rightarrow> string list \<Rightarrow> string list \<times> NotifyResponse" where
  "processRequest hook input posts =
     (case notify_of input of
        None \<Rightarrow> (posts, \<lparr>NotifyStatus = [], NotifyError = ''invalid JSON''\<rparr>)
      | Some req \<Rightarrow>
          if Message req = [] then (posts, \<lparr>NotifyStatus = [], NotifyError = ''message field is required''\<rparr>)
          else sendNotification hook req posts)"

text \<open>\<open>main\<close>: the bodies posted, the exit status and the standard output.\<close>

definition notify_main :: "webhook \<Rightarrow> string + string \<Rightarrow> string list \<times> nat \<times> string" where
  "notify_main hook stdin =
     (case stdin of
        Inl err \<Rightarrow> ([], 1, notify_response_json \<lparr>NotifyStatus = [], NotifyError = ''failed to read stdin: '' @ err\<rparr>)
      | Inr input \<Rightarrow>
          (case processRequest hook input [] of
             (posts, r) \<Rightarrow> (posts, if NotifyError r = [] then 0 else 1, notify_response_json r)))"

section \<open>Lemmas\<close>

lemma text_member_ints [simp]: "(\<forall>m \<in> set (text_member name v). json_ints (snd m))"
  by (simp add: text_member_def)

lemma notify_field_names:
  "\<not> fold_eq ''title'' ''message''" "\<not> fold_eq ''title'' ''url''" "\<not> fold_eq ''title'' ''actions''"
  "\<not> fold_eq ''message'' ''title''" "\<not> fold_eq ''message'' ''url''" "\<not> fold_eq ''message'' ''actions''"
  "\<not> fold_eq ''url'' ''title''" "\<not> fold_eq ''url'' ''message''" "\<not> fold_eq ''url'' ''actions''"
  "\<not> fold_eq ''actions'' ''title''" "\<not> fold_eq ''actions'' ''message''" "\<not> fold_eq ''actions'' ''url''"
  "\<not> fold_eq ''action'' ''title''" "\<not> fold_eq ''action'' ''uri''" "\<not> fold_eq ''title'' ''action''" "\<not> fold_eq ''title'' ''uri''"
  "\<not> fold_eq ''uri'' ''action''" "\<not> fold_eq ''uri'' ''title''"
  by code_simp+

lemma action_read: "dec_struct action_fields (action_json a) = Some a"
  by (simp add: dec_struct_def action_json_def action_fields_def text_member_def dec_field_def notify_field_names dec_string_def)

lemma actions_read: "dec_structs action_fields (JArr (map action_json as)) old = Some as"
proof -
  have "map (dec_struct action_fields) (map action_json as) = map Some as" by (simp add: action_read)
  then show ?thesis by (simp add: dec_structs_def del: map_map)
qed

lemma notify_read [simp]: "notify_of (notify_json r) = Some r"
proof -
  let ?ms = "text_member ''title'' (Title r) @ [(''message'', JStr (Message r))] @ text_member ''url'' (NotifyURL r)
      @ (if Actions r = [] then [] else [(''actions'', JArr (map action_json (Actions r)))])"
  have "json_ints (action_json a)" for a by (simp add: action_json_def text_member_def)
  then have "json_ints (JObj ?ms)" by (simp add: ball_Un)
  then have "notify_of (notify_json r) = notify_fields ?ms"
    unfolding notify_of_def notify_json_def by (rule unmarshal_printed)
  also have "\<dots> = Some r"
    by (simp add: notify_fields_def text_member_def dec_field_def notify_field_names dec_string_def actions_read)
  finally show ?thesis .
qed

interpretation notify_codec: json_codec notify_json notify_of "\<lambda>_. True"
  by unfold_locales (rule notify_read)

section \<open>Properties\<close>

text \<open>
  A notification is passed on as it is, once. A run posts nothing unless its input is a
  request with a message, and then one body, which reads as that request; it succeeds, with the
  answer \<open>sent\<close> and exit status zero, exactly when it posted and the webhook answered 200.
\<close>

theorem notify_passes_on:
  assumes "notify_main hook (Inr input) = (posts, exit_status, out)"
  shows "(\<forall>b \<in> set posts. \<exists>req. notify_of input = Some req \<and> Message req \<noteq> [] \<and> notify_of b = Some req)
    \<and> length posts \<le> 1
    \<and> (exit_status = 0 \<longleftrightarrow> (\<exists>b. posts = [b] \<and> hook b = Answered 200))
    \<and> (exit_status = 0 \<longrightarrow> out = js ''{~status~:~sent~}'')
    \<and> (exit_status \<noteq> 0 \<longrightarrow> (\<exists>msg. msg \<noteq> [] \<and> out = notify_response_json \<lparr>NotifyStatus = [], NotifyError = msg\<rparr>))"
proof -
  have sent: "notify_response_json \<lparr>NotifyStatus = ''sent'', NotifyError = []\<rparr> = js ''{~status~:~sent~}''" by code_simp
  show ?thesis
  proof (cases "\<exists>req. notify_of input = Some req \<and> Message req \<noteq> []")
    case False
    then have "\<exists>msg. msg \<noteq> [] \<and> processRequest hook input [] = ([], \<lparr>NotifyStatus = [], NotifyError = msg\<rparr>)"
      by (cases "notify_of input") (auto simp: processRequest_def)
    then show ?thesis using assms by (auto simp: notify_main_def)
  next
    case True
    then obtain req where r: "notify_of input = Some req" "Message req \<noteq> []" by blast
    then have p: "processRequest hook input [] = sendNotification hook req []" by (simp add: processRequest_def)
    show ?thesis
    proof (cases "hook (notify_json req)")
      case (Answered status)
      then show ?thesis using assms r p sent
        by (cases "status = 200") (auto simp: notify_main_def sendNotification_def Let_def)
    qed (use assms r p in \<open>auto simp: notify_main_def sendNotification_def Let_def\<close>)
  qed
qed

theorem notify_passes_on_witness:
  "\<exists>b out. notify_main (\<lambda>_. Answered 200) (Inr (js ''{~message~:~hi~,~actions~:[{~action~:~a~,~title~:~T~}]}'')) = ([b], 0, out)
     \<and> out = js ''{~status~:~sent~}'' \<and> map_option Message (notify_of b) = Some ''hi''"
proof -
  let ?in = "js ''{~message~:~hi~,~actions~:[{~action~:~a~,~title~:~T~}]}''"
  have i: "map_option Message (notify_of ?in) = Some ''hi''" by code_simp
  have e: "fst (snd (notify_main (\<lambda>_. Answered 200) (Inr ?in))) = 0" by code_simp
  obtain posts out where r: "notify_main (\<lambda>_. Answered 200) (Inr ?in) = (posts, 0, out)" using e by (metis prod.collapse)
  from notify_passes_on [OF r] i r show ?thesis by auto
qed

end
