(* ===== verification/Overlay_Order.thy ===== *)
theory Overlay_Order
  imports Go_Std "HOL-Library.List_Lexorder" "HOL-Library.Char_ord"
begin

text \<open>
  The configuration of \<open>pkgs/fort-overlay-manager/main.go\<close> and \<open>orderedOverlays\<close>,
  the depth-first search that puts the dependencies of an overlay before it. Strings are
  ordered by their bytes, as \<open>sort.Strings\<close> orders them.
\<close>

record OverlayConfig =
  Package :: string
  OverlaySettings :: "string gomap"
  Enabled :: bool
  DependsOn :: "string list"

record Config =
  RegistryUrl :: string
  PollInterval :: string
  StateDir :: string
  BinDir :: string
  Overlays :: "OverlayConfig gomap"

definition zero_OverlayConfig :: OverlayConfig where
  "zero_OverlayConfig = \<lparr>Package = [], OverlaySettings = [], Enabled = False, DependsOn = []\<rparr>"

definition overlay_config :: "OverlayConfig gomap \<Rightarrow> string \<Rightarrow> OverlayConfig" where
  "overlay_config overlays name =
     (case map_of overlays name of None \<Rightarrow> zero_OverlayConfig | Some ov \<Rightarrow> ov)"

section \<open>The search\<close>

text \<open>The marks of the search; a name without a mark is unvisited.\<close>

datatype Mark = Visiting | Done

type_synonym Search = "Mark gomap \<times> string list"

text \<open>
  \<open>visit\<close>. The recursion is bounded by fuel: every nested call is for a name that is not
  yet marked and marks it, so one unit more than there are overlays is always enough
  (\<open>visit_spec\<close> below needs no more, and \<open>visit_fuel\<close> says more changes nothing).
\<close>

fun visit :: "nat \<Rightarrow> OverlayConfig gomap \<Rightarrow> string \<Rightarrow> Search \<Rightarrow> Search" where
  "visit 0 overlays name (marks, order) = (marks, order)"
| "visit (Suc n) overlays name (marks, order) =
     (case map_of marks name of
        Some Visiting \<Rightarrow> (marks, order)
      | Some Done \<Rightarrow> (marks, order)
      | None \<Rightarrow>
          (let deps = sort (DependsOn (overlay_config overlays name));
               (marks2, order2) =
                 fold (\<lambda>dep s. if map_of overlays dep \<noteq> None then visit n overlays dep s else s)
                   deps (AList.update name Visiting marks, order)
           in (AList.update name Done marks2, order2 @ [name])))"

lemma visit_0 [simp]: "visit 0 overlays name s = s"
  by (cases s) simp

definition orderedOverlays :: "OverlayConfig gomap \<Rightarrow> string list" where
  "orderedOverlays overlays =
     snd (fold (visit (Suc (length overlays)) overlays) (sort (map fst overlays)) ([], []))"

section \<open>Dependencies\<close>

definition dependency :: "OverlayConfig gomap \<Rightarrow> (string \<times> string) set" where
  "dependency overlays =
     {(name, dep). dep \<in> set (DependsOn (overlay_config overlays name)) \<and> map_of overlays name \<noteq> None
        \<and> map_of overlays dep \<noteq> None}"

definition before :: "string list \<Rightarrow> string \<Rightarrow> string \<Rightarrow> bool" where
  "before order a b \<longleftrightarrow> (\<exists>xs ys. order = xs @ b # ys \<and> a \<in> set xs)"

lemma before_append: "before order a b \<Longrightarrow> before (order @ rest) a b"
  unfolding before_def by fastforce

lemma before_snoc: "a \<in> set order \<Longrightarrow> before (order @ [b]) a b"
  unfolding before_def by blast

text \<open>
  The invariant: the finished names are those listed, each once; every listed name has the
  dependencies that do not lead back to it before it.
\<close>

definition search_ok :: "OverlayConfig gomap \<Rightarrow> Search \<Rightarrow> bool" where
  "search_ok overlays s \<longleftrightarrow>
     (case s of (marks, order) \<Rightarrow>
        distinct order
        \<and> (\<forall>n. map_of marks n = Some Done \<longleftrightarrow> n \<in> set order)
        \<and> dom (map_of marks) \<subseteq> dom (map_of overlays)
        \<and> (\<forall>n d. n \<in> set order \<longrightarrow> (n, d) \<in> dependency overlays \<longrightarrow> (d, n) \<notin> (dependency overlays)\<^sup>*
             \<longrightarrow> before order d n))"

definition visiting :: "Search \<Rightarrow> string set" where
  "visiting s = {n. map_of (fst s) n = Some Visiting}"

definition unmarked :: "OverlayConfig gomap \<Rightarrow> Search \<Rightarrow> string set" where
  "unmarked overlays s = dom (map_of overlays) - dom (map_of (fst s))"

text \<open>What one call of \<open>visit\<close> may do to the search.\<close>

definition extends :: "OverlayConfig gomap \<Rightarrow> Search \<Rightarrow> Search \<Rightarrow> bool" where
  "extends overlays s s' \<longleftrightarrow>
     search_ok overlays s' \<and> visiting s' = visiting s
     \<and> (\<exists>rest. snd s' = snd s @ rest) \<and> unmarked overlays s' \<subseteq> unmarked overlays s"

lemma extends_refl: "search_ok overlays s \<Longrightarrow> extends overlays s s"
  by (simp add: extends_def)

lemma extends_trans: "extends overlays s s' \<Longrightarrow> extends overlays s' s'' \<Longrightarrow> extends overlays s s''"
  unfolding extends_def by (metis append_assoc subset_trans)

lemma extends_order: "extends overlays s s' \<Longrightarrow> set (snd s) \<subseteq> set (snd s')"
  by (auto simp: extends_def)

lemma finite_unmarked [simp]: "finite (unmarked overlays s)"
  by (simp add: unmarked_def finite_dom_map_of)

lemma dom_update: "dom (map_of (AList.update k v m)) = insert k (dom (map_of m))"
  by (auto simp: gomap split: if_splits)

lemma search_ok_done: "search_ok overlays (marks, order) \<Longrightarrow> n \<in> set order \<longleftrightarrow> map_of marks n = Some Done"
  by (simp add: search_ok_def)

lemma search_ok_mark:
  assumes "search_ok overlays (marks, order)" and "map_of marks name = None" and "map_of overlays name \<noteq> None"
  shows "search_ok overlays (AList.update name Visiting marks, order)"
proof -
  have "name \<notin> set order" using assms(2) search_ok_done [OF assms(1), of name] by simp
  moreover have "dom (map_of (AList.update name Visiting marks)) \<subseteq> dom (map_of overlays)"
    using assms unfolding dom_update search_ok_def by blast
  ultimately show ?thesis using assms(1) by (simp add: search_ok_def map_of_update)
qed

lemma finish_visit:
  assumes ok: "search_ok overlays (marks, order)" and None: "map_of marks name = None"
    and declared: "map_of overlays name \<noteq> None"
    and e: "extends overlays (AList.update name Visiting marks, order) (marks2, order2)"
    and anc: "\<forall>v\<in>visiting (marks, order). (v, name) \<in> (dependency overlays)\<^sup>*"
    and deps: "\<And>d. (name, d) \<in> dependency overlays \<Longrightarrow>
          d \<in> insert name (visiting (marks, order)) \<or> d \<in> set order2"
  shows "extends overlays (marks, order) (AList.update name Done marks2, order2 @ [name])"
proof -
  have vis: "visiting (AList.update name Visiting marks, order) = insert name (visiting (marks, order))"
    by (auto simp: visiting_def gomap)
  have ok2: "search_ok overlays (marks2, order2)" and v2: "visiting (marks2, order2) = insert name (visiting (marks, order))"
    and u2: "unmarked overlays (marks2, order2) \<subseteq> unmarked overlays (AList.update name Visiting marks, order)"
    and o2: "\<exists>rest. order2 = order @ rest"
    using e by (auto simp: extends_def vis)
  have "map_of marks2 name = Some Visiting" using v2 by (auto simp: visiting_def)
  then have new: "name \<notin> set order2" using search_ok_done [OF ok2, of name] by simp
  have "before (order2 @ [name]) d n"
    if "n \<in> set (order2 @ [name])" "(n, d) \<in> dependency overlays" "(d, n) \<notin> (dependency overlays)\<^sup>*" for n d
  proof (cases "n = name")
    case True
    then have "d \<in> set order2" using deps that anc by blast
    then show ?thesis using True by (simp add: before_snoc)
  next
    case False
    then show ?thesis using that ok2 by (auto simp: search_ok_def before_append)
  qed
  moreover have "dom (map_of (AList.update name Done marks2)) \<subseteq> dom (map_of overlays)"
    using ok2 declared unfolding dom_update search_ok_def by blast
  moreover have "\<forall>n. map_of (AList.update name Done marks2) n = Some Done \<longleftrightarrow> n \<in> set (order2 @ [name])"
    using ok2 by (auto simp: search_ok_def map_of_update)
  ultimately have "search_ok overlays (AList.update name Done marks2, order2 @ [name])"
    using new ok2 unfolding search_ok_def by simp
  moreover have "visiting (AList.update name Done marks2, order2 @ [name]) = visiting (marks, order)"
    using v2 None by (auto simp: visiting_def map_of_update)
  moreover have "unmarked overlays (AList.update name Done marks2, order2 @ [name]) \<subseteq> unmarked overlays (marks, order)"
    using u2 unfolding unmarked_def fst_conv dom_update by blast
  ultimately show ?thesis using o2 by (auto simp: extends_def)
qed

lemma dependencies_visited:
  assumes visit: "\<And>d t. search_ok overlays t \<Longrightarrow> map_of overlays d \<noteq> None \<Longrightarrow>
      \<forall>v\<in>visiting t. (v, d) \<in> (dependency overlays)\<^sup>* \<Longrightarrow> card (unmarked overlays t) < n \<Longrightarrow>
      extends overlays t (visit n overlays d t) \<and> (d \<in> visiting t \<or> d \<in> set (snd (visit n overlays d t)))"
    and "map_of overlays name \<noteq> None" and "set deps \<subseteq> set (DependsOn (overlay_config overlays name))"
    and "search_ok overlays t" and "\<forall>v\<in>visiting t. (v, name) \<in> (dependency overlays)\<^sup>*"
    and "card (unmarked overlays t) < n"
  defines "r \<equiv> fold (\<lambda>dep s. if map_of overlays dep \<noteq> None then visit n overlays dep s else s) deps t"
  shows "extends overlays t r
    \<and> list_all (\<lambda>d. map_of overlays d \<noteq> None \<longrightarrow> d \<in> visiting t \<or> d \<in> set (snd r)) deps"
  using assms(3-6) unfolding r_def
proof (induction deps arbitrary: t)
  case Nil
  then show ?case by (simp add: extends_refl)
next
  case (Cons d deps)
  let ?rest = "fold (\<lambda>dep s. if map_of overlays dep \<noteq> None then visit n overlays dep s else s) deps"
  show ?case
  proof (cases "map_of overlays d")
    case None
    then show ?thesis using Cons by simp
  next
    case (Some ov)
    let ?t = "visit n overlays d t"
    have "(name, d) \<in> dependency overlays" using Cons.prems(1) assms(2) Some by (auto simp: dependency_def)
    then have "\<forall>v\<in>visiting t. (v, d) \<in> (dependency overlays)\<^sup>*"
      using Cons.prems(3) by (auto intro: rtrancl_into_rtrancl)
    with visit [OF Cons.prems(2) _ _ Cons.prems(4), of d] Some
    have e: "extends overlays t ?t" and d: "d \<in> visiting t \<or> d \<in> set (snd ?t)" by simp_all
    have "card (unmarked overlays ?t) < n"
      using Cons.prems(4) e card_mono [of "unmarked overlays t" "unmarked overlays ?t"] by (simp add: extends_def)
    then have "extends overlays ?t (?rest ?t)
        \<and> list_all (\<lambda>d. map_of overlays d \<noteq> None \<longrightarrow> d \<in> visiting ?t \<or> d \<in> set (snd (?rest ?t))) deps"
      using Cons.prems e by (intro Cons.IH) (auto simp: extends_def)
    moreover have "visiting ?t = visiting t" using e by (simp add: extends_def)
    ultimately show ?thesis
      using d Some extends_trans [OF e] extends_order [of overlays ?t "?rest ?t"] by auto
  qed
qed

lemma begin_visit:
  assumes "search_ok overlays (marks, order)" "map_of marks name = None" "map_of overlays name \<noteq> None"
  defines "s \<equiv> (AList.update name Visiting marks, order)"
  shows "search_ok overlays s" "visiting s = insert name (visiting (marks, order))"
    "card (unmarked overlays s) < card (unmarked overlays (marks, order))"
proof -
  show "search_ok overlays s" unfolding s_def using assms(1-3) by (rule search_ok_mark)
  show "visiting s = insert name (visiting (marks, order))"
    using assms(2) by (auto simp: s_def visiting_def gomap)
  have "unmarked overlays s \<subset> unmarked overlays (marks, order)"
    using assms(2,3) by (auto simp: s_def unmarked_def dom_update)
  then show "card (unmarked overlays s) < card (unmarked overlays (marks, order))"
    by (simp add: psubset_card_mono)
qed

lemma visit_spec:
  assumes "search_ok overlays s" and "map_of overlays name \<noteq> None"
    and "\<forall>v\<in>visiting s. (v, name) \<in> (dependency overlays)\<^sup>*"
    and "card (unmarked overlays s) < fuel"
  shows "extends overlays s (visit fuel overlays name s)
    \<and> (name \<in> visiting s \<or> name \<in> set (snd (visit fuel overlays name s)))"
  using assms
proof (induction fuel arbitrary: name s)
  case (Suc n)
  obtain marks order where s: "s = (marks, order)" by (cases s)
  show ?case
  proof (cases "map_of marks name")
    case (Some m)
    then have "visit (Suc n) overlays name s = s" by (cases m) (simp_all add: s)
    moreover have "name \<in> visiting s \<or> name \<in> set order"
      using Some Suc.prems(1) by (cases m) (auto simp: s visiting_def search_ok_def)
    ultimately show ?thesis using Suc.prems(1) by (simp add: extends_refl s)
  next
    case None
    let ?s1 = "(AList.update name Visiting marks, order)"
    have ok: "search_ok overlays (marks, order)" using Suc.prems(1) by (simp add: s)
    note start = begin_visit [OF ok None Suc.prems(2)]
    have "card (unmarked overlays ?s1) < n" using start(3) Suc.prems(4) by (simp add: s)
    moreover have "\<forall>v\<in>visiting ?s1. (v, name) \<in> (dependency overlays)\<^sup>*"
      unfolding start(2) using Suc.prems(3) by (simp add: s)
    moreover obtain marks2 order2 where s2:
      "fold (\<lambda>dep s. if map_of overlays dep \<noteq> None then visit n overlays dep s else s)
         (sort (DependsOn (overlay_config overlays name))) ?s1 = (marks2, order2)" by (rule prod.exhaust)
    ultimately have e: "extends overlays ?s1 (marks2, order2)"
      and deps: "\<And>d. (name, d) \<in> dependency overlays \<Longrightarrow> d \<in> insert name (visiting (marks, order)) \<or> d \<in> set order2"
      using dependencies_visited [OF Suc.IH Suc.prems(2) _ start(1), of "sort (DependsOn (overlay_config overlays name))"]
      unfolding start(2) by (auto simp: list_all_iff dependency_def)
    have "extends overlays (marks, order) (AList.update name Done marks2, order2 @ [name])"
      by (rule finish_visit [OF ok None Suc.prems(2) e _ deps]) (use Suc.prems(3) in \<open>simp_all add: s\<close>)
    then show ?thesis using None s2 by (simp add: s Let_def)
  qed
qed simp

text \<open>More fuel changes nothing.\<close>

lemma visit_unmarked: "unmarked overlays (visit fuel overlays name s) \<subseteq> unmarked overlays s"
proof (induction fuel arbitrary: name s)
  case (Suc n)
  obtain marks order where s: "s = (marks, order)" by (cases s)
  let ?step = "\<lambda>dep s. if map_of overlays dep \<noteq> None then visit n overlays dep s else s"
  show ?case
  proof (cases "map_of marks name")
    case (Some m)
    then show ?thesis by (cases m) (simp_all add: s)
  next
    case None
    have f: "unmarked overlays (fold ?step ds t) \<subseteq> unmarked overlays t" for ds t
    proof (induction ds arbitrary: t)
      case (Cons d ds)
      have "unmarked overlays (?step d t) \<subseteq> unmarked overlays t" using Suc.IH [of d t] by simp
      moreover have "unmarked overlays (fold ?step ds (?step d t)) \<subseteq> unmarked overlays (?step d t)" by (rule Cons)
      ultimately show ?case by (simp only: fold_simps subset_trans)
    qed simp
    let ?r = "fold ?step (sort (DependsOn (overlay_config overlays name))) (AList.update name Visiting marks, order)"
    have "visit (Suc n) overlays name s = (AList.update name Done (fst ?r), snd ?r @ [name])"
      using None by (simp add: s split_beta Let_def)
    then show ?thesis using f [of "sort (DependsOn (overlay_config overlays name))" "(AList.update name Visiting marks, order)"]
      unfolding unmarked_def s by (auto simp: dom_update)
  qed
qed simp

lemma visit_fuel:
  "map_of overlays name \<noteq> None \<Longrightarrow> card (unmarked overlays s) < n \<Longrightarrow> card (unmarked overlays s) < m
     \<Longrightarrow> visit n overlays name s = visit m overlays name s"
proof (induction n arbitrary: m name s)
  case (Suc n)
  obtain m' where m: "m = Suc m'" using Suc.prems(3) by (cases m) auto
  obtain marks order where s: "s = (marks, order)" by (cases s)
  show ?case
  proof (cases "map_of marks name")
    case (Some x)
    then show ?thesis by (cases x) (simp_all add: s m)
  next
    case None
    let ?s1 = "(AList.update name Visiting marks, order)"
    have "unmarked overlays ?s1 \<subset> unmarked overlays s"
      using None Suc.prems(1) by (auto simp: unmarked_def s dom_update)
    then have c: "card (unmarked overlays ?s1) < card (unmarked overlays s)"
      by (simp add: psubset_card_mono)
    have "fold (\<lambda>dep s. if map_of overlays dep \<noteq> None then visit n overlays dep s else s) ds t
        = fold (\<lambda>dep s. if map_of overlays dep \<noteq> None then visit m' overlays dep s else s) ds t"
      if "unmarked overlays t \<subseteq> unmarked overlays ?s1" for ds t
      using that
    proof (induction ds arbitrary: t)
      case (Cons d ds)
      have t: "card (unmarked overlays t) \<le> card (unmarked overlays ?s1)"
        using Cons.prems by (rule card_mono [OF finite_unmarked])
      have "visit n overlays d t = visit m' overlays d t" if "map_of overlays d \<noteq> None"
        using t c Suc.prems(2,3) m by (intro Suc.IH [OF that]) simp_all
      moreover have "unmarked overlays (visit m' overlays d t) \<subseteq> unmarked overlays ?s1"
        using Cons.prems visit_unmarked by blast
      ultimately show ?case using Cons by simp
    qed simp
    then show ?thesis using None by (simp add: s m)
  qed
qed simp

section \<open>The order\<close>

lemma visits_spec:
  assumes "set names \<subseteq> dom (map_of overlays)" and "search_ok overlays s" and "visiting s = {}"
    and "card (unmarked overlays s) < fuel"
  shows "extends overlays s (fold (visit fuel overlays) names s) \<and> set names \<subseteq> set (snd (fold (visit fuel overlays) names s))"
  using assms
proof (induction names arbitrary: s)
  case (Cons d names)
  let ?s = "visit fuel overlays d s"
  have e: "extends overlays s ?s" and d: "d \<in> set (snd ?s)"
    using visit_spec [OF Cons.prems(2) _ _ Cons.prems(4), of d] Cons.prems(1,3) by auto
  have "card (unmarked overlays ?s) < fuel"
    using Cons.prems(4) card_mono [OF finite_unmarked visit_unmarked] by (rule le_less_trans [rotated])
  then have "extends overlays ?s (fold (visit fuel overlays) names ?s) \<and> set names \<subseteq> set (snd (fold (visit fuel overlays) names ?s))"
    using Cons.prems e by (intro Cons.IH) (auto simp: extends_def)
  then show ?case
    using d e extends_trans [OF e] extends_order [of overlays ?s "fold (visit fuel overlays) names ?s"] by auto
qed (simp add: extends_refl)

lemma ordered_ok:
  "search_ok overlays (fold (visit (Suc (length overlays)) overlays) (sort (map fst overlays)) ([], []))"
  "set (orderedOverlays overlays) = dom (map_of overlays)"
proof -
  let ?r = "fold (visit (Suc (length overlays)) overlays) (sort (map fst overlays)) ([], [])"
  have "card (unmarked overlays ([], [])) \<le> length overlays"
    unfolding unmarked_def by (simp add: dom_map_of_conv_image_fst) (metis card_image_le card_length finite_set le_trans)
  then have "extends overlays ([], []) ?r \<and> set (sort (map fst overlays)) \<subseteq> set (snd ?r)"
    by (intro visits_spec) (auto simp: search_ok_def visiting_def dom_map_of_conv_image_fst)
  then have r: "search_ok overlays ?r" "keys overlays \<subseteq> set (snd ?r)" by (simp_all add: extends_def)
  show "search_ok overlays ?r" by (rule r)
  have "set (snd ?r) \<subseteq> dom (map_of overlays)"
    using r(1) by (cases ?r) (auto simp: search_ok_def)
  then show "set (orderedOverlays overlays) = dom (map_of overlays)"
    using r(2) unfolding orderedOverlays_def keys_dom by blast
qed

lemma ordered_distinct: "distinct (orderedOverlays overlays)"
  using ordered_ok(1) [of overlays] by (auto simp: search_ok_def orderedOverlays_def split: prod.splits)

section \<open>Properties\<close>

text \<open>
  C25: the activation order lists every configured overlay exactly once, and puts before an
  overlay each configured dependency that does not itself depend on the overlay; with no
  cycle, that is every configured dependency.
\<close>

theorem ordered_overlays_correct:
  "distinct (orderedOverlays overlays)
   \<and> set (orderedOverlays overlays) = dom (map_of overlays)
   \<and> ((n, d) \<in> dependency overlays \<and> (d, n) \<notin> (dependency overlays)\<^sup>*
        \<longrightarrow> before (orderedOverlays overlays) d n)"
proof -
  have "(n, d) \<in> dependency overlays \<Longrightarrow> n \<in> set (orderedOverlays overlays)"
    by (auto simp: ordered_ok(2) dependency_def)
  then show ?thesis
    using ordered_ok [of overlays] by (auto simp: search_ok_def orderedOverlays_def split: prod.splits)
qed

definition demo_overlays :: "OverlayConfig gomap" where
  "demo_overlays =
     [(''api'', \<lparr>Package = ''p'', OverlaySettings = [], Enabled = True, DependsOn = [''web'', ''db'']\<rparr>),
      (''db'', \<lparr>Package = ''q'', OverlaySettings = [], Enabled = True, DependsOn = []\<rparr>),
      (''web'', \<lparr>Package = ''r'', OverlaySettings = [], Enabled = True, DependsOn = [''api'', ''gone'']\<rparr>)]"

theorem ordered_overlays_correct_witness:
  "before (orderedOverlays demo_overlays) ''db'' ''api''"
proof -
  have e: "(''api'', ''db'') \<in> dependency demo_overlays"
    by (simp add: dependency_def demo_overlays_def overlay_config_def)
  have n: "(''db'', d) \<notin> dependency demo_overlays" for d
    by (simp add: dependency_def demo_overlays_def overlay_config_def)
  have "(''db'', ''api'') \<notin> (dependency demo_overlays)\<^sup>*"
    using n by (auto elim: converse_rtranclE)
  then show ?thesis using ordered_overlays_correct [of demo_overlays "''api''" "''db''"] e by blast
qed

text \<open>
  the order does not depend on the order in which Go walks the map of overlays.
\<close>

theorem ordered_overlays_deterministic:
  assumes "gomap_ok overlays" and "gomap_ok overlays'" and "map_of overlays = map_of overlays'"
  shows "orderedOverlays overlays = orderedOverlays overlays'"
proof -
  have k: "set (map fst overlays) = set (map fst overlays')"
    using assms(3) by (simp add: dom_map_of_conv_image_fst [symmetric])
  have s: "sort (map fst overlays) = sort (map fst overlays')"
    by (rule sorted_distinct_set_unique) (use assms(1,2) k in \<open>simp_all only: sorted_sort distinct_sort set_sort\<close>)
  then have l: "length overlays = length overlays'"
    by (metis length_map length_sort)
  have "visit n overlays name t = visit n overlays' name t" for n name t
  proof (induction n arbitrary: name t)
    case (Suc n)
    then have v: "visit n overlays = visit n overlays'" by (simp add: fun_eq_iff)
    have c: "overlay_config overlays = overlay_config overlays'" by (simp add: overlay_config_def fun_eq_iff assms(3))
    show ?case by (cases t) (simp only: visit.simps v c assms(3))
  qed simp
  then have "visit (Suc (length overlays)) overlays = visit (Suc (length overlays')) overlays'"
    by (simp add: fun_eq_iff l)
  then show ?thesis unfolding orderedOverlays_def s by simp
qed

theorem ordered_overlays_deterministic_witness:
  "orderedOverlays demo_overlays = orderedOverlays (rev demo_overlays)"
  by (rule ordered_overlays_deterministic)
    (simp_all add: demo_overlays_def fun_eq_iff)

end
