(* ===== verification/Overlay_State.thy ===== *)
theory Overlay_State
  imports Go_Time Go_OS
begin

text \<open>
  The state directory of one overlay (\<open>pkgs/fort-overlay-manager/main.go\<close>): the files
  \<open>state\<close>, \<open>current.json\<close>, \<open>previous.json\<close>, \<open>last-attempt.json\<close> and the
  two links that keep store paths alive, with the helpers that read and write them; and the
  retry backoff. Writes to the state directory are taken to succeed (the code ignores their
  errors), and a record written as JSON reads back as itself.
\<close>

record OverlayState =
  OvPath :: string
  ActivatedAt :: int
  ManifestHash :: string

record AttemptRecord =
  AttPath :: string
  AttState :: string
  AttReason :: string
  AttAt :: int
  Attempts :: int

record OverlayDir =
  StateFile :: "string option"
  CurrentFile :: "OverlayState FileLoad"
  PreviousFile :: "OverlayState FileLoad"
  AttemptFile :: "AttemptRecord FileLoad"
  RootCurrent :: "string option"
  RootPrevious :: "string option"

definition no_file :: "'a FileLoad" where
  "no_file = Absent ''no such file or directory''"

definition empty_dir :: OverlayDir where
  "empty_dir = \<lparr>StateFile = None, CurrentFile = no_file, PreviousFile = no_file, AttemptFile = no_file,
     RootCurrent = None, RootPrevious = None\<rparr>"

lemma loaded_no_file [simp]: "loaded no_file = None"
  by (simp add: no_file_def)

definition exists_file :: "'a FileLoad \<Rightarrow> bool" where
  "exists_file f = (case f of Absent _ \<Rightarrow> False | Corrupt _ \<Rightarrow> True | Loaded _ \<Rightarrow> True)"

section \<open>Files\<close>

definition writeState :: "string \<Rightarrow> OverlayDir \<Rightarrow> OverlayDir" where
  "writeState state d = d\<lparr>StateFile := Some state\<rparr>"

definition readState :: "OverlayDir \<Rightarrow> string" where
  "readState d = (case StateFile d of None \<Rightarrow> ''idle'' | Some data \<Rightarrow> TrimSpace data)"

definition loadCurrentState :: "OverlayDir \<Rightarrow> OverlayState option" where
  "loadCurrentState d = loaded (CurrentFile d)"

definition loadPreviousState :: "OverlayDir \<Rightarrow> OverlayState option" where
  "loadPreviousState d = loaded (PreviousFile d)"

definition saveCurrentState :: "OverlayState \<Rightarrow> OverlayDir \<Rightarrow> OverlayDir" where
  "saveCurrentState s d = d\<lparr>CurrentFile := Loaded s\<rparr>"

definition loadAttempt :: "OverlayDir \<Rightarrow> AttemptRecord option" where
  "loadAttempt d = loaded (AttemptFile d)"

definition clearAttempt :: "OverlayDir \<Rightarrow> OverlayDir" where
  "clearAttempt d = d\<lparr>AttemptFile := no_file\<rparr>"

text \<open>
  \<open>updateGCRoot\<close>: \<open>nix-store --add-root\<close> makes the link, and when it fails the code
  makes a plain link to the same path.
\<close>

definition updateGCRootCurrent :: "string \<Rightarrow> OverlayDir \<Rightarrow> OverlayDir" where
  "updateGCRootCurrent storePath d = d\<lparr>RootCurrent := Some storePath\<rparr>"

text \<open>The current file is copied as it is, whether it decodes or not.\<close>

definition rotatePrevious :: "OverlayDir \<Rightarrow> OverlayDir" where
  "rotatePrevious d =
     (if exists_file (CurrentFile d)
      then (let d1 = d\<lparr>PreviousFile := CurrentFile d\<rparr>
            in case RootCurrent d1 of
                 None \<Rightarrow> d1
               | Some target \<Rightarrow> d1\<lparr>RootPrevious := Some target\<rparr>)
      else d)"

definition recordAttempt :: "int \<Rightarrow> string \<Rightarrow> string \<Rightarrow> string \<Rightarrow> OverlayDir \<Rightarrow> OverlayDir" where
  "recordAttempt now storePath state reason d =
     (let attempts = (case loadAttempt d of
            Some prev \<Rightarrow> if AttPath prev = storePath then wrap64 (Attempts prev + 1) else 1
          | None \<Rightarrow> 1)
      in d\<lparr>AttemptFile := Loaded \<lparr>AttPath = storePath, AttState = state, AttReason = reason, AttAt = now,
             Attempts = attempts\<rparr>\<rparr>)"

definition failActivation :: "int \<Rightarrow> string \<Rightarrow> string \<Rightarrow> OverlayDir \<Rightarrow> OverlayDir" where
  "failActivation now storePath reason d = writeState ''failed'' (recordAttempt now storePath ''failed'' reason d)"

definition resetStaleBackoffOnBoot :: "OverlayState option \<Rightarrow> OverlayDir \<Rightarrow> bool \<times> OverlayDir" where
  "resetStaleBackoffOnBoot current d =
     (if current \<noteq> None then (False, d)
      else (case loadAttempt d of
              None \<Rightarrow> (False, d)
            | Some attempt \<Rightarrow> (True, clearAttempt d)))"

section \<open>Backoff\<close>

definition maxRetryBackoff :: int where
  "maxRetryBackoff = 6 * Hour"

text \<open>The loop that doubles the delay, with the int64 product of \<open>delay *= 2\<close>.\<close>

function backoff_loop :: "int \<Rightarrow> int \<Rightarrow> int \<Rightarrow> int" where
  "backoff_loop i attempts delay =
     (if i < attempts \<and> delay < maxRetryBackoff then backoff_loop (i + 1) attempts (wrap64 (delay * 2)) else delay)"
  by pat_completeness auto
termination
  by (relation "measure (\<lambda>(i, attempts, delay). nat (attempts - i))") auto

declare backoff_loop.simps [simp del]

definition backoff_base :: "string \<Rightarrow> int" where
  "backoff_base pollInterval =
     (case ParseDuration pollInterval of
        None \<Rightarrow> 5 * Minute
      | Some base \<Rightarrow> if base \<le> 0 then 5 * Minute else base)"

definition backoffRemaining :: "gotime \<Rightarrow> AttemptRecord \<Rightarrow> string \<Rightarrow> int" where
  "backoffRemaining now attempt pollInterval =
     (let delay0 = backoff_loop 1 (Attempts attempt) (backoff_base pollInterval);
          delay = (if delay0 > maxRetryBackoff then maxRetryBackoff else delay0);
          elapsed = Sub now (Unix (AttAt attempt))
      in if elapsed \<ge> delay then 0 else wrap64 (delay - elapsed))"

section \<open>Lemmas\<close>

lemma backoff_base_pos: "0 < backoff_base p" "int64_ok (backoff_base p)"
  by (auto simp: backoff_base_def int64_ok_def dest: ParseDuration_ok split: option.splits)

lemma backoff_loop_closed:
  assumes "0 < delay"
  shows "min maxRetryBackoff (backoff_loop i attempts delay) = min maxRetryBackoff (delay * 2 ^ nat (attempts - i))
    \<and> 0 < backoff_loop i attempts delay"
  using assms
proof (induction i attempts delay rule: backoff_loop.induct)
  case (1 i attempts delay)
  show ?case
  proof (cases "i < attempts \<and> delay < maxRetryBackoff")
    case True
    then have w: "wrap64 (delay * 2) = delay * 2"
      using "1.prems" by (intro wrap64_id) (simp add: int64_ok_def maxRetryBackoff_def)
    have "nat (attempts - i) = Suc (nat (attempts - (i + 1)))" using True by (subst Suc_nat_eq_nat_zadd1) auto
    then have p: "delay * 2 ^ nat (attempts - i) = delay * 2 * 2 ^ nat (attempts - (i + 1))" by simp
    have b: "backoff_loop i attempts delay = backoff_loop (i + 1) attempts (delay * 2)"
      by (subst backoff_loop.simps) (simp add: True w)
    show ?thesis unfolding b p using "1.IH" [OF True] "1.prems" by (simp add: w)
  next
    case False
    have "maxRetryBackoff \<le> delay * 2 ^ nat (attempts - i)" if "maxRetryBackoff \<le> delay"
      using that "1.prems" by (meson dual_order.trans mult_le_cancel_left1 one_le_power one_le_numeral not_less_iff_gr_or_eq)
    then show ?thesis
      using False "1.prems" by (subst (1 2) backoff_loop.simps) (auto simp: min_def not_less)
  qed
qed

lemma wrap64_succ: "wrap64 (wrap64 x + 1) = wrap64 (x + 1)"
proof -
  have "wrap64 x + 1 + 2 ^ 63 = (x + 2 ^ 63) mod 2 ^ 64 + 1" by (simp add: wrap64_def)
  moreover have "((x + 2 ^ 63) mod 2 ^ 64 + 1) mod 2 ^ 64 = (x + 2 ^ 63 + 1) mod 2 ^ 64" by (rule mod_add_left_eq)
  moreover have "x + 2 ^ 63 + 1 = x + 1 + 2 ^ 63" by simp
  ultimately have "(wrap64 x + 1 + 2 ^ 63) mod 2 ^ 64 = (x + 1 + 2 ^ 63) mod 2 ^ 64" by metis
  then show ?thesis unfolding wrap64_def [of "wrap64 x + 1"] wrap64_def [of "x + 1"] by (rule arg_cong)
qed

definition attempts_for :: "string \<Rightarrow> OverlayDir \<Rightarrow> int" where
  "attempts_for path d =
     (case loadAttempt d of Some prev \<Rightarrow> if AttPath prev = path then Attempts prev else 0 | None \<Rightarrow> 0)"

lemma wrap64_1 [simp]: "wrap64 1 = 1"
  by (simp add: int64_ok_def)

lemma attempts_for_record: "attempts_for path (recordAttempt now path state reason d) = wrap64 (attempts_for path d + 1)"
  by (simp add: attempts_for_def recordAttempt_def loadAttempt_def Let_def split: option.splits)

lemma loadAttempt_record:
  "loadAttempt (recordAttempt now path state reason d) = Some \<lparr>AttPath = path, AttState = state,
     AttReason = reason, AttAt = now, Attempts = attempts_for path (recordAttempt now path state reason d)\<rparr>"
  by (simp add: attempts_for_def recordAttempt_def loadAttempt_def Let_def)

lemma backoffRemaining_closed:
  assumes "0 \<le> AttAt attempt" and "Second * AttAt attempt \<le> now" and "now < 2 ^ 63"
  shows "backoffRemaining now attempt poll =
    max 0 (min maxRetryBackoff (backoff_base poll * 2 ^ nat (Attempts attempt - 1)) - (now - Second * AttAt attempt))"
proof -
  define l where "l = backoff_loop 1 (Attempts attempt) (backoff_base poll)"
  have l: "min maxRetryBackoff l = min maxRetryBackoff (backoff_base poll * 2 ^ nat (Attempts attempt - 1))" "0 < l"
    using backoff_loop_closed [OF backoff_base_pos(1)] by (simp_all add: l_def)
  have u: "Unix (AttAt attempt) = Second * AttAt attempt"
    using assms by (intro Unix_small) (auto simp: int64_ok_def unixToInternal_def)
  have e: "Sub now (Second * AttAt attempt) = now - Second * AttAt attempt"
    using assms by (intro Sub_exact) (auto simp: int64_ok_def)
  have d: "(if l > maxRetryBackoff then maxRetryBackoff else l) = min maxRetryBackoff l" by (simp add: min_def)
  have b: "0 < min maxRetryBackoff l" "min maxRetryBackoff l \<le> maxRetryBackoff"
    using l(2) by (simp_all add: maxRetryBackoff_def)
  have w: "wrap64 (min maxRetryBackoff l - (now - Second * AttAt attempt)) = min maxRetryBackoff l - (now - Second * AttAt attempt)"
    using b assms by (intro wrap64_id) (auto simp: int64_ok_def maxRetryBackoff_def min_def)
  have m: "(if m \<le> e then 0 else m - e) = max 0 (m - e)" for m e :: int by (simp add: max_def)
  show ?thesis
    unfolding backoffRemaining_def Let_def u e l_def [symmetric] d w l(1) [symmetric] by (rule m)
qed

section \<open>Properties\<close>

text \<open>
  C28: a path that failed is skipped for the poll interval doubled with every further attempt and
  cut at six hours, counted from the last attempt; so never longer than six hours, and an
  unusable poll interval counts as five minutes.
\<close>

theorem backoff_remaining_spec:
  assumes "0 \<le> AttAt attempt" and "Second * AttAt attempt \<le> now" and "now < 2 ^ 63"
  shows "backoffRemaining now attempt poll =
    max 0 (min maxRetryBackoff (backoff_base poll * 2 ^ nat (Attempts attempt - 1)) - (now - Second * AttAt attempt))"
  using assms by (rule backoffRemaining_closed)

theorem backoff_remaining_spec_witness:
  "backoffRemaining 1700000060000000000
     \<lparr>AttPath = ''/nix/store/a'', AttState = ''failed'', AttReason = ''eval'', AttAt = 1700000000, Attempts = 3\<rparr> ''5m''
   = 19 * Minute"
proof -
  have "backoff_base ''5m'' = 5 * Minute" by (simp add: backoff_base_def ParseDuration_5m)
  then show ?thesis
    using backoff_remaining_spec [of "\<lparr>AttPath = ''/nix/store/a'', AttState = ''failed'', AttReason = ''eval'',
      AttAt = 1700000000, Attempts = 3\<rparr>" 1700000060000000000 "''5m''"]
    by (simp add: maxRetryBackoff_def)
qed

text \<open>
  repeated failures of one path count up, so the backoff grows; a failure of another path
  starts again at one.
\<close>

theorem attempts_count_up:
  "map_option Attempts (loadAttempt (fold (\<lambda>now. recordAttempt now path state reason) (nows @ [now]) d))
     = Some (wrap64 (attempts_for path d + 1 + int (length nows)))"
proof -
  have "attempts_for path (fold (\<lambda>now. recordAttempt now path state reason) (nows @ [now]) d)
      = wrap64 (attempts_for path d + 1 + int (length nows))" for nows now
  proof (induction nows arbitrary: now rule: rev_induct)
    case (snoc x nows)
    let ?d = "fold (\<lambda>now. recordAttempt now path state reason) (nows @ [x]) d"
    have "attempts_for path (recordAttempt now path state reason ?d) = wrap64 (attempts_for path ?d + 1)"
      by (rule attempts_for_record)
    also have "\<dots> = wrap64 (attempts_for path d + 1 + int (length nows) + 1)"
      unfolding snoc by (rule wrap64_succ)
    finally show ?case by (simp add: add.assoc add.commute)
  qed (simp add: attempts_for_record)
  then show ?thesis by (simp add: loadAttempt_record)
qed

end
