(* ===== verification/Overlay_Units.thy ===== *)
theory Overlay_Units
  imports Overlay_Order Overlay_State Json_Decode
begin

text \<open>
  Manifests and systemd units of \<open>pkgs/fort-overlay-manager/main.go\<close>: evaluating
  \<open>overlay.nix\<close>, the unit names, \<open>generateUnits\<close>, the systemctl calls, the links to
  executables and the ownership of the data directory.
\<close>

section \<open>Manifests\<close>

record ServiceDef =
  SvcExec :: string
  SvcUser :: string
  SvcGroup :: string
  DynamicUser :: bool
  StateDirectory :: string
  WorkingDirectory :: string
  After :: "string list"
  SvcRestart :: string
  RestartSec :: int
  TimeoutStopSec :: int
  Drain :: string
  SvcEnvironment :: "string list"
  EnvironmentFile :: "string list"

record HealthConfig =
  HealthType :: string
  Endpoint :: string
  Interval :: int
  Grace :: int
  Stabilize :: int

record OverlayManifest =
  Services :: "ServiceDef gomap"
  Bins :: "string list"
  Health :: "HealthConfig option"

definition zero_ServiceDef :: ServiceDef where
  "zero_ServiceDef = \<lparr>SvcExec = [], SvcUser = [], SvcGroup = [], DynamicUser = False, StateDirectory = [],
     WorkingDirectory = [], After = [], SvcRestart = [], RestartSec = 0, TimeoutStopSec = 0, Drain = [],
     SvcEnvironment = [], EnvironmentFile = []\<rparr>"

definition zero_HealthConfig :: HealthConfig where
  "zero_HealthConfig = \<lparr>HealthType = [], Endpoint = [], Interval = 0, Grace = 0, Stabilize = 0\<rparr>"

text \<open>
  Decoding the JSON of a manifest by the tags of the structs; \<open>None\<close> is an error of
  \<open>json.Unmarshal\<close>.
\<close>

definition set_field ::
  "string \<Rightarrow> (json \<Rightarrow> 'b \<Rightarrow> 'b option) \<Rightarrow> 'b \<Rightarrow> ('b \<Rightarrow> 's \<Rightarrow> 's) \<Rightarrow> string gomap \<Rightarrow> 's option \<Rightarrow> 's option" where
  "set_field name dec init upd ms acc =
     Option.bind acc (\<lambda>s. map_option (\<lambda>x. upd x s) (dec_field name (parse_raw dec) init ms))"

definition decodeService :: "string \<Rightarrow> ServiceDef option" where
  "decodeService x =
     Option.bind (raw_object x) (\<lambda>ms.
       set_field ''exec'' dec_string [] (\<lambda>v s. s\<lparr>SvcExec := v\<rparr>) ms
       (set_field ''user'' dec_string [] (\<lambda>v s. s\<lparr>SvcUser := v\<rparr>) ms
       (set_field ''group'' dec_string [] (\<lambda>v s. s\<lparr>SvcGroup := v\<rparr>) ms
       (set_field ''dynamicUser'' dec_bool False (\<lambda>v s. s\<lparr>DynamicUser := v\<rparr>) ms
       (set_field ''stateDirectory'' dec_string [] (\<lambda>v s. s\<lparr>StateDirectory := v\<rparr>) ms
       (set_field ''workingDirectory'' dec_string [] (\<lambda>v s. s\<lparr>WorkingDirectory := v\<rparr>) ms
       (set_field ''after'' dec_strings [] (\<lambda>v s. s\<lparr>After := v\<rparr>) ms
       (set_field ''restart'' dec_string [] (\<lambda>v s. s\<lparr>SvcRestart := v\<rparr>) ms
       (set_field ''restartSec'' dec_int 0 (\<lambda>v s. s\<lparr>RestartSec := v\<rparr>) ms
       (set_field ''timeoutStopSec'' dec_int 0 (\<lambda>v s. s\<lparr>TimeoutStopSec := v\<rparr>) ms
       (set_field ''drain'' dec_string [] (\<lambda>v s. s\<lparr>Drain := v\<rparr>) ms
       (set_field ''environment'' dec_strings [] (\<lambda>v s. s\<lparr>SvcEnvironment := v\<rparr>) ms
       (set_field ''environmentFile'' dec_strings [] (\<lambda>v s. s\<lparr>EnvironmentFile := v\<rparr>) ms
         (Some zero_ServiceDef))))))))))))))"

definition decodeHealth :: "string \<Rightarrow> HealthConfig option \<Rightarrow> HealthConfig option option" where
  "decodeHealth x old =
     (if json_parse x = Some JNull then Some None
      else
        (let h = (case old of None \<Rightarrow> zero_HealthConfig | Some h \<Rightarrow> h) in
         Option.bind (raw_object x) (\<lambda>ms.
           map_option Some
             (set_field ''type'' dec_string (HealthType h) (\<lambda>v s. s\<lparr>HealthType := v\<rparr>) ms
             (set_field ''endpoint'' dec_string (Endpoint h) (\<lambda>v s. s\<lparr>Endpoint := v\<rparr>) ms
             (set_field ''interval'' dec_int (Interval h) (\<lambda>v s. s\<lparr>Interval := v\<rparr>) ms
             (set_field ''grace'' dec_int (Grace h) (\<lambda>v s. s\<lparr>Grace := v\<rparr>) ms
             (set_field ''stabilize'' dec_int (Stabilize h) (\<lambda>v s. s\<lparr>Stabilize := v\<rparr>) ms (Some h)))))))))"

definition decodeServices :: "string \<Rightarrow> ServiceDef gomap \<Rightarrow> ServiceDef gomap option" where
  "decodeServices x old =
     (if json_parse x = Some JNull then Some []
      else
        Option.bind (raw_object x) (\<lambda>ms.
          fold (\<lambda>(k, v) acc. Option.bind acc (\<lambda>m. map_option (\<lambda>s. AList.update k s m) (decodeService v)))
            ms (Some old)))"

definition decodeManifest :: "string \<Rightarrow> OverlayManifest option" where
  "decodeManifest x =
     Option.bind (raw_object x) (\<lambda>ms.
       Option.bind (dec_field ''services'' decodeServices [] ms) (\<lambda>svcs.
       Option.bind (dec_field ''bins'' (parse_raw dec_strings) [] ms) (\<lambda>bins.
       map_option (\<lambda>h. \<lparr>Services = svcs, Bins = bins, Health = h\<rparr>)
         (dec_field ''health'' decodeHealth None ms))))"

lemma decodeServices_ok:
  assumes "decodeServices x old = Some svcs" and "gomap_ok old"
  shows "gomap_ok svcs"
proof -
  have "pred_option gomap_ok (fold (\<lambda>(k, v) acc. Option.bind acc (\<lambda>m. map_option (\<lambda>s. AList.update k s m) (decodeService v))) ms (Some old))"
    for ms
    by (rule fold_invariant_all) (use assms(2) in \<open>auto simp: gomap option.pred_set split: bind_splits\<close>)
  then show ?thesis
    using assms(1) by (auto simp: decodeServices_def Option.bind_eq_Some_conv split: if_splits) (metis option.pred_inject(2))
qed

lemma decodeManifest_ok: "decodeManifest x = Some m \<Longrightarrow> gomap_ok (Services m)"
proof -
  have "pred_option gomap_ok (dec_field name decodeServices [] ms)" for name ms
    unfolding dec_field_def
    by (rule fold_invariant_all)
      (auto simp: option.pred_set Option.bind_eq_Some_conv elim!: decodeServices_ok split: if_splits bind_splits)
  then have "dec_field name decodeServices [] ms = Some svcs \<Longrightarrow> gomap_ok svcs" for name ms svcs
    by (metis option.pred_inject(2))
  then show "decodeManifest x = Some m \<Longrightarrow> ?thesis"
    by (auto simp: decodeManifest_def Option.bind_eq_Some_conv)
qed

section \<open>The world\<close>

text \<open>
  What a run of the manager sees from outside: \<open>nix-store --realise\<close> (an error, or
  none), \<open>os.Stat\<close> on a path, \<open>nix eval\<close> of a file with an expression applied (an
  error, or the output), writing a unit file, whether removing a file under
  \<open>/run/systemd/system\<close> fails, a systemctl call, the answers of the health probes by their
  number, the time each turn of the health loop takes, and for each overlay the clock when its
  backoff is looked at and when the outcome of its activation is written down.
\<close>

record OverlayEnv =
  Realise :: "string \<Rightarrow> string option"
  PathExists :: "string \<Rightarrow> bool"
  NixEval :: "string \<Rightarrow> string \<Rightarrow> string + string"
  ManifestError :: "string \<Rightarrow> string"
  UnitWriteError :: "string \<Rightarrow> string option"
  UnitRemoveFails :: "string \<Rightarrow> bool"
  Systemctl :: "string list \<Rightarrow> string option"
  HttpProbe :: "string \<Rightarrow> nat \<Rightarrow> int option"     \<comment> \<open>the status code, or no response\<close>
  TcpProbe :: "string \<Rightarrow> nat \<Rightarrow> bool"
  ExecProbe :: "string \<Rightarrow> nat \<Rightarrow> bool"
  TurnTime :: "nat \<Rightarrow> nat"
  CheckTime :: "string \<Rightarrow> gotime"
  NoteTime :: "string \<Rightarrow> gotime"

text \<open>
  What it changes: the files under \<open>/run/systemd/system\<close>, the \<open>.wants\<close> links there,
  the links to executables, the state directories, and the systemctl and chown commands it ran,
  in order.
\<close>

record World =
  UnitFiles :: "string gomap"
  WantsLinks :: "string gomap"
  BinLinks :: "string gomap"
  Dirs :: "OverlayDir gomap"
  Commands :: "string list list"

definition run :: "string list \<Rightarrow> World \<Rightarrow> World" where
  "run cmd w = w\<lparr>Commands := Commands w @ [cmd]\<rparr>"

definition join_path :: "string \<Rightarrow> string \<Rightarrow> string" where
  "join_path a b = (if a = [] then b else a @ ''/'' @ b)"

definition overlay_dir :: "string \<Rightarrow> World \<Rightarrow> OverlayDir" where
  "overlay_dir name w = (case map_of (Dirs w) name of None \<Rightarrow> empty_dir | Some d \<Rightarrow> d)"

definition on_dir :: "string \<Rightarrow> (OverlayDir \<Rightarrow> OverlayDir) \<Rightarrow> World \<Rightarrow> World" where
  "on_dir name f w = w\<lparr>Dirs := AList.update name (f (overlay_dir name w)) (Dirs w)\<rparr>"

section \<open>Evaluating an overlay\<close>

definition resolve_secret :: "string \<Rightarrow> string" where
  "resolve_secret v =
     (if HasPrefix v ''%SECRET:'' \<and> HasSuffix v ''%''
      then drop (length ''%SECRET:'') (take (length v - 1) v) else v)"

definition resolveSecrets :: "string gomap \<Rightarrow> string gomap" where
  "resolveSecrets config = map (\<lambda>(k, v). (k, resolve_secret v)) config"

definition apply_expr :: "string \<Rightarrow> string gomap \<Rightarrow> string" where
  "apply_expr storePath config =
     (let pairs = concat (map (\<lambda>(k, v). '' '' @ k @ '' = '' @ go_quote v @ '';'') config);
          topLevel = ''storePath = '' @ go_quote storePath @ '';'' @ pairs @ '' config = {'' @ pairs @ '' };''
      in ''f: f { '' @ topLevel @ '' }'')"

definition evalOverlay :: "OverlayEnv \<Rightarrow> string \<Rightarrow> string gomap \<Rightarrow> string + OverlayManifest" where
  "evalOverlay env storePath config =
     (case NixEval env (join_path storePath ''overlay.nix'') (apply_expr storePath (resolveSecrets config)) of
        Inl err \<Rightarrow> Inl (''nix eval: '' @ err)
      | Inr out \<Rightarrow>
          (case decodeManifest out of
             None \<Rightarrow> Inl (''parse manifest: '' @ ManifestError env out)
           | Some manifest \<Rightarrow> Inr manifest))"

lemma evalOverlay_ok: "evalOverlay env path config = Inr m \<Longrightarrow> gomap_ok (Services m)"
  by (auto simp: evalOverlay_def decodeManifest_ok split: sum.splits option.splits)

section \<open>Units\<close>

definition nl :: string where
  "nl = [CHR 0x0A]"

definition unitDir :: string where
  "unitDir = ''/run/systemd/system''"

definition target_name :: "string \<Rightarrow> string" where
  "target_name name = ''overlay-'' @ name @ ''.target''"

definition serviceUnitName :: "string \<Rightarrow> string \<Rightarrow> string" where
  "serviceUnitName overlay service =
     (if service = overlay then ''overlay-'' @ overlay @ ''.service''
      else ''overlay-'' @ overlay @ ''-'' @ service @ ''.service'')"

definition legacyServiceUnitName :: "string \<Rightarrow> string \<Rightarrow> string" where
  "legacyServiceUnitName overlay service = ''overlay-'' @ overlay @ ''-'' @ service @ ''.service''"

definition target_content :: "string \<Rightarrow> string list \<Rightarrow> string" where
  "target_content name dependsOn =
     ''[Unit]'' @ nl @ ''Description=Overlay target for '' @ name @ nl
     @ concat (map (\<lambda>dep. ''Wants='' @ target_name dep @ nl @ ''After='' @ target_name dep @ nl) dependsOn)"

text \<open>The lines of a service unit, as \<open>generateUnits\<close> puts them together.\<close>

definition service_after :: "ServiceDef \<Rightarrow> string list \<Rightarrow> string" where
  "service_after svc dependsOn =
     (if length (After svc) > 0 then Join (After svc) '' '' else ''network.target'')
     @ concat (map (\<lambda>dep. '' '' @ target_name dep) dependsOn)"

definition opt_line :: "bool \<Rightarrow> string \<Rightarrow> string \<Rightarrow> string" where
  "opt_line b key val = (if b then key @ ''='' @ val @ nl else [])"

definition service_content :: "string \<Rightarrow> string \<Rightarrow> ServiceDef \<Rightarrow> string list \<Rightarrow> string" where
  "service_content name svcName svc dependsOn =
     ''[Unit]'' @ nl
     @ ''Description=Overlay '' @ name @ '' - '' @ svcName @ nl
     @ ''After='' @ service_after svc dependsOn @ nl
     @ ''PartOf='' @ target_name name @ nl
     @ nl
     @ ''[Service]'' @ nl
     @ ''Type=simple'' @ nl
     @ ''ExecStart='' @ SvcExec svc @ nl
     @ ''Restart='' @ (if SvcRestart svc \<noteq> [] then SvcRestart svc else ''on-failure'') @ nl
     @ ''RestartSec='' @ Itoa (if RestartSec svc > 0 then RestartSec svc else 5) @ nl
     @ opt_line (TimeoutStopSec svc > 0) ''TimeoutStopSec'' (Itoa (TimeoutStopSec svc))
     @ (if DynamicUser svc then ''DynamicUser=true'' @ nl else opt_line (SvcUser svc \<noteq> []) ''User'' (SvcUser svc))
     @ opt_line (SvcGroup svc \<noteq> [] \<and> \<not> DynamicUser svc) ''Group'' (SvcGroup svc)
     @ opt_line (StateDirectory svc \<noteq> []) ''StateDirectory'' (StateDirectory svc)
     @ opt_line (WorkingDirectory svc \<noteq> []) ''WorkingDirectory'' (WorkingDirectory svc)
     @ opt_line (Drain svc \<noteq> []) ''ExecStop'' (Drain svc)
     @ concat (map (opt_line True ''Environment'') (SvcEnvironment svc))
     @ concat (map (opt_line True ''EnvironmentFile'') (EnvironmentFile svc))"

definition wants_link :: "string \<Rightarrow> string \<Rightarrow> string" where
  "wants_link name unit = unitDir @ ''/'' @ target_name name @ ''.wants/'' @ unit"

definition unit_path :: "string \<Rightarrow> string" where
  "unit_path unit = unitDir @ ''/'' @ unit"

text \<open>
  A unit left by an older version of the manager under the longer name is stopped and removed; an
  error of \<open>os.Remove\<close> is ignored.
\<close>

definition remove_path :: "OverlayEnv \<Rightarrow> string \<Rightarrow> string gomap \<Rightarrow> string gomap" where
  "remove_path env p m = (if UnitRemoveFails env p then m else AList.delete p m)"

definition migrate_legacy :: "OverlayEnv \<Rightarrow> string \<Rightarrow> string \<Rightarrow> World \<Rightarrow> World" where
  "migrate_legacy env name svcName w =
     (let legacy = legacyServiceUnitName name svcName in
      if legacy \<noteq> serviceUnitName name svcName \<and> map_of (UnitFiles w) (unit_path legacy) \<noteq> None
      then (let w1 = run [''systemctl'', ''stop'', legacy] w
            in w1\<lparr>UnitFiles := remove_path env (unit_path legacy) (UnitFiles w1),
                  WantsLinks := remove_path env (wants_link name legacy) (WantsLinks w1)\<rparr>)
      else w)"

definition write_unit :: "OverlayEnv \<Rightarrow> string \<Rightarrow> string \<Rightarrow> World \<Rightarrow> string option \<times> World" where
  "write_unit env unit content w =
     (case UnitWriteError env (unit_path unit) of
        Some err \<Rightarrow> (Some err, w)
      | None \<Rightarrow> (None, w\<lparr>UnitFiles := AList.update (unit_path unit) content (UnitFiles w)\<rparr>))"

fun write_services ::
  "OverlayEnv \<Rightarrow> string \<Rightarrow> string list \<Rightarrow> ServiceDef gomap \<Rightarrow> World \<Rightarrow> string option \<times> World" where
  "write_services env name dependsOn [] w = (None, w)"
| "write_services env name dependsOn ((svcName, svc) # svcs) w =
     (case write_unit env (serviceUnitName name svcName) (service_content name svcName svc dependsOn)
             (migrate_legacy env name svcName w) of
        (Some err, w2) \<Rightarrow> (Some (''write service '' @ serviceUnitName name svcName @ '': '' @ err), w2)
      | (None, w2) \<Rightarrow> write_services env name dependsOn svcs w2)"

text \<open>\<open>os.Symlink\<close> leaves an existing link alone.\<close>

definition symlink_new :: "string \<Rightarrow> string \<Rightarrow> string gomap \<Rightarrow> string gomap" where
  "symlink_new target link m = (if map_of m link = None then AList.update link target m else m)"

definition link_wants :: "string \<Rightarrow> string list \<Rightarrow> World \<Rightarrow> World" where
  "link_wants name units w =
     w\<lparr>WantsLinks := fold (\<lambda>unit. symlink_new (unit_path unit) (wants_link name unit)) units (WantsLinks w)\<rparr>"

definition generateUnits ::
  "OverlayEnv \<Rightarrow> string \<Rightarrow> OverlayManifest \<Rightarrow> string list \<Rightarrow> World \<Rightarrow> string option \<times> World" where
  "generateUnits env name manifest dependsOn w =
     (case write_unit env (target_name name) (target_content name dependsOn) w of
        (Some err, w1) \<Rightarrow> (Some (''write target: '' @ err), w1)
      | (None, w1) \<Rightarrow>
          (case write_services env name dependsOn (Services manifest) w1 of
             (Some err, w2) \<Rightarrow> (Some err, w2)
           | (None, w2) \<Rightarrow>
               (None, link_wants name (map (\<lambda>(svcName, _). serviceUnitName name svcName) (Services manifest)) w2)))"

section \<open>systemctl\<close>

definition daemonReload :: "OverlayEnv \<Rightarrow> World \<Rightarrow> string option \<times> World" where
  "daemonReload env w = (Systemctl env [''daemon-reload''], run [''systemctl'', ''daemon-reload''] w)"

definition stopTarget :: "string \<Rightarrow> World \<Rightarrow> World" where
  "stopTarget name w = run [''systemctl'', ''stop'', target_name name] w"

definition startTarget :: "OverlayEnv \<Rightarrow> string \<Rightarrow> World \<Rightarrow> string option \<times> World" where
  "startTarget env name w =
     (Systemctl env [''start'', target_name name], run [''systemctl'', ''start'', target_name name] w)"

definition stop_units :: "string \<Rightarrow> string \<Rightarrow> string list" where
  "stop_units name svcName =
     (let unit = serviceUnitName name svcName; legacy = legacyServiceUnitName name svcName
      in if legacy \<noteq> unit then [unit, legacy] else [unit])"

definition stopServices :: "string \<Rightarrow> OverlayManifest \<Rightarrow> World \<Rightarrow> World" where
  "stopServices name manifest w =
     stopTarget name
       (fold (\<lambda>unit. run [''systemctl'', ''stop'', unit])
         (concat (map (\<lambda>(svcName, _). stop_units name svcName) (Services manifest))) w)"

section \<open>Executables and data directory\<close>

text \<open>\<open>filepath.Base\<close>: the last element of a path, without trailing slashes.\<close>

definition Base :: "string \<Rightarrow> string" where
  "Base path =
     (if path = [] then ''.''
      else (let t = rev (dropWhile (\<lambda>c. c = CHR ''/'') (rev path))
            in if t = [] then ''/''
               else (case split_last (CHR ''/'') t of None \<Rightarrow> t | Some (_, b) \<Rightarrow> b)))"

definition updateBinSymlinks :: "string \<Rightarrow> string list \<Rightarrow> World \<Rightarrow> World" where
  "updateBinSymlinks binDir bins w =
     w\<lparr>BinLinks := fold (\<lambda>bin m. AList.update (join_path binDir (Base bin)) bin m) bins (BinLinks w)\<rparr>"

definition setting :: "string gomap \<Rightarrow> string \<Rightarrow> string" where
  "setting config key = (case map_of config key of None \<Rightarrow> [] | Some v \<Rightarrow> v)"

definition ensureDataDirOwnership ::
  "OverlayEnv \<Rightarrow> string \<Rightarrow> string gomap \<Rightarrow> OverlayManifest \<Rightarrow> World \<Rightarrow> World" where
  "ensureDataDirOwnership env name config manifest w =
     (let dataDir = (if setting config ''dataDir'' = [] then setting config ''home'' else setting config ''dataDir'')
      in if dataDir = [] then w
         else (case find (\<lambda>(_, svc). SvcUser svc \<noteq> []) (Services manifest) of
                 None \<Rightarrow> w
               | Some (_, svc) \<Rightarrow>
                   (let user = SvcUser svc; group = (if SvcGroup svc = [] then user else SvcGroup svc)
                    in if \<not> PathExists env dataDir then w
                       else run [''chown'', ''-R'', user @ '':'' @ group, dataDir] w)))"

section \<open>Lemmas\<close>

lemma run_simps [simp]:
  "UnitFiles (run c w) = UnitFiles w" "WantsLinks (run c w) = WantsLinks w" "BinLinks (run c w) = BinLinks w"
  "Dirs (run c w) = Dirs w" "Commands (run c w) = Commands w @ [c]"
  by (simp_all add: run_def)

lemma overlay_dir_cong: "Dirs w' = Dirs w \<Longrightarrow> overlay_dir name w' = overlay_dir name w"
  by (simp add: overlay_dir_def)

lemma overlay_dir_on_dir [simp]:
  "overlay_dir n (on_dir name f w) = (if n = name then f (overlay_dir name w) else overlay_dir n w)"
  by (simp add: overlay_dir_def on_dir_def gomap)

lemma Dirs_migrate [simp]: "Dirs (migrate_legacy env name svcName w) = Dirs w"
  by (simp add: migrate_legacy_def Let_def)

lemma Dirs_write_unit [simp]: "Dirs (snd (write_unit env unit content w)) = Dirs w"
  by (simp add: write_unit_def split: option.splits)

lemma Dirs_write_services [simp]: "Dirs (snd (write_services env name dependsOn svcs w)) = Dirs w"
proof (induction env name dependsOn svcs w rule: write_services.induct)
  case (2 env name dependsOn svcName svc svcs w)
  then show ?case
    using Dirs_write_unit [of env "serviceUnitName name svcName" "service_content name svcName svc dependsOn"
        "migrate_legacy env name svcName w"]
    by (auto split: prod.splits option.splits simp del: Dirs_write_unit)
qed simp

lemma Dirs_generateUnits [simp]: "Dirs (snd (generateUnits env name manifest dependsOn w)) = Dirs w"
proof -
  have "Dirs w1 = Dirs w" if "write_unit env u c w = (e, w1)" for e w1 u c
    using Dirs_write_unit [of env u c w] that by simp
  moreover have "Dirs w2 = Dirs w1" if "write_services env name dependsOn s w1 = (e, w2)" for e w1 w2 s
    using Dirs_write_services [of env name dependsOn s w1] that by simp
  ultimately show ?thesis
    by (auto simp: generateUnits_def link_wants_def split: prod.splits option.splits)
qed

lemma Dirs_systemctl [simp]:
  "Dirs (snd (daemonReload env w)) = Dirs w" "Dirs (stopTarget name w) = Dirs w"
  "Dirs (snd (startTarget env name w)) = Dirs w"
  by (simp_all add: daemonReload_def stopTarget_def startTarget_def)

lemma Dirs_stopServices [simp]: "Dirs (stopServices name manifest w) = Dirs w"
proof -
  have "Dirs (fold (\<lambda>unit. run [''systemctl'', ''stop'', unit]) us w) = Dirs w" for us
    by (induction us arbitrary: w) simp_all
  then show ?thesis by (simp add: stopServices_def)
qed

lemma Dirs_updateBinSymlinks [simp]: "Dirs (updateBinSymlinks binDir bins w) = Dirs w"
  by (simp add: updateBinSymlinks_def)

lemma Dirs_ownership [simp]: "Dirs (ensureDataDirOwnership env name config manifest w) = Dirs w"
  by (simp add: ensureDataDirOwnership_def Let_def split: option.splits prod.splits)

section \<open>Unit names\<close>

lemma serviceUnitName_inj: "serviceUnitName o1 s = serviceUnitName o1 s' \<longleftrightarrow> s = s'"
  by (auto simp: serviceUnitName_def dest: arg_cong [where f = length] split: if_splits)

lemma legacy_not_current: "serviceUnitName o1 o1 \<noteq> legacyServiceUnitName o1 o1"
  by (auto simp: serviceUnitName_def legacyServiceUnitName_def dest: arg_cong [where f = length])

lemma legacy_eq: "legacyServiceUnitName o1 s = serviceUnitName o1 s' \<longleftrightarrow> s = s' \<and> s \<noteq> o1"
  by (auto simp: serviceUnitName_def legacyServiceUnitName_def dest: arg_cong [where f = length] split: if_splits)

lemma target_not_service: "target_name n \<noteq> serviceUnitName o1 s" "target_name n \<noteq> legacyServiceUnitName o1 s"
proof -
  have t: "last (target_name n) = CHR ''t''" by (simp add: target_name_def)
  have e: "last (serviceUnitName o1 s) = CHR ''e''" "last (legacyServiceUnitName o1 s) = CHR ''e''"
    by (simp_all add: serviceUnitName_def legacyServiceUnitName_def)
  have "CHR ''t'' \<noteq> CHR ''e''" by simp
  with t e show "target_name n \<noteq> serviceUnitName o1 s" "target_name n \<noteq> legacyServiceUnitName o1 s"
    by force+
qed

lemma unit_path_inj [simp]: "unit_path a = unit_path b \<longleftrightarrow> a = b"
  by (simp add: unit_path_def)

text \<open>What the files under \<open>/run/systemd/system\<close> are after the services are written.\<close>

definition service_file :: "string \<Rightarrow> string list \<Rightarrow> ServiceDef gomap \<Rightarrow> string \<Rightarrow> string option" where
  "service_file name dependsOn svcs p =
     (case find (\<lambda>(svcName, _). p = unit_path (serviceUnitName name svcName)) svcs of
        None \<Rightarrow> None
      | Some (svcName, svc) \<Rightarrow> Some (service_content name svcName svc dependsOn))"

lemma service_file_None:
  "service_file name dependsOn svcs p = None \<longleftrightarrow>
     list_all (\<lambda>(svcName, svc). p \<noteq> unit_path (serviceUnitName name svcName)) svcs"
proof -
  have "service_file name dependsOn svcs p = None \<longleftrightarrow>
      find (\<lambda>(svcName, _). p = unit_path (serviceUnitName name svcName)) svcs = None"
    by (auto simp: service_file_def split: option.splits)
  then show ?thesis by (auto simp: find_None_iff list_all_iff)
qed

text \<open>An overlay with a service of its own name, and the unit an older manager wrote for it.\<close>

definition legacy_unit :: "string \<Rightarrow> string" where
  "legacy_unit name = legacyServiceUnitName name name"

definition legacy_present :: "string \<Rightarrow> ServiceDef gomap \<Rightarrow> (string \<Rightarrow> string option) \<Rightarrow> bool" where
  "legacy_present name svcs files \<longleftrightarrow> name \<in> keys svcs \<and> files (unit_path (legacy_unit name)) \<noteq> None"

definition services_written ::
  "OverlayEnv \<Rightarrow> string \<Rightarrow> string list \<Rightarrow> ServiceDef gomap \<Rightarrow> (string \<Rightarrow> string option) \<Rightarrow> string \<Rightarrow> string option" where
  "services_written env name dependsOn svcs files p =
     (case service_file name dependsOn svcs p of
        Some c \<Rightarrow> Some c
      | None \<Rightarrow> if name \<in> keys svcs \<and> p = unit_path (legacy_unit name) \<and> \<not> UnitRemoveFails env p then None else files p)"

definition link_dropped ::
  "OverlayEnv \<Rightarrow> string \<Rightarrow> ServiceDef gomap \<Rightarrow> (string \<Rightarrow> string option) \<Rightarrow> string \<Rightarrow> bool" where
  "link_dropped env name svcs files l \<longleftrightarrow>
     legacy_present name svcs files \<and> l = wants_link name (legacy_unit name) \<and> \<not> UnitRemoveFails env l"

definition legacy_stops :: "string \<Rightarrow> ServiceDef gomap \<Rightarrow> (string \<Rightarrow> string option) \<Rightarrow> string list list" where
  "legacy_stops name svcs files =
     (if legacy_present name svcs files then [[''systemctl'', ''stop'', legacy_unit name]] else [])"

lemma map_of_remove_path [gomap]:
  "map_of (remove_path env p m) q = (if q = p \<and> \<not> UnitRemoveFails env p then None else map_of m q)"
  by (simp add: remove_path_def gomap)

lemma write_services_effect:
  assumes "write_services env name dependsOn svcs w = (None, w')" and "gomap_ok svcs"
  shows "map_of (UnitFiles w') = services_written env name dependsOn svcs (map_of (UnitFiles w))
    \<and> map_of (WantsLinks w') = (\<lambda>l. if link_dropped env name svcs (map_of (UnitFiles w)) l then None else map_of (WantsLinks w) l)
    \<and> Commands w' = Commands w @ legacy_stops name svcs (map_of (UnitFiles w)) \<and> BinLinks w' = BinLinks w"
  using assms
proof (induction svcs arbitrary: w)
  case Nil
  then show ?case
    by (simp add: service_file_def services_written_def fun_eq_iff legacy_stops_def link_dropped_def legacy_present_def)
next
  case (Cons x svcs)
  obtain s svc where x: "x = (s, svc)" by (cases x)
  let ?w = "migrate_legacy env name s w"
  let ?c = "service_content name s svc dependsOn"
  let ?w1 = "?w\<lparr>UnitFiles := AList.update (unit_path (serviceUnitName name s)) ?c (UnitFiles ?w)\<rparr>"
  let ?f = "map_of (UnitFiles w)"
  have r: "write_services env name dependsOn svcs ?w1 = (None, w')"
    using Cons.prems(1) by (auto simp: x write_unit_def split: option.splits)
  note ih = Cons.IH [OF r]
  have ok: "gomap_ok svcs" "s \<notin> keys svcs" using Cons.prems(2) by (auto simp: x)
  have m: "map_of (UnitFiles ?w) p = (if s = name \<and> p = unit_path (legacy_unit name) \<and> \<not> UnitRemoveFails env p then None else ?f p)" for p
    by (auto simp: migrate_legacy_def legacy_unit_def Let_def gomap legacy_eq)
  have n: "service_file name dependsOn svcs p = None" if "p = unit_path (serviceUnitName name s)" for p
    using ok that by (force simp: service_file_None list_all_iff serviceUnitName_inj image_iff)
  have l: "serviceUnitName name s' \<noteq> legacy_unit name" for s'
    using legacy_eq [of name name s'] by (auto simp: legacy_unit_def)
  have f: "map_of (UnitFiles w') = services_written env name dependsOn svcs (map_of (UnitFiles ?w1))"
    using ih ok by blast
  have files: "map_of (UnitFiles w') p = services_written env name dependsOn (x # svcs) ?f p" for p
    using n m l [of s] unfolding f
    by (auto simp: x services_written_def gomap service_file_def split: option.splits if_splits)
  have present: "legacy_present name svcs (map_of (UnitFiles ?w1)) \<longleftrightarrow> s \<noteq> name \<and> legacy_present name (x # svcs) ?f"
    using ok(2) l [of s] by (auto simp: x legacy_present_def gomap m)
  have now: "s = name \<and> legacy_present name (x # svcs) ?f \<longleftrightarrow>
      legacyServiceUnitName name s \<noteq> serviceUnitName name s \<and> ?f (unit_path (legacyServiceUnitName name s)) \<noteq> None"
    using l [of s] by (auto simp: x legacy_present_def legacy_unit_def legacy_eq)
  have links: "map_of (WantsLinks ?w) k = (if s = name \<and> link_dropped env name (x # svcs) ?f k then None else map_of (WantsLinks w) k)" for k
    using now by (auto simp: migrate_legacy_def Let_def gomap link_dropped_def legacy_unit_def)
  have cmds: "Commands ?w = Commands w @ (if s = name then legacy_stops name (x # svcs) ?f else [])"
    using now by (auto simp: migrate_legacy_def Let_def legacy_stops_def legacy_unit_def)
  have bins: "BinLinks ?w = BinLinks w" by (simp add: migrate_legacy_def Let_def)
  have "link_dropped env name svcs (map_of (UnitFiles ?w1)) k \<longleftrightarrow> s \<noteq> name \<and> link_dropped env name (x # svcs) ?f k" for k
    unfolding link_dropped_def present by blast
  moreover have "legacy_stops name svcs (map_of (UnitFiles ?w1)) = (if s = name then [] else legacy_stops name (x # svcs) ?f)"
    unfolding legacy_stops_def present by simp
  ultimately show ?case
    using ih ok files links cmds bins by (auto simp: fun_eq_iff)
qed

text \<open>What the links in the \<open>.wants\<close> directory of the target are after the units are generated.\<close>

definition links_made ::
  "OverlayEnv \<Rightarrow> string \<Rightarrow> ServiceDef gomap \<Rightarrow> (string \<Rightarrow> string option) \<Rightarrow> (string \<Rightarrow> string option) \<Rightarrow> string \<Rightarrow> string option" where
  "links_made env name svcs files links l =
     (case (if link_dropped env name svcs files l then None else links l) of
        Some target \<Rightarrow> Some target
      | None \<Rightarrow> map_option (\<lambda>(svcName, _). unit_path (serviceUnitName name svcName))
                  (find (\<lambda>(svcName, _). l = wants_link name (serviceUnitName name svcName)) svcs))"

definition units_made ::
  "OverlayEnv \<Rightarrow> string \<Rightarrow> string list \<Rightarrow> ServiceDef gomap \<Rightarrow> (string \<Rightarrow> string option) \<Rightarrow> string \<Rightarrow> string option" where
  "units_made env name dependsOn svcs files p =
     (if p = unit_path (target_name name) then Some (target_content name dependsOn)
      else services_written env name dependsOn svcs files p)"

lemma link_wants_links:
  "map_of (WantsLinks (link_wants name (map (\<lambda>(svcName, _). serviceUnitName name svcName) svcs) w)) l =
     (case map_of (WantsLinks w) l of
        Some target \<Rightarrow> Some target
      | None \<Rightarrow> map_option (\<lambda>(svcName, _). unit_path (serviceUnitName name svcName))
                  (find (\<lambda>(svcName, _). l = wants_link name (serviceUnitName name svcName)) svcs))"
proof (induction svcs arbitrary: w)
  case Nil
  then show ?case by (simp add: link_wants_def split: option.splits)
next
  case (Cons x svcs)
  obtain s svc where x: "x = (s, svc)" by (cases x)
  let ?u = "serviceUnitName name s"
  have "link_wants name (?u # us) w = link_wants name us (w\<lparr>WantsLinks := symlink_new (unit_path ?u) (wants_link name ?u) (WantsLinks w)\<rparr>)" for us
    by (simp add: link_wants_def)
  moreover have "map_of (symlink_new t k m) l = (if l = k \<and> map_of m l = None then Some t else map_of m l)" for t k m
    by (auto simp: symlink_new_def gomap)
  ultimately show ?case
    using Cons.IH by (cases "map_of (WantsLinks w) l"; cases "l = wants_link name ?u") (simp_all add: x)
qed

lemma generateUnits_effect:
  assumes "generateUnits env name manifest dependsOn w = (None, w')" and "gomap_ok (Services manifest)"
  shows "map_of (UnitFiles w') = units_made env name dependsOn (Services manifest) (map_of (UnitFiles w))"
    and "map_of (WantsLinks w') = links_made env name (Services manifest) (map_of (UnitFiles w)) (map_of (WantsLinks w))"
    and "Commands w' = Commands w @ legacy_stops name (Services manifest) (map_of (UnitFiles w))"
    and "BinLinks w' = BinLinks w"
proof -
  let ?w1 = "w\<lparr>UnitFiles := AList.update (unit_path (target_name name)) (target_content name dependsOn) (UnitFiles w)\<rparr>"
  let ?svcs = "Services manifest"
  obtain w2 where r: "write_services env name dependsOn ?svcs ?w1 = (None, w2)"
    and w': "w' = link_wants name (map (\<lambda>(svcName, _). serviceUnitName name svcName) ?svcs) w2"
    using assms(1) by (auto simp: generateUnits_def write_unit_def split: option.splits prod.splits)
  note e = write_services_effect [OF r assms(2)]
  have p: "legacy_present name ?svcs (map_of (UnitFiles ?w1)) = legacy_present name ?svcs (map_of (UnitFiles w))"
    by (simp add: legacy_present_def legacy_unit_def gomap target_not_service [symmetric] del: not_None_eq)
  have "link_dropped env name ?svcs (map_of (UnitFiles ?w1)) = link_dropped env name ?svcs (map_of (UnitFiles w))"
    unfolding link_dropped_def fun_eq_iff p by simp
  then have dropped: "map_of (WantsLinks w2) l = (if link_dropped env name ?svcs (map_of (UnitFiles w)) l then None
      else map_of (WantsLinks w) l)" for l
    using e by simp
  have t: "service_file name dependsOn ?svcs (unit_path (target_name name)) = None"
    by (simp add: service_file_None list_all_iff target_not_service split_beta)
  show "map_of (UnitFiles w') = units_made env name dependsOn ?svcs (map_of (UnitFiles w))"
    using e t by (auto simp: w' link_wants_def units_made_def services_written_def legacy_unit_def gomap target_not_service
        fun_eq_iff split: option.splits)
  show "map_of (WantsLinks w') = links_made env name ?svcs (map_of (UnitFiles w)) (map_of (WantsLinks w))"
    unfolding w' fun_eq_iff link_wants_links links_made_def dropped [symmetric] by simp
  have "legacy_stops name ?svcs (map_of (UnitFiles ?w1)) = legacy_stops name ?svcs (map_of (UnitFiles w))"
    unfolding legacy_stops_def p by simp
  then show "Commands w' = Commands w @ legacy_stops name ?svcs (map_of (UnitFiles w))"
    using e by (simp add: w' link_wants_def)
  show "BinLinks w' = BinLinks w" using e by (simp add: w' link_wants_def)
qed

section \<open>Properties\<close>

text \<open>
  within one overlay different services have different unit names, but across overlays they
  may collide: overlay \<open>a\<close> with service \<open>b-c\<close> and overlay \<open>a-b\<close> with
  service \<open>c\<close> share one unit.
\<close>

theorem service_unit_names:
  "inj (serviceUnitName overlay) \<and> serviceUnitName ''a'' ''b-c'' = serviceUnitName ''a-b'' ''c''"
  by (simp add: inj_def serviceUnitName_inj) (simp add: serviceUnitName_def)

text \<open>
  C26: when the units of an overlay are generated without error, the target and every service of
  the manifest have exactly their unit file, the unit left under the longer name by an older
  manager is gone (unless it cannot be removed), and every other unit file is as it was; also that
  of a service the new manifest no longer has.
\<close>

theorem generated_units:
  assumes "generateUnits env name manifest dependsOn w = (None, w')" and "gomap_ok (Services manifest)"
  shows "map_of (UnitFiles w') p =
    (if p = unit_path (target_name name) then Some (target_content name dependsOn)
     else case service_file name dependsOn (Services manifest) p of
       Some c \<Rightarrow> Some c
     | None \<Rightarrow> if name \<in> keys (Services manifest) \<and> p = unit_path (legacyServiceUnitName name name)
                  \<and> \<not> UnitRemoveFails env p then None
               else map_of (UnitFiles w) p)"
  by (simp only: generateUnits_effect(1) [OF assms] units_made_def services_written_def legacy_unit_def)

definition demo_manifest :: OverlayManifest where
  "demo_manifest = \<lparr>Services = [(''web'', zero_ServiceDef\<lparr>SvcExec := ''/bin/web''\<rparr>), (''job'', zero_ServiceDef\<lparr>SvcExec := ''/bin/job''\<rparr>)],
     Bins = [''/nix/store/w/bin/web''], Health = None\<rparr>"

definition demo_overlay_env :: OverlayEnv where
  "demo_overlay_env = \<lparr>Realise = (\<lambda>p. None), PathExists = (\<lambda>p. True),
     NixEval = (\<lambda>f e. Inr (js ''{~services~:{~web~:{~exec~:~/bin/web~}},~bins~:[],~health~:{~type~:~http~,~endpoint~:~u~,~interval~:1,~stabilize~:2}}'')),
     ManifestError = (\<lambda>s. ''bad''), UnitWriteError = (\<lambda>p. None), UnitRemoveFails = (\<lambda>p. False), Systemctl = (\<lambda>c. None),
     HttpProbe = (\<lambda>e i. if e = ''u'' then Some 200 else None), TcpProbe = (\<lambda>e i. False), ExecProbe = (\<lambda>e i. False),
     TurnTime = (\<lambda>i. 0), CheckTime = (\<lambda>n. 1700000000000000000), NoteTime = (\<lambda>n. 1700000000000000000)\<rparr>"

definition empty_world :: World where
  "empty_world = \<lparr>UnitFiles = [], WantsLinks = [], BinLinks = [], Dirs = [], Commands = []\<rparr>"

definition demo_units :: World where
  "demo_units = empty_world\<lparr>UnitFiles := [(unit_path ''overlay-web-web.service'', ''old''), (unit_path ''overlay-web-gone.service'', ''kept'')]\<rparr>"

theorem generated_units_witness:
  "map_of (UnitFiles (snd (generateUnits demo_overlay_env ''web'' demo_manifest [''db''] demo_units)))
     (unit_path ''overlay-web-gone.service'') = Some ''kept''
   \<and> map_of (UnitFiles (snd (generateUnits demo_overlay_env ''web'' demo_manifest [''db''] demo_units)))
     (unit_path ''overlay-web-web.service'') = None"
proof -
  let ?g = "generateUnits demo_overlay_env ''web'' demo_manifest [''db''] demo_units"
  have "fst ?g = None" by code_simp
  then have g: "?g = (None, snd ?g)" by (metis prod.collapse)
  have ok: "gomap_ok (Services demo_manifest)" by (simp add: demo_manifest_def)
  show ?thesis
    unfolding generated_units [OF g ok] by code_simp
qed

end
