(* ===== verification/Overlay_Health.thy ===== *)
theory Overlay_Health
  imports Overlay_Units
begin

text \<open>
  \<open>runHealthChecks\<close> of \<open>pkgs/fort-overlay-manager/main.go\<close>: probes until the
  service has been healthy for the stabilisation time, or the cap on the waiting time is
  reached. The clock moves by at least a nanosecond in every turn, so the loop ends.
\<close>

definition probe :: "OverlayEnv \<Rightarrow> HealthConfig \<Rightarrow> nat \<Rightarrow> bool" where
  "probe env h i =
     (if HealthType h = ''http'' then
        (case HttpProbe env (Endpoint h) i of None \<Rightarrow> False | Some code \<Rightarrow> 200 \<le> code \<and> code < 300)
      else if HealthType h = ''tcp'' then TcpProbe env (Endpoint h) i
      else if HealthType h = ''exec'' then ExecProbe env (Endpoint h) i
      else False)"

text \<open>
  One loop: the number of the next probe, the consecutive healthy time and the time since the
  start, in nanoseconds.
\<close>

definition turn_end :: "(nat \<Rightarrow> nat) \<Rightarrow> int \<Rightarrow> int \<Rightarrow> nat \<Rightarrow> int \<Rightarrow> int \<Rightarrow> int" where
  "turn_end dur interval stabilize i consecutiveOK' elapsed =
     elapsed + 1 + int (dur i) + (if consecutiveOK' < stabilize then max 0 interval else 0)"

function health_loop ::
  "(nat \<Rightarrow> bool) \<Rightarrow> (nat \<Rightarrow> nat) \<Rightarrow> int \<Rightarrow> int \<Rightarrow> int \<Rightarrow> nat \<Rightarrow> int \<Rightarrow> int \<Rightarrow> bool \<times> nat" where
  "health_loop pr dur interval stabilize maxWait i consecutiveOK elapsed =
     (if consecutiveOK < stabilize \<and> elapsed < maxWait
      then (let ok' = (if pr i then wrap64 (consecutiveOK + interval) else 0)
            in health_loop pr dur interval stabilize maxWait (Suc i) ok'
                 (turn_end dur interval stabilize i ok' elapsed))
      else (stabilize \<le> consecutiveOK, i))"
  by pat_completeness auto
termination
  by (relation "measure (\<lambda>(pr, dur, interval, stabilize, maxWait, i, ok, elapsed). nat (maxWait - elapsed))")
    (auto simp: turn_end_def)

declare health_loop.simps [simp del]

text \<open>The verdict; the second component is the number of probes made.\<close>

definition health_run :: "OverlayEnv \<Rightarrow> HealthConfig \<Rightarrow> bool \<times> nat" where
  "health_run env h =
     (let interval = mul_duration (Interval h) Second; stabilize = mul_duration (Stabilize h) Second;
          maxWait = wrap64 (stabilize + 60 * Second)
      in health_loop (probe env h) (TurnTime env) interval stabilize maxWait 0 0 0)"

definition runHealthChecks :: "OverlayEnv \<Rightarrow> HealthConfig \<Rightarrow> bool" where
  "runHealthChecks env h = fst (health_run env h)"

section \<open>Lemmas\<close>

text \<open>
  The consecutive healthy time is what the last run of healthy probes adds up to, so a healthy
  verdict needs a run of them that covers the stabilisation time.
\<close>

definition healthy_run :: "(nat \<Rightarrow> bool) \<Rightarrow> int \<Rightarrow> nat \<Rightarrow> int \<Rightarrow> bool" where
  "healthy_run pr interval i ok \<longleftrightarrow>
     (\<exists>k. k \<le> i \<and> ok = int k * interval \<and> (\<forall>j. i - k \<le> j \<and> j < i \<longrightarrow> pr j))"

lemma healthy_run_ok:
  assumes "healthy_run pr interval i ok" and "pr i"
  shows "healthy_run pr interval (Suc i) (ok + interval)"
proof -
  from assms(1) obtain k where k: "k \<le> i" "ok = int k * interval" "\<forall>j. i - k \<le> j \<and> j < i \<longrightarrow> pr j"
    by (auto simp: healthy_run_def)
  then show ?thesis
    unfolding healthy_run_def
    by (intro exI [of _ "Suc k"]) (use assms(2) less_Suc_eq in \<open>auto simp: algebra_simps\<close>)
qed

lemma healthy_run_bad: "healthy_run pr interval (Suc i) 0"
  unfolding healthy_run_def by (rule exI [of _ 0]) auto

lemma health_loop_run:
  assumes "healthy_run pr interval i ok" and "0 \<le> ok" and "0 < interval" and "stabilize + interval < 2 ^ 63"
    and "health_loop pr dur interval stabilize maxWait i ok elapsed = (True, n)"
  shows "\<exists>k. k \<le> n \<and> stabilize \<le> int k * interval \<and> (\<forall>j. n - k \<le> j \<and> j < n \<longrightarrow> pr j)"
  using assms
proof (induction pr dur interval stabilize maxWait i ok elapsed rule: health_loop.induct)
  case (1 pr dur interval stabilize maxWait i ok elapsed)
  show ?case
  proof (cases "ok < stabilize \<and> elapsed < maxWait")
    case True
    let ?ok = "if pr i then wrap64 (ok + interval) else 0"
    have w: "wrap64 (ok + interval) = ok + interval"
      using "1.prems" True by (intro wrap64_id) (auto simp: int64_ok_def)
    have "healthy_run pr interval (Suc i) ?ok"
      using "1.prems"(1) healthy_run_ok healthy_run_bad by (simp add: w)
    then show ?thesis
      using "1.IH" [OF True refl] "1.prems" True
      by (simp add: health_loop.simps [of pr dur interval stabilize maxWait i] w Let_def)
  next
    case False
    then show ?thesis
      using "1.prems" unfolding healthy_run_def
      by (subst (asm) health_loop.simps) (auto split: if_splits)
  qed
qed

text \<open>Without an interval the healthy time never grows.\<close>

lemma health_loop_never:
  assumes "0 < stabilize"
  shows "\<not> fst (health_loop pr dur 0 stabilize maxWait i 0 elapsed)"
proof (induction "nat (maxWait - elapsed)" arbitrary: i elapsed rule: less_induct)
  case less
  have z: "wrap64 0 = 0" by (simp add: int64_ok_def)
  show ?case
  proof (cases "elapsed < maxWait")
    case True
    then have "nat (maxWait - turn_end dur 0 stabilize i 0 elapsed) < nat (maxWait - elapsed)"
      by (simp add: turn_end_def)
    then show ?thesis
      using less assms by (subst health_loop.simps) (simp add: z Let_def)
  next
    case False
    then show ?thesis using assms by (subst health_loop.simps) simp
  qed
qed

text \<open>A service that answers every probe is found healthy when the probes are quick enough.\<close>

lemma health_loop_complete:
  assumes "\<And>j. pr j" and "0 < interval" and "stabilize + interval < 2 ^ 63"
    and "stabilize \<le> int K * interval" and "(\<Sum>j<K. 1 + int (dur j)) \<le> slack"
    and "elapsed \<le> int i * interval + (\<Sum>j<i. 1 + int (dur j))"
  shows "fst (health_loop pr dur interval stabilize (stabilize + slack) i (int i * interval) elapsed)"
  using assms(6)
proof (induction "nat (stabilize - int i * interval)" arbitrary: i elapsed rule: less_induct)
  case less
  show ?case
  proof (cases "int i * interval < stabilize")
    case True
    then have "int i * interval < int K * interval" using assms(4) by simp
    then have "i < K" using assms(2) by (simp add: mult_less_cancel_right)
    then have "(\<Sum>j<i. 1 + int (dur j)) \<le> (\<Sum>j<K. 1 + int (dur j))" by (intro sum_mono2) auto
    then have e: "elapsed < stabilize + slack" using less.prems assms(5) True by simp
    have g: "wrap64 (a + interval) = a + interval" if "0 \<le> a" "a < stabilize" for a
      using that assms(2,3) by (intro wrap64_id) (simp add: int64_ok_def)
    have w: "wrap64 (int i * interval + interval) = int (Suc i) * interval"
      using g [of "int i * interval"] True assms(2) by (simp add: algebra_simps)
    have t: "turn_end dur interval stabilize i (int (Suc i) * interval) elapsed
        \<le> int (Suc i) * interval + (\<Sum>j<Suc i. 1 + int (dur j))"
      using less.prems assms(2) by (simp add: turn_end_def algebra_simps)
    have "nat (stabilize - int (Suc i) * interval) < nat (stabilize - int i * interval)"
      using True assms(2) by (simp add: algebra_simps)
    from less.hyps [OF this t] show ?thesis
      using True e assms(1) by (subst health_loop.simps) (simp add: w Let_def)
  next
    case False
    then show ?thesis by (subst health_loop.simps) simp
  qed
qed

section \<open>Properties\<close>

text \<open>
  C12: a healthy verdict means that the last probes were all healthy and, at the configured
  interval, cover the stabilisation time.
\<close>

theorem health_sound:
  assumes "health_run env h = (True, n)" and "0 < Interval h" and "Interval h < 2 ^ 32"
    and "0 \<le> Stabilize h" and "Stabilize h < 2 ^ 32"
  shows "\<exists>k. k \<le> n \<and> Stabilize h \<le> int k * Interval h \<and> (\<forall>j. n - k \<le> j \<and> j < n \<longrightarrow> probe env h j)"
proof -
  have m: "mul_duration (Interval h) Second = Interval h * Second" "mul_duration (Stabilize h) Second = Stabilize h * Second"
    using assms unfolding mul_duration_def by (auto intro!: wrap64_id simp: int64_ok_def)
  have r: "healthy_run (probe env h) (Interval h * Second) 0 0"
    unfolding healthy_run_def by (rule exI [of _ 0]) simp
  have l: "health_loop (probe env h) (TurnTime env) (Interval h * Second) (Stabilize h * Second)
      (wrap64 (Stabilize h * Second + 60 * Second)) 0 0 0 = (True, n)"
    using assms(1) unfolding health_run_def Let_def m .
  have "\<exists>k. k \<le> n \<and> Stabilize h * Second \<le> int k * (Interval h * Second)
      \<and> (\<forall>j. n - k \<le> j \<and> j < n \<longrightarrow> probe env h j)"
    by (rule health_loop_run [OF r _ _ _ l]) (use assms(2-5) in simp_all)
  then show ?thesis by (simp add: mult.assoc [symmetric])
qed

text \<open>
  C29: a service that answers every probe passes, when the probes needed to cover the
  stabilisation time take less than a minute together.
\<close>

theorem health_complete:
  assumes "\<And>j. probe env h j" and "0 < Interval h" and "Interval h < 2 ^ 32"
    and "0 \<le> Stabilize h" and "Stabilize h < 2 ^ 32"
    and "Stabilize h \<le> int K * Interval h" and "(\<Sum>j<K. 1 + int (TurnTime env j)) \<le> Minute"
  shows "runHealthChecks env h"
proof -
  have m: "mul_duration (Interval h) Second = Interval h * Second" "mul_duration (Stabilize h) Second = Stabilize h * Second"
    using assms unfolding mul_duration_def by (auto intro!: wrap64_id simp: int64_ok_def)
  have w: "wrap64 (Stabilize h * Second + 60 * Second) = Stabilize h * Second + Minute"
    using assms by (subst wrap64_id) (auto simp: int64_ok_def)
  have k: "Stabilize h * Second \<le> int K * (Interval h * Second)"
    using assms(6) by (simp add: mult.assoc [symmetric])
  show ?thesis
    unfolding runHealthChecks_def health_run_def Let_def m w
    using health_loop_complete [of "probe env h" "Interval h * Second" "Stabilize h * Second" K "TurnTime env" Minute 0 0]
      assms k by simp
qed

text \<open>
  an overlay whose stabilisation time is not set passes without one probe, and one whose
  interval is not set (and whose stabilisation time is) never passes, however healthy it is.
\<close>

theorem health_degenerate:
  assumes "Interval h = 0" and "0 < Stabilize h" and "Stabilize h < 2 ^ 32"
  shows "\<not> runHealthChecks env h \<and> health_run env (h\<lparr>Stabilize := 0\<rparr>) = (True, 0)"
proof
  have m: "mul_duration (Interval h) Second = 0" "mul_duration (Stabilize h) Second = Stabilize h * Second"
    using assms unfolding mul_duration_def by (auto intro!: wrap64_id simp: int64_ok_def)
  show "\<not> runHealthChecks env h"
    unfolding runHealthChecks_def health_run_def Let_def m using assms(2) by (intro health_loop_never) simp
  show "health_run env (h\<lparr>Stabilize := 0\<rparr>) = (True, 0)"
    unfolding health_run_def Let_def by (subst health_loop.simps) (simp add: mul_duration_def int64_ok_def)
qed

section \<open>Examples\<close>

definition demo_health :: HealthConfig where
  "demo_health = \<lparr>HealthType = ''http'', Endpoint = ''u'', Interval = 1, Grace = 0, Stabilize = 2\<rparr>"

theorem health_sound_witness:
  "\<exists>k. k \<le> 2 \<and> 2 \<le> int k * 1 \<and> (\<forall>j. 2 - k \<le> j \<and> j < 2 \<longrightarrow> probe demo_overlay_env demo_health j)"
proof -
  have r: "health_run demo_overlay_env demo_health = (True, 2)" by code_simp
  show ?thesis using health_sound [OF r] by (simp add: demo_health_def)
qed

theorem health_complete_witness: "runHealthChecks demo_overlay_env demo_health"
  by (rule health_complete [where K = 2])
    (simp_all add: demo_health_def demo_overlay_env_def probe_def)

theorem health_degenerate_witness:
  "\<not> runHealthChecks demo_overlay_env (demo_health\<lparr>Interval := 0\<rparr>)"
  using health_degenerate [of "demo_health\<lparr>Interval := 0\<rparr>" demo_overlay_env] by (simp add: demo_health_def)

end
