(* ===== verification/Overlay_Activate.thy ===== *)
theory Overlay_Activate
  imports Overlay_Health
begin

text \<open>
  The commands of \<open>pkgs/fort-overlay-manager/main.go\<close>: the activation state machine
  (\<open>cmdActivate\<close>), the rollback, the poll of the registry (\<open>cmdCheck\<close>), the boot
  (\<open>cmdBoot\<close>) and the status report.
\<close>

section \<open>Rollback and activation\<close>

text \<open>The time, in seconds, at which the outcome of an activation of an overlay is written down.\<close>

definition now_seconds :: "OverlayEnv \<Rightarrow> string \<Rightarrow> int" where
  "now_seconds env name = toUnix (NoteTime env name)"

definition restore_previous :: "int \<Rightarrow> OverlayState \<Rightarrow> string \<Rightarrow> string \<Rightarrow> OverlayDir \<Rightarrow> OverlayDir" where
  "restore_previous now previous failedPath reason d =
     (let d1 = updateGCRootCurrent (OvPath previous) (saveCurrentState previous d);
          d2 = d1\<lparr>PreviousFile := no_file, RootPrevious := None\<rparr>;
          d3 = (if failedPath \<noteq> [] then recordAttempt now failedPath ''rolled-back'' reason d2 else clearAttempt d2)
      in writeState ''rolled-back'' d3)"

definition give_up :: "int \<Rightarrow> string \<Rightarrow> string \<Rightarrow> OverlayDir \<Rightarrow> OverlayDir" where
  "give_up now failedPath reason d =
     writeState ''failed'' (if failedPath \<noteq> [] then recordAttempt now failedPath ''failed'' reason d else d)"

definition rollbackOverlay ::
  "OverlayEnv \<Rightarrow> Config \<Rightarrow> string \<Rightarrow> string \<Rightarrow> string \<Rightarrow> World \<Rightarrow> World" where
  "rollbackOverlay env cfg name failedPath reason w =
     (case loadPreviousState (overlay_dir name w) of
        None \<Rightarrow>
          on_dir name (give_up (now_seconds env name) failedPath (reason @ ''; no previous version to roll back to'')) w
      | Some previous \<Rightarrow>
          (let ov = overlay_config (Overlays cfg) name;
               w1 = stopTarget name w
           in case evalOverlay env (OvPath previous) (OverlaySettings ov) of
                Inl err \<Rightarrow>
                  on_dir name (give_up (now_seconds env name) failedPath (reason @ ''; rollback eval failed: '' @ err)) w1
              | Inr manifest \<Rightarrow>
                  (let w2 = snd (generateUnits env name manifest (DependsOn ov) w1);
                       w3 = snd (daemonReload env w2);
                       w4 = snd (startTarget env name w3);
                       w5 = updateBinSymlinks (BinDir cfg) (Bins manifest) w4
                   in on_dir name (restore_previous (now_seconds env name) previous failedPath reason) w5)))"

definition make_permanent :: "int \<Rightarrow> string \<Rightarrow> OverlayDir \<Rightarrow> OverlayDir" where
  "make_permanent now storePath d =
     (let d1 = rotatePrevious (writeState ''permanent'' d);
          d2 = saveCurrentState \<lparr>OvPath = storePath, ActivatedAt = now, ManifestHash = []\<rparr> d1
      in clearAttempt (updateGCRootCurrent storePath d2))"

definition needs_health :: "OverlayManifest \<Rightarrow> HealthConfig option" where
  "needs_health manifest =
     (case Health manifest of None \<Rightarrow> None
      | Some h \<Rightarrow> if HealthType h = ''none'' then None else Some h)"

definition fail_with :: "OverlayEnv \<Rightarrow> string \<Rightarrow> string \<Rightarrow> string \<Rightarrow> World \<Rightarrow> World" where
  "fail_with env name storePath reason w = on_dir name (failActivation (now_seconds env name) storePath reason) w"

text \<open>
  \<open>cmdActivate\<close> from the start of the target on: the services of the old version are
  stopped, the target is started, and the health checks decide.
\<close>

definition activate_start ::
  "OverlayEnv \<Rightarrow> Config \<Rightarrow> string \<Rightarrow> string \<Rightarrow> OverlayManifest \<Rightarrow> World \<Rightarrow> World" where
  "activate_start env cfg name storePath manifest w =
     (case startTarget env name (stopServices name manifest w) of
        (Some err, w1) \<Rightarrow>
          rollbackOverlay env cfg name storePath (''start failed: '' @ err) (on_dir name (writeState ''rolling-back'') w1)
      | (None, w1) \<Rightarrow>
          (let w2 = on_dir name (writeState ''provisional'') w1
           in if (case needs_health manifest of None \<Rightarrow> True | Some h \<Rightarrow> runHealthChecks env h)
              then updateBinSymlinks (BinDir cfg) (Bins manifest)
                     (on_dir name (make_permanent (now_seconds env name) storePath) w2)
              else rollbackOverlay env cfg name storePath ''health checks failed''
                     (on_dir name (writeState ''rolling-back'') w2)))"

text \<open>The message of \<open>log.Fatalf\<close> when the overlay is not configured, and the world after.\<close>

definition cmdActivate ::
  "OverlayEnv \<Rightarrow> Config \<Rightarrow> string \<Rightarrow> string \<Rightarrow> World \<Rightarrow> string option \<times> World" where
  "cmdActivate env cfg name storePath w =
     (case map_of (Overlays cfg) name of
        None \<Rightarrow> (Some (''['' @ name @ ''] not in config''), w)
      | Some ov \<Rightarrow>
          (None,
           let w1 = on_dir name (writeState ''fetching'') w in
           case Realise env storePath of
             Some err \<Rightarrow> fail_with env name storePath (''fetch failed: '' @ err) w1
           | None \<Rightarrow>
               (let w2 = on_dir name (writeState ''validating'') w1;
                    overlayNix = join_path storePath ''overlay.nix''
                in if \<not> PathExists env overlayNix
                   then fail_with env name storePath (''no overlay.nix at '' @ overlayNix) w2
                   else
                     (case evalOverlay env storePath (OverlaySettings ov) of
                        Inl err \<Rightarrow> fail_with env name storePath (''eval failed: '' @ err) w2
                      | Inr manifest \<Rightarrow>
                          (let w3 = on_dir name (writeState ''provisioning'')
                                      (ensureDataDirOwnership env name (OverlaySettings ov) manifest w2)
                           in case generateUnits env name manifest (DependsOn ov) w3 of
                                (Some err, w4) \<Rightarrow>
                                  fail_with env name storePath (''unit generation failed: '' @ err) w4
                              | (None, w4) \<Rightarrow>
                                  (case daemonReload env w4 of
                                     (Some err, w5) \<Rightarrow>
                                       fail_with env name storePath (''daemon-reload failed: '' @ err) w5
                                   | (None, w5) \<Rightarrow> activate_start env cfg name storePath manifest w5))))))"

definition cmdRollback :: "OverlayEnv \<Rightarrow> Config \<Rightarrow> string \<Rightarrow> World \<Rightarrow> World" where
  "cmdRollback env cfg name w = rollbackOverlay env cfg name [] ''operator-initiated rollback'' w"

section \<open>The registry\<close>

record RegistryEntry =
  RegPath :: string
  RegUpdatedAt :: int

definition decodeRegistryEntry :: "string \<Rightarrow> RegistryEntry option" where
  "decodeRegistryEntry x =
     Option.bind (raw_object x) (\<lambda>ms.
       set_field ''storePath'' dec_string [] (\<lambda>v s. s\<lparr>RegPath := v\<rparr>) ms
       (set_field ''updatedAt'' dec_int 0 (\<lambda>v s. s\<lparr>RegUpdatedAt := v\<rparr>) ms
         (Some \<lparr>RegPath = [], RegUpdatedAt = 0\<rparr>)))"

text \<open>
  \<open>fetchRegistry\<close> on the reply of the registry, a status code and a body, or no reply. The
  decoder reads the first JSON value of the body; null gives a nil map, which the caller takes
  for a failure.
\<close>

definition fetchRegistry :: "(int \<times> string) option \<Rightarrow> RegistryEntry gomap option" where
  "fetchRegistry reply =
     (case reply of
        None \<Rightarrow> None
      | Some (status, body) \<Rightarrow>
          if status \<noteq> 200 then None
          else (case raw_value body of
                  None \<Rightarrow> None
                | Some (v, _) \<Rightarrow>
                    if json_parse v = Some JNull then None
                    else Option.bind (raw_object v) (\<lambda>ms.
                      fold (\<lambda>(k, x) acc. Option.bind acc (\<lambda>m.
                          map_option (\<lambda>e. AList.update k e m) (decodeRegistryEntry x))) ms (Some []))))"

text \<open>The store path the registry offers for an overlay that is to be checked.\<close>

definition offered ::
  "Config \<Rightarrow> RegistryEntry gomap \<Rightarrow> string \<Rightarrow> string \<Rightarrow> string option" where
  "offered cfg registry overlayFilter name =
     (let ov = overlay_config (Overlays cfg) name in
      if \<not> Enabled ov \<or> (overlayFilter \<noteq> [] \<and> name \<noteq> overlayFilter) then None
      else map_option RegPath (map_of registry (Package ov)))"

definition up_to_date :: "OverlayEnv \<Rightarrow> string \<Rightarrow> OverlayDir \<Rightarrow> bool" where
  "up_to_date env path d \<longleftrightarrow>
     (case loadCurrentState d of None \<Rightarrow> False
      | Some current \<Rightarrow> OvPath current = path \<and> PathExists env (OvPath current))"

definition backing_off :: "OverlayEnv \<Rightarrow> Config \<Rightarrow> string \<Rightarrow> string \<Rightarrow> OverlayDir \<Rightarrow> bool" where
  "backing_off env cfg name path d \<longleftrightarrow>
     (case loadAttempt d of None \<Rightarrow> False
      | Some attempt \<Rightarrow> AttPath attempt = path \<and> backoffRemaining (CheckTime env name) attempt (PollInterval cfg) > 0)"

definition check_one ::
  "OverlayEnv \<Rightarrow> Config \<Rightarrow> RegistryEntry gomap \<Rightarrow> string \<Rightarrow> string \<Rightarrow> World \<Rightarrow> World" where
  "check_one env cfg registry overlayFilter name w =
     (case offered cfg registry overlayFilter name of
        None \<Rightarrow> w
      | Some path \<Rightarrow>
          if up_to_date env path (overlay_dir name w) \<or> backing_off env cfg name path (overlay_dir name w) then w
          else snd (cmdActivate env cfg name path w))"

definition cmdCheck ::
  "OverlayEnv \<Rightarrow> Config \<Rightarrow> (int \<times> string) option \<Rightarrow> string \<Rightarrow> World \<Rightarrow> World" where
  "cmdCheck env cfg reply overlayFilter w =
     (case fetchRegistry reply of
        None \<Rightarrow> w
      | Some registry \<Rightarrow> fold (check_one env cfg registry overlayFilter) (orderedOverlays (Overlays cfg)) w)"

section \<open>Boot and status\<close>

definition boot_one :: "OverlayEnv \<Rightarrow> Config \<Rightarrow> string \<Rightarrow> World \<Rightarrow> World" where
  "boot_one env cfg name w =
     (let ov = overlay_config (Overlays cfg) name in
      if \<not> Enabled ov then w
      else
        (case loadCurrentState (overlay_dir name w) of
           None \<Rightarrow> on_dir name (\<lambda>d. snd (resetStaleBackoffOnBoot None d)) w
         | Some current \<Rightarrow>
             if \<not> PathExists env (OvPath current) then w
             else
               (case evalOverlay env (OvPath current) (OverlaySettings ov) of
                  Inl err \<Rightarrow> w
                | Inr manifest \<Rightarrow>
                    (case generateUnits env name manifest (DependsOn ov)
                            (ensureDataDirOwnership env name (OverlaySettings ov) manifest w) of
                       (Some err, w2) \<Rightarrow> w2
                     | (None, w2) \<Rightarrow>
                         on_dir name (updateGCRootCurrent (OvPath current))
                           (updateBinSymlinks (BinDir cfg) (Bins manifest) w2)))))"

definition boot_start :: "OverlayEnv \<Rightarrow> Config \<Rightarrow> string \<Rightarrow> World \<Rightarrow> World" where
  "boot_start env cfg name w =
     (if Enabled (overlay_config (Overlays cfg) name) \<and> loadCurrentState (overlay_dir name w) \<noteq> None
      then snd (startTarget env name w) else w)"

definition cmdBoot :: "OverlayEnv \<Rightarrow> Config \<Rightarrow> World \<Rightarrow> World" where
  "cmdBoot env cfg w =
     (let bootOrder = orderedOverlays (Overlays cfg);
          w1 = fold (boot_one env cfg) bootOrder w;
          w2 = snd (daemonReload env w1)
      in fold (boot_start env cfg) bootOrder w2)"

record StatusEntry =
  StName :: string
  StPackage :: string
  StState :: string
  StCurrent :: "OverlayState option"
  StPrevious :: "OverlayState option"
  StLastAttempt :: "AttemptRecord option"
  StEnabled :: bool

text \<open>The entries \<open>cmdStatus\<close> prints, in the order Go walks the overlays.\<close>

definition cmdStatus :: "Config \<Rightarrow> World \<Rightarrow> StatusEntry list" where
  "cmdStatus cfg w =
     map (\<lambda>(name, ov).
       \<lparr>StName = name, StPackage = Package ov, StState = readState (overlay_dir name w),
        StCurrent = loadCurrentState (overlay_dir name w), StPrevious = loadPreviousState (overlay_dir name w),
        StLastAttempt = loadAttempt (overlay_dir name w), StEnabled = Enabled ov\<rparr>) (Overlays cfg)"

section \<open>State directories\<close>

lemma overlay_dir_ops [simp]:
  "overlay_dir n (snd (generateUnits env name manifest dependsOn w)) = overlay_dir n w"
  "overlay_dir n (snd (daemonReload env w)) = overlay_dir n w"
  "overlay_dir n (stopTarget name w) = overlay_dir n w"
  "overlay_dir n (snd (startTarget env name w)) = overlay_dir n w"
  "overlay_dir n (stopServices name manifest w) = overlay_dir n w"
  "overlay_dir n (updateBinSymlinks binDir bins w) = overlay_dir n w"
  "overlay_dir n (ensureDataDirOwnership env name config manifest w) = overlay_dir n w"
  by (rule overlay_dir_cong; simp)+

lemma overlay_dir_generateUnits: "generateUnits env name manifest dependsOn w = (e, w') \<Longrightarrow> overlay_dir n w' = overlay_dir n w"
  using overlay_dir_ops(1) [of n env name manifest dependsOn w] by simp

lemma overlay_dir_daemonReload: "daemonReload env w = (e, w') \<Longrightarrow> overlay_dir n w' = overlay_dir n w"
  using overlay_dir_ops(2) [of n env w] by simp

lemma overlay_dir_startTarget: "startTarget env name w = (e, w') \<Longrightarrow> overlay_dir n w' = overlay_dir n w"
  using overlay_dir_ops(4) [of n env name w] by simp

lemmas overlay_dir_of = overlay_dir_generateUnits overlay_dir_daemonReload overlay_dir_startTarget

text \<open>The three ways an activation of a path can end, as the state directory shows them.\<close>

definition same_versions :: "OverlayDir \<Rightarrow> OverlayDir \<Rightarrow> bool" where
  "same_versions d d' \<longleftrightarrow> CurrentFile d' = CurrentFile d \<and> PreviousFile d' = PreviousFile d
     \<and> RootCurrent d' = RootCurrent d \<and> RootPrevious d' = RootPrevious d"

definition attempt_noted :: "int \<Rightarrow> string \<Rightarrow> string \<Rightarrow> OverlayDir \<Rightarrow> OverlayDir \<Rightarrow> bool" where
  "attempt_noted now path outcome d d' \<longleftrightarrow> StateFile d' = Some outcome
     \<and> (\<exists>reason. loadAttempt d' = Some \<lparr>AttPath = path, AttState = outcome, AttReason = reason, AttAt = now,
          Attempts = wrap64 (attempts_for path d + 1)\<rparr>)"

definition ended_permanent :: "int \<Rightarrow> string \<Rightarrow> OverlayDir \<Rightarrow> OverlayDir \<Rightarrow> bool" where
  "ended_permanent now path d d' \<longleftrightarrow> StateFile d' = Some ''permanent'' \<and> loadAttempt d' = None
     \<and> loadCurrentState d' = Some \<lparr>OvPath = path, ActivatedAt = now, ManifestHash = []\<rparr>
     \<and> PreviousFile d' = (if exists_file (CurrentFile d) then CurrentFile d else PreviousFile d)
     \<and> RootCurrent d' = Some path"

definition ended_failed :: "int \<Rightarrow> string \<Rightarrow> OverlayDir \<Rightarrow> OverlayDir \<Rightarrow> bool" where
  "ended_failed now path d d' \<longleftrightarrow> attempt_noted now path ''failed'' d d' \<and> same_versions d d'"

definition ended_rolled_back :: "int \<Rightarrow> string \<Rightarrow> OverlayDir \<Rightarrow> OverlayDir \<Rightarrow> bool" where
  "ended_rolled_back now path d d' \<longleftrightarrow> attempt_noted now path ''rolled-back'' d d'
     \<and> loadPreviousState d \<noteq> None \<and> loadCurrentState d' = loadPreviousState d
     \<and> PreviousFile d' = no_file \<and> RootCurrent d' = map_option OvPath (loadPreviousState d) \<and> RootPrevious d' = None"

text \<open>What the activation of a path leaves alone in the directory while it runs.\<close>

definition underway :: "OverlayDir \<Rightarrow> OverlayDir \<Rightarrow> bool" where
  "underway d d' \<longleftrightarrow> d' = d\<lparr>StateFile := StateFile d'\<rparr>"

lemma underway_refl [simp]: "underway d d"
  by (simp add: underway_def)

lemma underway_writeState [simp]: "underway d d' \<Longrightarrow> underway d (writeState s d')"
  by (cases d; cases d') (simp add: underway_def writeState_def)

lemma underway_fields:
  assumes "underway d d'"
  shows "CurrentFile d' = CurrentFile d" "PreviousFile d' = PreviousFile d" "AttemptFile d' = AttemptFile d"
    "RootCurrent d' = RootCurrent d" "RootPrevious d' = RootPrevious d"
  by (subst assms [unfolded underway_def]; simp)+

lemma record_fields:
  "CurrentFile (recordAttempt n p s r d) = CurrentFile d" "PreviousFile (recordAttempt n p s r d) = PreviousFile d"
  "RootCurrent (recordAttempt n p s r d) = RootCurrent d" "RootPrevious (recordAttempt n p s r d) = RootPrevious d"
  by (simp_all add: recordAttempt_def Let_def)

lemma attempts_for_cong: "AttemptFile d' = AttemptFile d \<Longrightarrow> attempts_for p d' = attempts_for p d"
  by (simp add: attempts_for_def loadAttempt_def)

lemma loadAttempt_writeState [simp]: "loadAttempt (writeState s d) = loadAttempt d"
  by (simp add: writeState_def loadAttempt_def)

lemma ended_fail:
  "underway d d' \<Longrightarrow> ended_failed now path d (failActivation now path reason d')"
  by (simp add: ended_failed_def attempt_noted_def same_versions_def failActivation_def loadAttempt_record
      attempts_for_record record_fields underway_fields attempts_for_cong [of d' d])
    (simp add: writeState_def record_fields underway_fields)

lemma ended_give_up:
  "underway d d' \<Longrightarrow> path \<noteq> [] \<Longrightarrow> ended_failed now path d (give_up now path reason d')"
  using ended_fail [of d d' now path reason] by (simp add: give_up_def failActivation_def)

lemma ended_restore:
  assumes "underway d d'" and "path \<noteq> []" and "loadPreviousState d = Some previous"
  shows "ended_rolled_back now path d (restore_previous now previous path reason d')"
  using assms
  by (simp add: ended_rolled_back_def attempt_noted_def restore_previous_def Let_def loadAttempt_record attempts_for_record
      attempts_for_cong [of "_\<lparr>PreviousFile := _, RootPrevious := _\<rparr>" d] updateGCRootCurrent_def saveCurrentState_def
      underway_fields)
    (simp add: writeState_def record_fields loadCurrentState_def)

lemma ended_permanent:
  "underway d d' \<Longrightarrow> ended_permanent now path d (make_permanent now path d')"
  by (auto simp: ended_permanent_def make_permanent_def Let_def clearAttempt_def loadAttempt_def updateGCRootCurrent_def
      saveCurrentState_def loadCurrentState_def rotatePrevious_def writeState_def underway_fields split: option.splits)

definition ended :: "int \<Rightarrow> string \<Rightarrow> OverlayDir \<Rightarrow> OverlayDir \<Rightarrow> bool" where
  "ended now path d d' \<longleftrightarrow> ended_permanent now path d d' \<or> ended_failed now path d d' \<or> ended_rolled_back now path d d'"

lemma rollback_ended:
  assumes "underway d (overlay_dir name w)" and "path \<noteq> []"
  shows "ended (now_seconds env name) path d (overlay_dir name (rollbackOverlay env cfg name path reason w))"
proof -
  have p: "loadPreviousState (overlay_dir name w) = loadPreviousState d"
    using assms(1) by (simp add: loadPreviousState_def underway_fields)
  show ?thesis
    using assms ended_give_up [OF assms] ended_restore [OF assms]
    by (auto simp: rollbackOverlay_def p Let_def ended_def split: option.splits sum.splits)
qed

lemma activate_start_ended:
  assumes "underway d (overlay_dir name w)" and "path \<noteq> []"
  shows "ended (now_seconds env name) path d (overlay_dir name (activate_start env cfg name path manifest w))"
proof -
  obtain e w1 where s: "startTarget env name (stopServices name manifest w) = (e, w1)" by (cases "startTarget env name (stopServices name manifest w)")
  have u: "underway d (overlay_dir name w1)" using assms(1) by (simp add: overlay_dir_startTarget [OF s])
  have p: "ended (now_seconds env name) path d (make_permanent (now_seconds env name) path (writeState ''provisional'' (overlay_dir name w1)))"
    using u by (simp add: ended_def ended_permanent)
  show ?thesis
    using u assms(2) p
    by (cases e) (auto simp: activate_start_def s Let_def intro!: rollback_ended)
qed

lemma activation_ended:
  assumes "map_of (Overlays cfg) name \<noteq> None" and "path \<noteq> []"
  shows "fst (cmdActivate env cfg name path w) = None
    \<and> ended (now_seconds env name) path (overlay_dir name w) (overlay_dir name (snd (cmdActivate env cfg name path w)))"
proof -
  let ?d = "overlay_dir name w"
  have f: "ended (now_seconds env name) path ?d (overlay_dir name (fail_with env name path reason w'))"
    if "underway ?d (overlay_dir name w')" for reason w'
    using ended_fail [OF that] by (simp add: fail_with_def ended_def)
  show ?thesis
    using assms
    by (auto simp: cmdActivate_def Let_def overlay_dir_of split: option.splits sum.splits prod.splits
        intro!: f activate_start_ended)
qed


lemma activation_frame:
  "n \<noteq> name \<Longrightarrow> overlay_dir n (snd (cmdActivate env cfg name path w)) = overlay_dir n w"
proof -
  assume n: "n \<noteq> name"
  have r: "overlay_dir n (rollbackOverlay env cfg name p reason w) = overlay_dir n w" for p reason w
    using n by (auto simp: rollbackOverlay_def Let_def split: option.splits sum.splits)
  have s: "overlay_dir n (activate_start env cfg name path manifest w) = overlay_dir n w" for manifest w
    using n by (auto simp: activate_start_def Let_def r overlay_dir_startTarget split: option.splits prod.splits)
  have f: "overlay_dir n (fail_with env name path reason w) = overlay_dir n w" for reason w
    using n by (simp add: fail_with_def)
  have rest: "overlay_dir n (case generateUnits env name manifest deps w of
      (Some err, w4) \<Rightarrow> fail_with env name path (''unit generation failed: '' @ err) w4
    | (None, w4) \<Rightarrow>
        (case daemonReload env w4 of
           (Some err, w5) \<Rightarrow> fail_with env name path (''daemon-reload failed: '' @ err) w5
         | (None, w5) \<Rightarrow> activate_start env cfg name path manifest w5)) = overlay_dir n w" for manifest deps w
    by (auto simp: overlay_dir_of s f split: option.splits prod.splits)
  show ?thesis
    using n by (auto simp: cmdActivate_def Let_def rest f split: option.splits sum.splits)
qed


section \<open>Checking again\<close>

text \<open>
  The moment from which a path is tried again, for a record with that time and that number of
  attempts, and what it is after a check: a record that is waiting stays, and otherwise a failure is
  written down as one more attempt.
\<close>

definition retry_time :: "Config \<Rightarrow> int \<Rightarrow> int \<Rightarrow> gotime" where
  "retry_time cfg at attempts = Second * at + min maxRetryBackoff (backoff_base (PollInterval cfg) * 2 ^ nat (attempts - 1))"

definition waiting :: "OverlayEnv \<Rightarrow> Config \<Rightarrow> string \<Rightarrow> string \<Rightarrow> AttemptRecord \<Rightarrow> bool" where
  "waiting env cfg name path a \<longleftrightarrow> AttPath a = path \<and> CheckTime env name < retry_time cfg (AttAt a) (Attempts a)"

definition waits_until :: "OverlayEnv \<Rightarrow> Config \<Rightarrow> string \<Rightarrow> string \<Rightarrow> OverlayDir \<Rightarrow> gotime" where
  "waits_until env cfg name path d =
     (let fresh = retry_time cfg (now_seconds env name) (wrap64 (attempts_for path d + 1))
      in case loadAttempt d of
           None \<Rightarrow> fresh
         | Some a \<Rightarrow> if waiting env cfg name path a then retry_time cfg (AttAt a) (Attempts a) else fresh)"

definition has_current :: "string \<Rightarrow> OverlayDir \<Rightarrow> bool" where
  "has_current path d \<longleftrightarrow> map_option OvPath (loadCurrentState d) = Some path"

lemma check_frame: "n \<noteq> name \<Longrightarrow> overlay_dir n (check_one env cfg registry flt name w) = overlay_dir n w"
  by (auto simp: check_one_def activation_frame split: option.splits)

lemma backing_off_record:
  assumes "loadAttempt d = Some a" and "0 \<le> AttAt a" and "Second * AttAt a \<le> CheckTime env name" and "CheckTime env name < 2 ^ 63"
  shows "backing_off env cfg name path d \<longleftrightarrow> waiting env cfg name path a"
  by (auto simp: backing_off_def assms(1) waiting_def retry_time_def backoffRemaining_closed [OF assms(2-4)])

lemma noted_backs_off:
  assumes "attempt_noted (now_seconds env name) path outcome d d'"
    and "0 \<le> NoteTime env name" and "NoteTime env name \<le> CheckTime env' name" and "CheckTime env' name < 2 ^ 63"
  shows "backing_off env' cfg name path d' \<longleftrightarrow>
    CheckTime env' name < retry_time cfg (now_seconds env name) (wrap64 (attempts_for path d + 1))"
proof -
  obtain reason where a: "loadAttempt d' = Some \<lparr>AttPath = path, AttState = outcome, AttReason = reason,
      AttAt = now_seconds env name, Attempts = wrap64 (attempts_for path d + 1)\<rparr>"
    using assms(1) by (auto simp: attempt_noted_def)
  have "0 \<le> now_seconds env name" "Second * now_seconds env name \<le> NoteTime env name"
    using assms(2) by (auto simp: now_seconds_def toUnix_def)
  then show ?thesis using assms(3,4) by (subst backing_off_record [OF a]) (simp_all add: waiting_def)
qed

text \<open>What a later check finds in the directory of an overlay.\<close>

lemma found_later:
  assumes o: "map_of (Overlays cfg) name \<noteq> None" "offered cfg registry flt name = Some path" "path \<noteq> []"
    and t: "CheckTime env name \<le> NoteTime env name" "NoteTime env name \<le> CheckTime env' name" "CheckTime env' name < 2 ^ 63"
      "0 \<le> CheckTime env name"
    and old: "\<And>a. loadAttempt (overlay_dir name w) = Some a \<Longrightarrow> 0 \<le> AttAt a \<and> Second * AttAt a \<le> CheckTime env name"
  defines "d \<equiv> overlay_dir name w" and "d' \<equiv> overlay_dir name (check_one env cfg registry flt name w)"
  shows "has_current path d' \<or> (backing_off env' cfg name path d' \<longleftrightarrow> CheckTime env' name < waits_until env cfg name path d)"
proof (cases "up_to_date env path d")
  case True
  then show ?thesis by (auto simp: d_def d'_def check_one_def o up_to_date_def has_current_def split: option.splits)
next
  case False
  show ?thesis
  proof (cases "backing_off env cfg name path d")
    case True
    then obtain a where a: "loadAttempt d = Some a" by (auto simp: backing_off_def split: option.splits)
    then have b: "waiting env cfg name path a" using True old [of a] t by (subst (asm) backing_off_record) (auto simp: d_def)
    have "d' = d" using True by (simp add: d_def d'_def check_one_def o)
    moreover have "backing_off env' cfg name path d \<longleftrightarrow> waiting env' cfg name path a"
      using a old [of a] t by (intro backing_off_record) (auto simp: d_def)
    ultimately show ?thesis using a b by (simp add: waits_until_def Let_def waiting_def)
  next
    case None: False
    have w: "waits_until env cfg name path d = retry_time cfg (now_seconds env name) (wrap64 (attempts_for path d + 1))"
    proof (cases "loadAttempt d")
      case (Some a)
      then have "\<not> waiting env cfg name path a" using None old [of a] t by (subst (asm) backing_off_record) (auto simp: d_def)
      then show ?thesis by (simp add: waits_until_def Let_def Some)
    qed (simp add: waits_until_def Let_def)
    have "d' = overlay_dir name (snd (cmdActivate env cfg name path w))"
      using False None by (simp add: d_def d'_def check_one_def o)
    then have "ended (now_seconds env name) path d d'" using activation_ended [OF o(1,3)] by (simp add: d_def)
    moreover have "backing_off env' cfg name path d' \<longleftrightarrow> CheckTime env' name < waits_until env cfg name path d"
      if "attempt_noted (now_seconds env name) path outcome d d'" for outcome
      unfolding w using that t by (intro noted_backs_off) auto
    ultimately show ?thesis
      by (auto simp: ended_def ended_permanent_def ended_failed_def ended_rolled_back_def has_current_def)
  qed
qed

lemma check_fold_dir:
  assumes "name \<in> set ns" "distinct ns"
  obtains v where "overlay_dir name v = overlay_dir name w"
    "overlay_dir name (fold (check_one env cfg registry flt) ns w) = overlay_dir name (check_one env cfg registry flt name v)"
proof -
  have fr: "overlay_dir n (fold (check_one env cfg registry flt) ns v) = overlay_dir n v" if "n \<notin> set ns" for n ns v
    using that by (induction ns arbitrary: v) (simp_all add: check_frame)
  obtain xs ys where ns: "ns = xs @ name # ys" using assms(1) split_list by fast
  then have "name \<notin> set xs" "name \<notin> set ys" using assms(2) by auto
  then show ?thesis using that [of "fold (check_one env cfg registry flt) xs w"] by (simp add: ns fr)
qed

lemma check_later:
  fixes cfg registry flt env env' w
  defines "w1 \<equiv> fold (check_one env cfg registry flt) (orderedOverlays (Overlays cfg)) w"
  assumes t: "\<And>name. 0 \<le> CheckTime env name \<and> CheckTime env name \<le> NoteTime env name
      \<and> NoteTime env name \<le> CheckTime env' name \<and> CheckTime env' name < 2 ^ 63"
    and old: "\<And>name a. loadAttempt (overlay_dir name w) = Some a \<Longrightarrow> 0 \<le> AttAt a \<and> Second * AttAt a \<le> CheckTime env name"
    and o: "map_of (Overlays cfg) name \<noteq> None" "offered cfg registry flt name = Some path" "path \<noteq> []"
    and e: "has_current path (overlay_dir name w1) \<Longrightarrow> PathExists env' path"
    and w': "overlay_dir name w' = overlay_dir name w1"
  shows "check_one env' cfg registry flt name w' =
    (if has_current path (overlay_dir name w1) \<or> CheckTime env' name < waits_until env cfg name path (overlay_dir name w) then w'
     else snd (cmdActivate env' cfg name path w'))"
proof -
  have n: "name \<in> set (orderedOverlays (Overlays cfg))" using ordered_ok(2) o(1) by (simp add: domIff)
  obtain v where v: "overlay_dir name v = overlay_dir name w" "overlay_dir name w1 = overlay_dir name (check_one env cfg registry flt name v)"
    unfolding w1_def by (rule check_fold_dir [OF n ordered_distinct])
  have f: "has_current path (overlay_dir name w1)
      \<or> (backing_off env' cfg name path (overlay_dir name w1) \<longleftrightarrow> CheckTime env' name < waits_until env cfg name path (overlay_dir name w))"
    unfolding v(2) v(1) [symmetric] using t [of name] old [of name] v(1) by (intro found_later [OF o]) auto
  have u: "up_to_date env' path (overlay_dir name w1) \<longleftrightarrow> has_current path (overlay_dir name w1)"
    using e by (auto simp: up_to_date_def has_current_def split: option.splits)
  show ?thesis using f by (auto simp: check_one_def o w' u)
qed

section \<open>Booting\<close>

text \<open>What a boot does to one state directory.\<close>

definition booted :: "Config \<Rightarrow> string \<Rightarrow> OverlayDir \<Rightarrow> OverlayDir \<Rightarrow> bool" where
  "booted cfg name d d' \<longleftrightarrow>
     CurrentFile d' = CurrentFile d \<and> PreviousFile d' = PreviousFile d \<and> StateFile d' = StateFile d
     \<and> loadAttempt d' = (if Enabled (overlay_config (Overlays cfg) name) \<and> loadCurrentState d = None then None else loadAttempt d)
     \<and> (RootCurrent d' = RootCurrent d \<or> RootCurrent d' = map_option OvPath (loadCurrentState d))"

lemma boot_one_frame: "n \<noteq> name \<Longrightarrow> overlay_dir n (boot_one env cfg name w) = overlay_dir n w"
  by (auto simp: boot_one_def Let_def overlay_dir_generateUnits split: option.splits sum.splits prod.splits)

lemma boot_one_booted: "booted cfg name (overlay_dir name w) (overlay_dir name (boot_one env cfg name w))"
  by (auto simp: boot_one_def booted_def Let_def overlay_dir_generateUnits updateGCRootCurrent_def resetStaleBackoffOnBoot_def
      clearAttempt_def loadAttempt_def loadCurrentState_def split: option.splits sum.splits prod.splits)

lemma Commands_boot_starts:
  "Commands (fold (boot_start env cfg) names w) = Commands w @
     map (\<lambda>n. [''systemctl'', ''start'', target_name n])
       (filter (\<lambda>n. Enabled (overlay_config (Overlays cfg) n) \<and> loadCurrentState (overlay_dir n w) \<noteq> None) names)"
proof (induction names arbitrary: w)
  case (Cons n names)
  have d: "overlay_dir m (boot_start env cfg n w) = overlay_dir m w" for m by (simp add: boot_start_def)
  show ?case using Cons.IH [of "boot_start env cfg n w"] by (simp add: d) (simp add: boot_start_def startTarget_def)
qed simp

lemma boot_fold_frame: "n \<notin> set ns \<Longrightarrow> overlay_dir n (fold (boot_one env cfg) ns w) = overlay_dir n w"
  by (induction ns arbitrary: w) (simp_all add: boot_one_frame)

lemma boot_fold_current: "loadCurrentState (overlay_dir n (fold (boot_one env cfg) ns w)) = loadCurrentState (overlay_dir n w)"
proof (induction ns arbitrary: w)
  case (Cons m ns)
  have "loadCurrentState (overlay_dir n (boot_one env cfg m w)) = loadCurrentState (overlay_dir n w)"
    using boot_one_booted [of cfg m w env]
    by (cases "n = m") (simp_all add: boot_one_frame booted_def loadCurrentState_def)
  then show ?case using Cons by simp
qed simp

lemma boot_start_dir [simp]: "overlay_dir n (boot_start env cfg m w) = overlay_dir n w"
  by (simp add: boot_start_def)

lemma boot_starts_frame:
  "UnitFiles (fold (boot_start env cfg) ns w) = UnitFiles w" "WantsLinks (fold (boot_start env cfg) ns w) = WantsLinks w"
  "BinLinks (fold (boot_start env cfg) ns w) = BinLinks w"
  by (induction ns arbitrary: w) (simp_all add: boot_start_def startTarget_def)

lemma boot_start_dirs: "overlay_dir n (fold (boot_start env cfg) ns w) = overlay_dir n w"
  by (induction ns arbitrary: w) (simp_all add: boot_start_def)

text \<open>
  An overlay that a boot brings up: enabled, with a current version whose store path is there and
  evaluates; the path and the manifest.
\<close>

definition boots :: "OverlayEnv \<Rightarrow> Config \<Rightarrow> string \<Rightarrow> OverlayDir \<Rightarrow> (string \<times> OverlayManifest) option" where
  "boots env cfg name d =
     (case (if Enabled (overlay_config (Overlays cfg) name) then loadCurrentState d else None) of
        None \<Rightarrow> None
      | Some current \<Rightarrow>
          (case evalOverlay env (OvPath current) (OverlaySettings (overlay_config (Overlays cfg) name)) of
             Inl err \<Rightarrow> None
           | Inr manifest \<Rightarrow> if PathExists env (OvPath current) then Some (OvPath current, manifest) else None))"

text \<open>What a boot leaves in the state directory of a configured overlay.\<close>

definition boot_dir :: "OverlayEnv \<Rightarrow> Config \<Rightarrow> string \<Rightarrow> OverlayDir \<Rightarrow> OverlayDir" where
  "boot_dir env cfg name d =
     (case boots env cfg name d of
        Some (path, _) \<Rightarrow> d\<lparr>RootCurrent := Some path\<rparr>
      | None \<Rightarrow> if Enabled (overlay_config (Overlays cfg) name) \<and> loadCurrentState d = None \<and> loadAttempt d \<noteq> None
                then d\<lparr>AttemptFile := no_file\<rparr> else d)"

definition chown_commands :: "OverlayEnv \<Rightarrow> string gomap \<Rightarrow> OverlayManifest \<Rightarrow> string list list" where
  "chown_commands env config manifest =
     (let dataDir = (if setting config ''dataDir'' = [] then setting config ''home'' else setting config ''dataDir'')
      in case filter (\<lambda>svc. SvcUser svc \<noteq> []) (map snd (Services manifest)) of
           [] \<Rightarrow> []
         | svc # _ \<Rightarrow>
             if dataDir = [] \<or> \<not> PathExists env dataDir then []
             else [[''chown'', ''-R'', SvcUser svc @ '':'' @ (if SvcGroup svc = [] then SvcUser svc else SvcGroup svc), dataDir]])"

text \<open>
  The unit files and the links after the overlays that boot, one after the other, and the commands
  that are run for them: the data directory gets its owner, and a unit under an old name is stopped.
\<close>

fun boot_units ::
  "OverlayEnv \<Rightarrow> Config \<Rightarrow> (string \<Rightarrow> OverlayDir) \<Rightarrow> string list \<Rightarrow> (string \<Rightarrow> string option) \<Rightarrow> (string \<Rightarrow> string option)
     \<Rightarrow> (string \<Rightarrow> string option) \<times> (string \<Rightarrow> string option) \<times> string list list" where
  "boot_units env cfg dir [] files links = (files, links, [])"
| "boot_units env cfg dir (name # names) files links =
     (case boots env cfg name (dir name) of
        None \<Rightarrow> boot_units env cfg dir names files links
      | Some (path, m) \<Rightarrow>
          (let ov = overlay_config (Overlays cfg) name;
               (files', links', cmds) = boot_units env cfg dir names
                 (units_made env name (DependsOn ov) (Services m) files) (links_made env name (Services m) files links)
           in (files', links', chown_commands env (OverlaySettings ov) m @ legacy_stops name (Services m) files @ cmds)))"

definition boot_bins :: "OverlayEnv \<Rightarrow> Config \<Rightarrow> (string \<Rightarrow> OverlayDir) \<Rightarrow> string list \<Rightarrow> string list" where
  "boot_bins env cfg dir names = concat (map (\<lambda>n. case boots env cfg n (dir n) of None \<Rightarrow> [] | Some (_, m) \<Rightarrow> Bins m) names)"

definition linked_bins :: "string \<Rightarrow> string list \<Rightarrow> (string \<Rightarrow> string option) \<Rightarrow> string \<Rightarrow> string option" where
  "linked_bins binDir bins links l =
     (case find (\<lambda>bin. l = join_path binDir (Base bin)) (rev bins) of None \<Rightarrow> links l | Some bin \<Rightarrow> Some bin)"

lemma linked_bins_step:
  "map_of (BinLinks (updateBinSymlinks binDir bins w)) = linked_bins binDir bins (map_of (BinLinks w))"
proof (induction bins rule: rev_induct)
  case (snoc b bins)
  then show ?case by (auto simp: updateBinSymlinks_def linked_bins_def gomap fun_eq_iff)
qed (simp add: updateBinSymlinks_def linked_bins_def fun_eq_iff)

lemma find_append: "find P (xs @ ys) = (case find P xs of None \<Rightarrow> find P ys | Some x \<Rightarrow> Some x)"
  by (induction xs) simp_all

lemma linked_bins_append: "linked_bins binDir (as @ bs) links = linked_bins binDir bs (linked_bins binDir as links)"
  by (auto simp: linked_bins_def fun_eq_iff find_append split: option.splits)

lemma ownership_effect:
  "UnitFiles (ensureDataDirOwnership env name config m w) = UnitFiles w"
  "WantsLinks (ensureDataDirOwnership env name config m w) = WantsLinks w"
  "BinLinks (ensureDataDirOwnership env name config m w) = BinLinks w"
  "Commands (ensureDataDirOwnership env name config m w) = Commands w @ chown_commands env config m"
proof -
  have f: "filter (\<lambda>svc. SvcUser svc \<noteq> []) (map snd xs) =
      (case find (\<lambda>(_, svc). SvcUser svc \<noteq> []) xs of None \<Rightarrow> [] | Some (_, svc) \<Rightarrow> svc # tl (filter (\<lambda>svc. SvcUser svc \<noteq> []) (map snd xs)))"
    for xs :: "ServiceDef gomap"
    by (induction xs) (auto split: option.splits)
  show "UnitFiles (ensureDataDirOwnership env name config m w) = UnitFiles w"
    "WantsLinks (ensureDataDirOwnership env name config m w) = WantsLinks w"
    "BinLinks (ensureDataDirOwnership env name config m w) = BinLinks w"
    by (simp_all add: ensureDataDirOwnership_def Let_def split: option.splits)
  show "Commands (ensureDataDirOwnership env name config m w) = Commands w @ chown_commands env config m"
    unfolding chown_commands_def by (subst f) (auto simp: ensureDataDirOwnership_def Let_def split: option.splits)
qed

lemma units_without_errors: "\<forall>p. UnitWriteError env p = None \<Longrightarrow> fst (generateUnits env name m deps w) = None"
proof -
  assume e: "\<forall>p. UnitWriteError env p = None"
  have "fst (write_services env name deps svcs w) = None" for svcs w
    by (induction svcs arbitrary: w) (auto simp: write_unit_def e)
  then show ?thesis by (auto simp: generateUnits_def write_unit_def e split: prod.splits option.splits) (metis fst_conv option.distinct(1))
qed

lemma boot_one_skipped:
  assumes "boots env cfg name (overlay_dir name w) = None"
  defines "w' \<equiv> boot_one env cfg name w"
  shows "UnitFiles w' = UnitFiles w \<and> WantsLinks w' = WantsLinks w \<and> BinLinks w' = BinLinks w \<and> Commands w' = Commands w
    \<and> overlay_dir name w' = boot_dir env cfg name (overlay_dir name w)"
proof (cases "Enabled (overlay_config (Overlays cfg) name) \<and> loadCurrentState (overlay_dir name w) = None")
  case True
  then have "w' = on_dir name (\<lambda>d. snd (resetStaleBackoffOnBoot None d)) w" by (simp add: w'_def boot_one_def Let_def)
  moreover have "snd (resetStaleBackoffOnBoot None (overlay_dir name w)) = boot_dir env cfg name (overlay_dir name w)"
    using True assms(1) by (simp add: boot_dir_def resetStaleBackoffOnBoot_def clearAttempt_def split: option.splits)
  ultimately show ?thesis by (simp) (simp add: on_dir_def)
next
  case False
  then have "w' = w"
    using assms(1) by (auto simp: w'_def boot_one_def boots_def Let_def split: option.splits sum.splits if_splits)
  moreover have "boot_dir env cfg name (overlay_dir name w) = overlay_dir name w" using False assms(1) by (auto simp: boot_dir_def)
  ultimately show ?thesis by simp
qed

lemma boot_one_up:
  assumes e: "\<forall>p. UnitWriteError env p = None" and b: "boots env cfg name (overlay_dir name w) = Some (path, m)"
  defines "w' \<equiv> boot_one env cfg name w" and "ov \<equiv> overlay_config (Overlays cfg) name"
  shows "map_of (UnitFiles w') = units_made env name (DependsOn ov) (Services m) (map_of (UnitFiles w))"
    and "map_of (WantsLinks w') = links_made env name (Services m) (map_of (UnitFiles w)) (map_of (WantsLinks w))"
    and "map_of (BinLinks w') = linked_bins (BinDir cfg) (Bins m) (map_of (BinLinks w))"
    and "Commands w' = Commands w @ chown_commands env (OverlaySettings ov) m @ legacy_stops name (Services m) (map_of (UnitFiles w))"
    and "overlay_dir name w' = boot_dir env cfg name (overlay_dir name w)"
proof -
  let ?w1 = "ensureDataDirOwnership env name (OverlaySettings ov) m w"
  obtain w2 where g: "generateUnits env name m (DependsOn ov) ?w1 = (None, w2)"
    using units_without_errors [OF e] by (metis prod.collapse)
  obtain current where c: "loadCurrentState (overlay_dir name w) = Some current" "path = OvPath current" "Enabled ov"
      "PathExists env path" "evalOverlay env path (OverlaySettings ov) = Inr m"
    using b by (auto simp: boots_def ov_def split: option.splits sum.splits if_splits)
  have w': "w' = on_dir name (updateGCRootCurrent path) (updateBinSymlinks (BinDir cfg) (Bins m) w2)"
    using c g by (simp add: w'_def boot_one_def ov_def Let_def)
  note u = generateUnits_effect [OF g evalOverlay_ok [OF c(5)]]
  have bin: "UnitFiles (updateBinSymlinks d bs v) = UnitFiles v" "WantsLinks (updateBinSymlinks d bs v) = WantsLinks v"
    "Commands (updateBinSymlinks d bs v) = Commands v" for d bs v by (simp_all add: updateBinSymlinks_def)
  show "map_of (UnitFiles w') = units_made env name (DependsOn ov) (Services m) (map_of (UnitFiles w))"
    using u(1) by (simp add: w' on_dir_def bin ownership_effect)
  show "map_of (WantsLinks w') = links_made env name (Services m) (map_of (UnitFiles w)) (map_of (WantsLinks w))"
    using u(2) by (simp add: w' on_dir_def bin ownership_effect)
  show "map_of (BinLinks w') = linked_bins (BinDir cfg) (Bins m) (map_of (BinLinks w))"
    using u(4) linked_bins_step by (simp add: w' on_dir_def ownership_effect)
  show "Commands w' = Commands w @ chown_commands env (OverlaySettings ov) m @ legacy_stops name (Services m) (map_of (UnitFiles w))"
    using u(3) by (simp add: w' on_dir_def bin ownership_effect)
  show "overlay_dir name w' = boot_dir env cfg name (overlay_dir name w)"
    using overlay_dir_generateUnits [OF g] by (simp add: w' boot_dir_def b updateGCRootCurrent_def)
qed

lemma boot_fold_effect:
  fixes cfg
  assumes e: "\<forall>p. UnitWriteError env p = None" and "distinct names" and "\<And>n. n \<in> set names \<Longrightarrow> overlay_dir n w = dir n"
  defines "w' \<equiv> fold (boot_one env cfg) names w"
  shows "boot_units env cfg dir names (map_of (UnitFiles w)) (map_of (WantsLinks w))
      = (map_of (UnitFiles w'), map_of (WantsLinks w'), drop (length (Commands w)) (Commands w'))
    \<and> Commands w' = Commands w @ drop (length (Commands w)) (Commands w')
    \<and> map_of (BinLinks w') = linked_bins (BinDir cfg) (boot_bins env cfg dir names) (map_of (BinLinks w))
    \<and> (\<forall>n. overlay_dir n w' = (if n \<in> set names then boot_dir env cfg n (overlay_dir n w) else overlay_dir n w))"
  unfolding w'_def using assms(2,3)
proof (induction names arbitrary: w)
  case Nil
  then show ?case by (simp add: boot_bins_def linked_bins_def)
next
  case (Cons n names)
  let ?w1 = "boot_one env cfg n w"
  have d: "overlay_dir m ?w1 = dir m" if "m \<in> set names" for m
    using Cons.prems that boot_one_frame [of m n env cfg w] by (cases "m = n") auto
  have "distinct names" using Cons.prems by simp
  note ih0 = Cons.IH [OF this d]
  note ih = ih0 [THEN conjunct1] ih0 [THEN conjunct2, THEN conjunct1]
    ih0 [THEN conjunct2, THEN conjunct2, THEN conjunct1] ih0 [THEN conjunct2, THEN conjunct2, THEN conjunct2, rule_format]
  obtain cmds where cmds: "Commands (fold (boot_one env cfg) names ?w1) = Commands ?w1 @ cmds" using ih(2) by blast
  have n: "overlay_dir n w = dir n" "n \<notin> set names" using Cons.prems by auto
  have o: "overlay_dir m (fold (boot_one env cfg) names ?w1) = (if m \<in> set (n # names) then boot_dir env cfg m (overlay_dir m w) else overlay_dir m w)"
    if "overlay_dir n ?w1 = boot_dir env cfg n (overlay_dir n w)" for m
    using that ih(4) [of m] n(2) boot_one_frame [of m n env cfg w] by (cases "m = n") simp_all
  show ?case
  proof (cases "boots env cfg n (dir n)")
    case None
    then have k: "UnitFiles ?w1 = UnitFiles w" "WantsLinks ?w1 = WantsLinks w" "BinLinks ?w1 = BinLinks w" "Commands ?w1 = Commands w"
      "overlay_dir n ?w1 = boot_dir env cfg n (overlay_dir n w)"
      using boot_one_skipped [of env cfg n w] n by simp_all
    show ?thesis using ih(1-3) None o [OF k(5)] by (simp add: k boot_bins_def)
  next
    case (Some pm)
    obtain path m where b: "boots env cfg n (overlay_dir n w) = Some (path, m)" using Some n by (cases pm) auto
    note u = boot_one_up [OF e b]
    show ?thesis using ih(1,3) b o [OF u(5)] by (simp add: cmds u(1-4) n(1) boot_bins_def linked_bins_append Let_def)
  qed
qed

section \<open>When an activation succeeds\<close>

lemma write_services_error: "fst (write_services env name deps svcs w) = fst (write_services env name deps svcs w')"
proof (induction svcs arbitrary: w w')
  case (Cons x svcs)
  obtain s svc where x: "x = (s, svc)" by (cases x)
  show ?case
    using Cons.IH by (auto simp: x write_unit_def split: option.splits)
qed simp

lemma generateUnits_error: "fst (generateUnits env name m deps w) = fst (generateUnits env name m deps w')"
  using write_services_error
  by (auto simp: generateUnits_def write_unit_def split: option.splits prod.splits) (metis fst_conv option.distinct(1) option.inject)+

definition activation_succeeds :: "OverlayEnv \<Rightarrow> Config \<Rightarrow> string \<Rightarrow> string \<Rightarrow> bool" where
  "activation_succeeds env cfg name path \<longleftrightarrow>
     Realise env path = None \<and> PathExists env (join_path path ''overlay.nix'')
     \<and> (case evalOverlay env path (OverlaySettings (overlay_config (Overlays cfg) name)) of
          Inl err \<Rightarrow> False
        | Inr manifest \<Rightarrow>
            fst (generateUnits env name manifest (DependsOn (overlay_config (Overlays cfg) name)) empty_world) = None
            \<and> Systemctl env [''daemon-reload''] = None \<and> Systemctl env [''start'', target_name name] = None
            \<and> (case needs_health manifest of None \<Rightarrow> True | Some h \<Rightarrow> runHealthChecks env h))"

lemma rollback_not_permanent: "StateFile (overlay_dir name (rollbackOverlay env cfg name path reason w)) \<noteq> Some ''permanent''"
  by (auto simp: rollbackOverlay_def Let_def give_up_def restore_previous_def writeState_def split: option.splits sum.splits)

lemma fail_not_permanent: "StateFile (overlay_dir name (fail_with env name path reason w)) \<noteq> Some ''permanent''"
  by (simp add: fail_with_def failActivation_def writeState_def)

lemma start_permanent_iff: "StateFile (overlay_dir name (activate_start env cfg name path manifest w)) = Some ''permanent'' \<longleftrightarrow>
   Systemctl env [''start'', target_name name] = None \<and> (case needs_health manifest of None \<Rightarrow> True | Some h \<Rightarrow> runHealthChecks env h)"
  by (auto simp: activate_start_def Let_def rollback_not_permanent startTarget_def make_permanent_def clearAttempt_def
     updateGCRootCurrent_def saveCurrentState_def rotatePrevious_def writeState_def split: option.splits)

lemma activation_permanent:
  assumes "map_of (Overlays cfg) name \<noteq> None"
  shows "StateFile (overlay_dir name (snd (cmdActivate env cfg name path w))) = Some ''permanent''
    \<longleftrightarrow> activation_succeeds env cfg name path"
proof -
  obtain ov where ov: "map_of (Overlays cfg) name = Some ov" using assms by blast
  then have c: "overlay_config (Overlays cfg) name = ov" by (simp add: overlay_config_def)
  show ?thesis
  proof (cases "evalOverlay env path (OverlaySettings ov)")
    case (Inl err)
    then show ?thesis
      by (auto simp: cmdActivate_def activation_succeeds_def ov c Let_def fail_not_permanent split: option.splits)
  next
    case (Inr manifest)
    let ?w3 = "on_dir name (writeState ''provisioning'')
        (ensureDataDirOwnership env name (OverlaySettings ov) manifest
          (on_dir name (writeState ''validating'') (on_dir name (writeState ''fetching'') w)))"
    obtain e w4 where g: "generateUnits env name manifest (DependsOn ov) ?w3 = (e, w4)"
      by (cases "generateUnits env name manifest (DependsOn ov) ?w3")
    then have "fst (generateUnits env name manifest (DependsOn ov) empty_world) = e"
      using generateUnits_error by (metis fst_conv)
    then show ?thesis
      by (cases e)
        (auto simp: cmdActivate_def activation_succeeds_def ov c Inr Let_def g fail_not_permanent start_permanent_iff
          daemonReload_def split: option.splits)
  qed
qed

section \<open>Examples\<close>

definition demo_config :: Config where
  "demo_config = \<lparr>RegistryUrl = ''https://registry'', PollInterval = ''5m'', StateDir = ''/var/lib/overlays'', BinDir = ''/run/overlays/bin'',
     Overlays = [(''web'', \<lparr>Package = ''p'', OverlaySettings = [], Enabled = True, DependsOn = []\<rparr>),
       (''off'', \<lparr>Package = ''p'', OverlaySettings = [], Enabled = False, DependsOn = []\<rparr>)]\<rparr>"

definition demo_version :: "string \<Rightarrow> OverlayState" where
  "demo_version path = \<lparr>OvPath = path, ActivatedAt = 5, ManifestHash = []\<rparr>"

definition demo_world :: World where
  "demo_world = empty_world\<lparr>Dirs := [(''web'', empty_dir\<lparr>CurrentFile := Loaded (demo_version ''/nix/store/running''),
     PreviousFile := Loaded (demo_version ''/nix/store/older'')\<rparr>)]\<rparr>"

definition demo_unhealthy :: OverlayEnv where
  "demo_unhealthy = demo_overlay_env\<lparr>HttpProbe := (\<lambda>e i. None), TurnTime := (\<lambda>i. 30000000000)\<rparr>"

definition demo_reply :: "(int \<times> string) option" where
  "demo_reply = Some (200, js ''{~p~:{~storePath~:~/nix/store/new~,~updatedAt~:1}}'')"

lemma demo_registry: "fetchRegistry demo_reply = Some [(''p'', \<lparr>RegPath = ''/nix/store/new'', RegUpdatedAt = 1\<rparr>)]"
  by code_simp

lemma demo_offered:
  "offered demo_config [(''p'', \<lparr>RegPath = ''/nix/store/new'', RegUpdatedAt = 1\<rparr>)] flt name = Some path
     \<Longrightarrow> path = ''/nix/store/new''"
  by (auto simp: offered_def Let_def split: if_splits)

section \<open>Properties\<close>

text \<open>
  C11: the activation of a path ends in one of three ways, and never in an intermediate state: the path is
  current, the version that was current is previous and no failed attempt is on record; or the versions are
  as they were and a failed attempt is on record; or the version that was previous is current, nothing is
  previous (the version that was current is in no file any more) and a rolled-back attempt is on record.
  The record counts one more attempt than before for the same path.
\<close>

theorem activation_ends:
  assumes "map_of (Overlays cfg) name \<noteq> None" and "path \<noteq> []"
  shows "fst (cmdActivate env cfg name path w) = None
    \<and> ended (now_seconds env name) path (overlay_dir name w) (overlay_dir name (snd (cmdActivate env cfg name path w)))"
  using assms by (rule activation_ended)

theorem activation_ends_witness:
  "ended 1700000000 ''/nix/store/new'' (overlay_dir ''web'' demo_world)
     (overlay_dir ''web'' (snd (cmdActivate demo_unhealthy demo_config ''web'' ''/nix/store/new'' demo_world)))
   \<and> map_option OvPath (loadCurrentState (overlay_dir ''web''
       (snd (cmdActivate demo_unhealthy demo_config ''web'' ''/nix/store/new'' demo_world)))) = Some ''/nix/store/older''"
proof -
  have "map_option OvPath (loadCurrentState (overlay_dir ''web''
       (snd (cmdActivate demo_unhealthy demo_config ''web'' ''/nix/store/new'' demo_world)))) = Some ''/nix/store/older''"
    by code_simp
  moreover have "now_seconds demo_unhealthy ''web'' = 1700000000" by code_simp
  ultimately show ?thesis
    using activation_ends [of demo_config "''web''" "''/nix/store/new''" demo_unhealthy demo_world]
    by (simp add: demo_config_def)
qed

text \<open>
  an activation touches the state directory of no other overlay.
\<close>

theorem activation_is_local:
  assumes "n \<noteq> name"
  shows "overlay_dir n (snd (cmdActivate env cfg name path w)) = overlay_dir n w"
  using assms by (rule activation_frame)

theorem activation_is_local_witness:
  "overlay_dir ''off'' (snd (cmdActivate demo_unhealthy demo_config ''web'' ''/nix/store/new'' demo_world)) = empty_dir"
proof -
  have "overlay_dir ''off'' demo_world = empty_dir" by (simp add: demo_world_def empty_world_def overlay_dir_def)
  then show ?thesis using activation_is_local [of "''off''" "''web''" demo_unhealthy demo_config "''/nix/store/new''" demo_world] by simp
qed

text \<open>
  C24: a later check leaves alone what an earlier one activated, and tries a version that failed again exactly
  when its time has come: the poll interval, doubled for every attempt before and cut at six hours, after the
  failure was written down. Until then the check does nothing at all, to no overlay, so a broken version is not
  activated again by every poll; from then on the version is activated again.
\<close>

theorem check_waits:
  assumes "fetchRegistry reply = Some registry"
    and "\<forall>name. 0 \<le> CheckTime env name \<and> CheckTime env name \<le> NoteTime env name
      \<and> NoteTime env name \<le> CheckTime env' name \<and> CheckTime env' name < 2 ^ 63"
    and "\<forall>name a. loadAttempt (overlay_dir name w) = Some a \<longrightarrow> 0 \<le> AttAt a \<and> Second * AttAt a \<le> CheckTime env name"
    and "\<forall>name path. offered cfg registry flt name = Some path
      \<longrightarrow> path \<noteq> [] \<and> (has_current path (overlay_dir name (cmdCheck env cfg reply flt w)) \<longrightarrow> PathExists env' path)"
  defines "done \<equiv> (\<lambda>name path. has_current path (overlay_dir name (cmdCheck env cfg reply flt w))
      \<or> CheckTime env' name < waits_until env cfg name path (overlay_dir name w))"
  shows "((\<forall>name path. map_of (Overlays cfg) name \<noteq> None \<and> offered cfg registry flt name = Some path \<longrightarrow> done name path)
      \<longrightarrow> cmdCheck env' cfg reply flt (cmdCheck env cfg reply flt w) = cmdCheck env cfg reply flt w)
    \<and> (\<forall>name path w'. map_of (Overlays cfg) name \<noteq> None \<and> offered cfg registry flt name = Some path
          \<and> overlay_dir name w' = overlay_dir name (cmdCheck env cfg reply flt w) \<longrightarrow>
        check_one env' cfg registry flt name w' = (if done name path then w' else snd (cmdActivate env' cfg name path w')))"
proof -
  let ?w1 = "cmdCheck env cfg reply flt w"
  have later: "check_one env' cfg registry flt name w' = (if done name path then w' else snd (cmdActivate env' cfg name path w'))"
    if "map_of (Overlays cfg) name \<noteq> None" "offered cfg registry flt name = Some path" "overlay_dir name w' = overlay_dir name ?w1"
    for name path w'
    using assms that check_later [of env env' w cfg name registry flt path w'] by (simp add: cmdCheck_def)
  moreover have "cmdCheck env' cfg reply flt ?w1 = ?w1"
    if d: "\<forall>name path. map_of (Overlays cfg) name \<noteq> None \<and> offered cfg registry flt name = Some path \<longrightarrow> done name path"
  proof -
    have "check_one env' cfg registry flt name ?w1 = ?w1" if "map_of (Overlays cfg) name \<noteq> None" for name
      using later [OF that] d that by (cases "offered cfg registry flt name") (auto simp: check_one_def)
    then have "set ns \<subseteq> dom (map_of (Overlays cfg)) \<Longrightarrow> fold (check_one env' cfg registry flt) ns ?w1 = ?w1" for ns
      by (induction ns) (auto simp: domIff)
    then show ?thesis
      using ordered_ok(2) assms(1) by (simp add: cmdCheck_def)
  qed
  ultimately show ?thesis by blast
qed

definition demo_later :: "gotime \<Rightarrow> OverlayEnv" where
  "demo_later t = demo_unhealthy\<lparr>CheckTime := (\<lambda>n. 1700000000000000000 + t)\<rparr>"

theorem check_waits_witness:
  "cmdCheck (demo_later (5 * Minute - 1)) demo_config demo_reply [] (cmdCheck demo_unhealthy demo_config demo_reply [] demo_world)
     = cmdCheck demo_unhealthy demo_config demo_reply [] demo_world
   \<and> check_one (demo_later (5 * Minute)) demo_config [(''p'', \<lparr>RegPath = ''/nix/store/new'', RegUpdatedAt = 1\<rparr>)] [] ''web''
       (cmdCheck demo_unhealthy demo_config demo_reply [] demo_world)
     = snd (cmdActivate (demo_later (5 * Minute)) demo_config ''web'' ''/nix/store/new''
         (cmdCheck demo_unhealthy demo_config demo_reply [] demo_world))"
proof -
  let ?w1 = "cmdCheck demo_unhealthy demo_config demo_reply [] demo_world"
  let ?reg = "[(''p'', \<lparr>RegPath = ''/nix/store/new'', RegUpdatedAt = 1\<rparr>)]"
  have b: "backoff_base (PollInterval demo_config) = 5 * Minute"
    by (simp add: backoff_base_def demo_config_def ParseDuration_5m)
  have e: "PathExists (demo_later t) p" "CheckTime demo_unhealthy n = 1700000000000000000" "NoteTime demo_unhealthy n = 1700000000000000000"
    "CheckTime (demo_later t) n = 1700000000000000000 + t" for p n t
    by (simp_all add: demo_later_def demo_unhealthy_def demo_overlay_env_def)
  have old: "loadAttempt (overlay_dir n demo_world) = None" for n
    by (auto simp: overlay_dir_def demo_world_def empty_world_def empty_dir_def no_file_def loadAttempt_def)
  have until: "waits_until demo_unhealthy demo_config n path (overlay_dir n demo_world) = 1700000000000000000 + 5 * Minute" for n path
    by (simp add: waits_until_def old retry_time_def b attempts_for_def now_seconds_def e toUnix_def maxRetryBackoff_def)
  have o: "offered demo_config ?reg [] ''web'' = Some ''/nix/store/new''" by code_simp
  have c: "\<not> has_current ''/nix/store/new'' (overlay_dir ''web'' ?w1)" by code_simp
  have web: "map_of (Overlays demo_config) ''web'' \<noteq> None" by (simp add: demo_config_def)
  have h: "\<forall>name. 0 \<le> CheckTime demo_unhealthy name \<and> CheckTime demo_unhealthy name \<le> NoteTime demo_unhealthy name
      \<and> NoteTime demo_unhealthy name \<le> CheckTime (demo_later t) name \<and> CheckTime (demo_later t) name < 2 ^ 63"
    "\<forall>name a. loadAttempt (overlay_dir name demo_world) = Some a \<longrightarrow> 0 \<le> AttAt a \<and> Second * AttAt a \<le> CheckTime demo_unhealthy name"
    "\<forall>name path. offered demo_config ?reg [] name = Some path \<longrightarrow> path \<noteq> [] \<and>
      (has_current path (overlay_dir name ?w1) \<longrightarrow> PathExists (demo_later t) path)" if "0 \<le> t" "t \<le> 5 * Minute" for t
    using that by (auto simp: e old dest: demo_offered)
  note w = check_waits [OF demo_registry h(1) h(2) h(3)]
  have m: "0 \<le> 5 * Minute - 1" "5 * Minute - 1 \<le> 5 * Minute" "0 \<le> 5 * Minute" by simp_all
  have "cmdCheck (demo_later (5 * Minute - 1)) demo_config demo_reply [] ?w1 = ?w1"
    by (rule w [OF m(1,2) m(1,2) m(1,2), THEN conjunct1, THEN mp]) (simp add: until e)
  moreover have "check_one (demo_later (5 * Minute)) demo_config ?reg [] ''web'' ?w1
      = snd (cmdActivate (demo_later (5 * Minute)) demo_config ''web'' ''/nix/store/new'' ?w1)"
    using w [OF m(3) order_refl m(3) order_refl m(3) order_refl, THEN conjunct2, rule_format, of "''web''" "''/nix/store/new''" ?w1] o c web
    unfolding until e by (simp del: not_None_eq)
  ultimately show ?thesis by blast
qed

text \<open>
  C27: exactly what a boot does, when unit files can be written. Every enabled overlay whose current version is
  there and evaluates gets its units, links, executables and gc root for that version, in the dependency order; the
  owner of its data directory is set and a unit it had under the old name stopped. Then systemd is reloaded and the
  targets of exactly the enabled overlays with a current version are started, in the dependency order. An enabled
  overlay without a current version loses the record of its failed attempt. No other command is run, no version and no
  state text changes, and every other file and directory is as it was.
\<close>

theorem boot_effect:
  fixes cfg w
  assumes "\<forall>p. UnitWriteError env p = None"
  defines "order \<equiv> orderedOverlays (Overlays cfg)" and "dir \<equiv> (\<lambda>n. overlay_dir n w)" and "w' \<equiv> cmdBoot env cfg w"
  shows "(\<exists>prepared. boot_units env cfg dir order (map_of (UnitFiles w)) (map_of (WantsLinks w))
        = (map_of (UnitFiles w'), map_of (WantsLinks w'), prepared)
      \<and> Commands w' = Commands w @ prepared @ [[''systemctl'', ''daemon-reload'']]
          @ map (\<lambda>n. [''systemctl'', ''start'', target_name n])
              (filter (\<lambda>n. Enabled (overlay_config (Overlays cfg) n) \<and> loadCurrentState (dir n) \<noteq> None) order))
    \<and> map_of (BinLinks w') = linked_bins (BinDir cfg) (boot_bins env cfg dir order) (map_of (BinLinks w))
    \<and> (\<forall>n. overlay_dir n w' = (if map_of (Overlays cfg) n = None then dir n else boot_dir env cfg n (dir n)))"
proof -
  let ?w1 = "fold (boot_one env cfg) order w" and ?w2 = "snd (daemonReload env (fold (boot_one env cfg) order w))"
  have d: "distinct order" "n \<in> set order \<longleftrightarrow> map_of (Overlays cfg) n \<noteq> None" for n
    using ordered_distinct ordered_ok(2) by (auto simp: order_def domIff)
  have f: "boot_units env cfg dir order (map_of (UnitFiles w)) (map_of (WantsLinks w))
      = (map_of (UnitFiles ?w1), map_of (WantsLinks ?w1), drop (length (Commands w)) (Commands ?w1))"
    "Commands ?w1 = Commands w @ drop (length (Commands w)) (Commands ?w1)"
    "map_of (BinLinks ?w1) = linked_bins (BinDir cfg) (boot_bins env cfg dir order) (map_of (BinLinks w))"
    "overlay_dir n ?w1 = (if n \<in> set order then boot_dir env cfg n (dir n) else dir n)" for n
    using boot_fold_effect [OF assms(1) d(1), of w dir cfg] by (simp_all add: dir_def)
  have w': "w' = fold (boot_start env cfg) order ?w2" by (simp add: w'_def cmdBoot_def order_def Let_def)
  have s: "UnitFiles w' = UnitFiles ?w1" "WantsLinks w' = WantsLinks ?w1" "BinLinks w' = BinLinks ?w1"
    unfolding w' by (simp_all add: boot_starts_frame) (simp_all add: daemonReload_def)
  have c: "Commands w' = Commands ?w1 @ [[''systemctl'', ''daemon-reload'']] @ map (\<lambda>n. [''systemctl'', ''start'', target_name n])
      (filter (\<lambda>n. Enabled (overlay_config (Overlays cfg) n) \<and> loadCurrentState (dir n) \<noteq> None) order)"
    unfolding w' Commands_boot_starts dir_def by (simp add: boot_fold_current) (simp add: daemonReload_def)
  have o: "\<forall>n. overlay_dir n w' = (if map_of (Overlays cfg) n = None then dir n else boot_dir env cfg n (dir n))"
    unfolding w' using f(4) d(2) by (simp add: boot_start_dirs)
  show ?thesis
  proof (intro conjI exI [of _ "drop (length (Commands w)) (Commands ?w1)"])
    show "Commands w' = Commands w @ drop (length (Commands w)) (Commands ?w1) @ [[''systemctl'', ''daemon-reload'']]
        @ map (\<lambda>n. [''systemctl'', ''start'', target_name n])
            (filter (\<lambda>n. Enabled (overlay_config (Overlays cfg) n) \<and> loadCurrentState (dir n) \<noteq> None) order)"
      unfolding c by (subst f(2)) simp
  qed (use f(1,3) o in \<open>simp_all add: s\<close>)
qed

theorem boot_effect_witness:
  "Commands (cmdBoot demo_overlay_env demo_config demo_world)
     = [[''systemctl'', ''daemon-reload''], [''systemctl'', ''start'', ''overlay-web.target'']]
   \<and> map_of (UnitFiles (cmdBoot demo_overlay_env demo_config demo_world)) (unit_path ''overlay-web.service'') \<noteq> None
   \<and> RootCurrent (overlay_dir ''web'' (cmdBoot demo_overlay_env demo_config demo_world)) = Some ''/nix/store/running''"
proof -
  let ?dir = "\<lambda>n. overlay_dir n demo_world" and ?order = "orderedOverlays (Overlays demo_config)"
  have e: "\<forall>p. UnitWriteError demo_overlay_env p = None" by (simp add: demo_overlay_env_def)
  obtain prepared where b: "boot_units demo_overlay_env demo_config ?dir ?order (map_of (UnitFiles demo_world)) (map_of (WantsLinks demo_world))
        = (map_of (UnitFiles (cmdBoot demo_overlay_env demo_config demo_world)),
           map_of (WantsLinks (cmdBoot demo_overlay_env demo_config demo_world)), prepared)"
    "Commands (cmdBoot demo_overlay_env demo_config demo_world) = Commands demo_world @ prepared @ [[''systemctl'', ''daemon-reload'']]
          @ map (\<lambda>n. [''systemctl'', ''start'', target_name n])
              (filter (\<lambda>n. Enabled (overlay_config (Overlays demo_config) n) \<and> loadCurrentState (?dir n) \<noteq> None) ?order)"
    "overlay_dir ''web'' (cmdBoot demo_overlay_env demo_config demo_world) = boot_dir demo_overlay_env demo_config ''web'' (?dir ''web'')"
    using boot_effect [OF e, of demo_config demo_world] by (auto simp: demo_config_def)
  have f: "filter (\<lambda>n. Enabled (overlay_config (Overlays demo_config) n) \<and> loadCurrentState (?dir n) \<noteq> None) ?order = [''web'']"
    "snd (snd (boot_units demo_overlay_env demo_config ?dir ?order (map_of (UnitFiles demo_world)) (map_of (WantsLinks demo_world)))) = []"
    "fst (boot_units demo_overlay_env demo_config ?dir ?order (map_of (UnitFiles demo_world)) (map_of (WantsLinks demo_world)))
       (unit_path ''overlay-web.service'') \<noteq> None"
    "RootCurrent (boot_dir demo_overlay_env demo_config ''web'' (?dir ''web'')) = Some ''/nix/store/running''"
    by code_simp+
  have c: "Commands demo_world = []" by (simp add: demo_world_def empty_world_def)
  show ?thesis using b f by (simp add: c target_name_def)
qed

end
