(* ===== verification/Overlay_Main.thy ===== *)
theory Overlay_Main
  imports Overlay_Activate
begin

text \<open>
  \<open>main\<close> of \<open>pkgs/fort-overlay-manager/main.go\<close>: the command line, the configuration file and
  the text of the status report, and what any sequence of runs leaves in the state directories.
\<close>

section \<open>The configuration\<close>

definition dec_str_map :: "string \<Rightarrow> string gomap \<Rightarrow> string gomap option" where
  "dec_str_map x old =
     (if json_parse x = Some JNull then Some []
      else
        Option.bind (raw_object x) (\<lambda>ms.
          fold (\<lambda>(k, v) acc. Option.bind acc (\<lambda>m. map_option (\<lambda>s. AList.update k s m) (parse_raw dec_string v [])))
            ms (Some old)))"

definition set_raw ::
  "string \<Rightarrow> (string \<Rightarrow> 'b \<Rightarrow> 'b option) \<Rightarrow> 'b \<Rightarrow> ('b \<Rightarrow> 's \<Rightarrow> 's) \<Rightarrow> string gomap \<Rightarrow> 's option \<Rightarrow> 's option" where
  "set_raw name dec init upd ms acc = Option.bind acc (\<lambda>s. map_option (\<lambda>x. upd x s) (dec_field name dec init ms))"

definition decodeOverlayConfig :: "string \<Rightarrow> OverlayConfig option" where
  "decodeOverlayConfig x =
     Option.bind (raw_object x) (\<lambda>ms.
       set_field ''package'' dec_string [] (\<lambda>v s. s\<lparr>Package := v\<rparr>) ms
       (set_raw ''config'' dec_str_map [] (\<lambda>v s. s\<lparr>OverlaySettings := v\<rparr>) ms
       (set_field ''enabled'' dec_bool False (\<lambda>v s. s\<lparr>Enabled := v\<rparr>) ms
       (set_field ''dependsOn'' dec_strings [] (\<lambda>v s. s\<lparr>DependsOn := v\<rparr>) ms (Some zero_OverlayConfig)))))"

definition dec_overlays :: "string \<Rightarrow> OverlayConfig gomap \<Rightarrow> OverlayConfig gomap option" where
  "dec_overlays x old =
     (if json_parse x = Some JNull then Some []
      else
        Option.bind (raw_object x) (\<lambda>ms.
          fold (\<lambda>(k, v) acc. Option.bind acc (\<lambda>m. map_option (\<lambda>s. AList.update k s m) (decodeOverlayConfig v)))
            ms (Some old)))"

definition decodeConfig :: "string \<Rightarrow> Config option" where
  "decodeConfig x =
     Option.bind (raw_object x) (\<lambda>ms.
       set_field ''registryUrl'' dec_string [] (\<lambda>v s. s\<lparr>RegistryUrl := v\<rparr>) ms
       (set_field ''pollInterval'' dec_string [] (\<lambda>v s. s\<lparr>PollInterval := v\<rparr>) ms
       (set_field ''stateDir'' dec_string [] (\<lambda>v s. s\<lparr>StateDir := v\<rparr>) ms
       (set_field ''binDir'' dec_string [] (\<lambda>v s. s\<lparr>BinDir := v\<rparr>) ms
       (set_raw ''overlays'' dec_overlays [] (\<lambda>v s. s\<lparr>Overlays := v\<rparr>) ms
         (Some \<lparr>RegistryUrl = [], PollInterval = [], StateDir = [], BinDir = [], Overlays = []\<rparr>))))))"

text \<open>The error of the read, or the contents of \<open>/etc/fort/overlays.json\<close>.\<close>

definition loadConfig :: "string + string \<Rightarrow> string + Config" where
  "loadConfig file =
     (case file of
        Inl err \<Rightarrow> Inl (''Failed to read config: '' @ err)
      | Inr data \<Rightarrow>
          (case decodeConfig data of None \<Rightarrow> Inl ''Failed to parse config'' | Some cfg \<Rightarrow> Inr cfg))"

section \<open>The status report\<close>

text \<open>\<open>%-20s\<close> counts runes: the bytes of a valid text that do not continue one.\<close>

definition rune_count :: "string \<Rightarrow> nat" where
  "rune_count s = length (filter (\<lambda>c. byte c div 64 \<noteq> 2) s)"

definition pad :: "nat \<Rightarrow> string \<Rightarrow> string" where
  "pad n s = s @ replicate (n - rune_count s) CHR '' ''"

definition enabledStr :: "bool \<Rightarrow> string" where
  "enabledStr enabled = (if enabled then ''enabled'' else ''disabled'')"

definition status_line :: "StatusEntry \<Rightarrow> string" where
  "status_line e =
     (let sp = (case StCurrent e of None \<Rightarrow> ''<none>'' | Some s \<Rightarrow> OvPath s) in
      pad 20 (StName e) @ '' '' @ pad 12 (StState e) @ '' '' @ pad 10 (enabledStr (StEnabled e)) @ '' '' @ sp @ [CHR 0x0A]
      @ (case StLastAttempt e of
           None \<Rightarrow> []
         | Some a \<Rightarrow> pad 20 [] @ ''   last attempt x'' @ Itoa (Attempts a) @ '' '' @ AttState a @ '': '' @ AttReason a
             @ '' ('' @ AttPath a @ '')'' @ [CHR 0x0A]))"

section \<open>The command line\<close>

text \<open>The value after the last \<open>flag\<close> that is not the last argument.\<close>

fun flag_value :: "string \<Rightarrow> string \<Rightarrow> string list \<Rightarrow> string" where
  "flag_value flag acc (a # b # args) = flag_value flag (if a = flag then b else acc) (b # args)"
| "flag_value flag acc args = acc"

datatype MainResult =
    Exit string                        \<comment> \<open>\<open>log.Fatal\<close>, or the usage: status 1\<close>
  | Finished
  | StatusText string
  | StatusJson "StatusEntry list"

definition overlay_main ::
  "OverlayEnv \<Rightarrow> string + string \<Rightarrow> (int \<times> string) option \<Rightarrow> string list \<Rightarrow> World \<Rightarrow> MainResult \<times> World" where
  "overlay_main env file reply args w =
     (case args of
        [] \<Rightarrow> (Exit ''Usage: fort-overlay-manager <command> [args]'', w)
      | cmd # rest \<Rightarrow>
          (case loadConfig file of
             Inl err \<Rightarrow> (Exit err, w)
           | Inr cfg \<Rightarrow>
               if cmd = ''check'' then (Finished, cmdCheck env cfg reply (flag_value ''--overlay'' [] rest) w)
               else if cmd = ''activate'' then
                 (case rest of
                    [] \<Rightarrow> (Exit ''Usage: fort-overlay-manager activate <name> --store-path <path>'', w)
                  | name # rest' \<Rightarrow>
                      (let storePath = flag_value ''--store-path'' [] rest' in
                       if storePath = [] then (Exit ''--store-path required'', w)
                       else (case cmdActivate env cfg name storePath w of
                               (Some err, w') \<Rightarrow> (Exit err, w')
                             | (None, w') \<Rightarrow> (Finished, w'))))
               else if cmd = ''rollback'' then
                 (case rest of
                    [] \<Rightarrow> (Exit ''Usage: fort-overlay-manager rollback <name>'', w)
                  | name # _ \<Rightarrow> (Finished, cmdRollback env cfg name w))
               else if cmd = ''status'' then
                 (if ''--json'' \<in> set rest then (StatusJson (cmdStatus cfg w), w)
                  else (StatusText (concat (map status_line (cmdStatus cfg w))), w))
               else if cmd = ''boot'' then (Finished, cmdBoot env cfg w)
               else (Exit (''Unknown command: '' @ cmd), w)))"

section \<open>Only checked versions\<close>

text \<open>The versions a state directory names, as current and as previous.\<close>

definition names_only :: "(string \<Rightarrow> bool) \<Rightarrow> OverlayDir \<Rightarrow> bool" where
  "names_only P d \<longleftrightarrow> (\<forall>s. loadCurrentState d = Some s \<or> loadPreviousState d = Some s \<longrightarrow> P (OvPath s))"

lemma names_same:
  "CurrentFile d' = CurrentFile d \<Longrightarrow> PreviousFile d' = PreviousFile d \<Longrightarrow> names_only P d' \<longleftrightarrow> names_only P d"
  by (simp add: names_only_def loadCurrentState_def loadPreviousState_def)

lemma names_writeState [simp]: "names_only P (writeState s d) \<longleftrightarrow> names_only P d"
  by (rule names_same) (simp_all add: writeState_def)

lemma names_record [simp]: "names_only P (recordAttempt n p s r d) \<longleftrightarrow> names_only P d"
  by (rule names_same) (simp_all add: record_fields)

lemma names_clear [simp]: "names_only P (clearAttempt d) \<longleftrightarrow> names_only P d"
  by (rule names_same) (simp_all add: clearAttempt_def)

lemma names_fail [simp]: "names_only P (failActivation n p r d) \<longleftrightarrow> names_only P d"
  by (simp add: failActivation_def)

lemma names_give_up [simp]: "names_only P (give_up n p r d) \<longleftrightarrow> names_only P d"
  by (simp add: give_up_def)

lemma names_restore: "names_only P d \<Longrightarrow> loadPreviousState d = Some s \<Longrightarrow> names_only P (restore_previous n s p r d)"
  unfolding restore_previous_def Let_def
  by (auto simp: names_only_def saveCurrentState_def updateGCRootCurrent_def loadCurrentState_def loadPreviousState_def
      writeState_def clearAttempt_def recordAttempt_def)

lemma names_permanent: "names_only P d \<Longrightarrow> P path \<Longrightarrow> names_only P (make_permanent n path d)"
  by (auto simp: names_only_def make_permanent_def Let_def saveCurrentState_def updateGCRootCurrent_def loadCurrentState_def
      loadPreviousState_def writeState_def clearAttempt_def rotatePrevious_def split: option.splits)

lemma names_rollback:
  "names_only P (overlay_dir n w) \<Longrightarrow>
   names_only P (overlay_dir n (rollbackOverlay env cfg name p reason w))"
  by (auto simp: rollbackOverlay_def Let_def names_restore split: option.splits sum.splits)

lemma names_fail_with [simp]: "names_only P (overlay_dir n (fail_with env name p r w)) \<longleftrightarrow> names_only P (overlay_dir n w)"
  by (simp add: fail_with_def)

text \<open>An activation that is not permanent names no version that was not named before.\<close>

definition admits :: "(string \<Rightarrow> bool) \<Rightarrow> string \<Rightarrow> OverlayDir \<Rightarrow> bool" where
  "admits P path d \<longleftrightarrow> names_only P d \<or> StateFile d = Some ''permanent'' \<and> (P path \<longrightarrow> names_only P d)"

lemma admits_start:
  assumes "names_only P (overlay_dir name w)"
  shows "admits P path (overlay_dir name (activate_start env cfg name path manifest w))"
proof -
  obtain e w1 where s: "startTarget env name (stopServices name manifest w) = (e, w1)"
    by (cases "startTarget env name (stopServices name manifest w)")
  have n: "names_only P (overlay_dir name w1)" using assms by (simp add: overlay_dir_startTarget [OF s])
  have p: "StateFile (make_permanent now path d) = Some ''permanent''" for now d
    by (simp add: make_permanent_def Let_def clearAttempt_def updateGCRootCurrent_def saveCurrentState_def rotatePrevious_def
        writeState_def split: option.splits)
  show ?thesis
    using n by (cases e) (auto simp: activate_start_def s Let_def admits_def p names_rollback names_permanent)
qed

lemma names_activate:
  assumes "\<And>n. names_only (P n) (overlay_dir n w)"
    and "activation_succeeds env cfg name path \<Longrightarrow> P name path"
  shows "names_only (P n) (overlay_dir n (snd (cmdActivate env cfg name path w)))"
proof (cases "n = name")
  case False
  then show ?thesis using assms(1) by (simp add: activation_frame)
next
  case True
  show ?thesis
  proof (cases "map_of (Overlays cfg) name")
    case None
    then show ?thesis using assms(1) by (simp add: cmdActivate_def)
  next
    case (Some ov)
    have "admits (P name) path (overlay_dir name (snd (cmdActivate env cfg name path w)))"
      using assms(1) [of name] by (auto simp: cmdActivate_def Some Let_def overlay_dir_of admits_def
          intro!: admits_start [unfolded admits_def] split: option.splits sum.splits prod.splits)
    then show ?thesis
      using assms(2) activation_permanent [of cfg name env path w] by (auto simp: True Some admits_def)
  qed
qed

section \<open>Runs\<close>

text \<open>A run of the program: what the host answers, the configuration file, the reply of the registry, the arguments.\<close>

type_synonym Run = "OverlayEnv \<times> (string + string) \<times> (int \<times> string) option \<times> string list"

text \<open>A version of an overlay that one of the runs checked, under the configuration of that run.\<close>

definition run_checks :: "Run \<Rightarrow> string \<Rightarrow> string \<Rightarrow> bool" where
  "run_checks r name path \<longleftrightarrow>
     (case loadConfig (fst (snd r)) of Inl err \<Rightarrow> False | Inr cfg \<Rightarrow> activation_succeeds (fst r) cfg name path)"

inductive manager_runs :: "World \<Rightarrow> Run list \<Rightarrow> World \<Rightarrow> bool" for w0 where
  manager_start: "manager_runs w0 [] w0"
| manager_run: "manager_runs w0 rs w \<Longrightarrow> overlay_main env file reply args w = (res, w') \<Longrightarrow>
    manager_runs w0 (rs @ [(env, file, reply, args)]) w'"

lemma names_check:
  assumes "\<And>n. names_only (P n) (overlay_dir n w)" and "\<And>n p. activation_succeeds env cfg n p \<Longrightarrow> P n p"
  shows "names_only (P n) (overlay_dir n (fold (check_one env cfg reg flt) ns w))"
  using assms
proof (induction ns arbitrary: w n)
  case (Cons m ns)
  have "names_only (P k) (overlay_dir k (check_one env cfg reg flt m w))" for k
    using Cons.prems by (auto simp: check_one_def split: option.splits intro: names_activate)
  then show ?case using Cons.IH Cons.prems(2) by simp
qed simp

lemma names_boot: "names_only P (overlay_dir n (cmdBoot env cfg w)) \<longleftrightarrow> names_only P (overlay_dir n w)"
proof -
  have one: "names_only P (overlay_dir n (boot_one env cfg m w)) \<longleftrightarrow> names_only P (overlay_dir n w)" for m w
  proof (cases "n = m")
    case True
    have b: "booted cfg m (overlay_dir m w) (overlay_dir m (boot_one env cfg m w))" by (rule boot_one_booted)
    show ?thesis unfolding True by (rule names_same) (use b in \<open>simp_all add: booted_def\<close>)
  qed (simp add: boot_one_frame)
  have "names_only P (overlay_dir n (fold (boot_one env cfg) ns w)) \<longleftrightarrow> names_only P (overlay_dir n w)" for ns w
    by (induction ns arbitrary: w) (simp_all add: one)
  then show ?thesis by (simp add: cmdBoot_def Let_def boot_start_dirs)
qed

lemma names_main:
  assumes r: "overlay_main env file reply args w = (res, w')" and n: "\<And>n. names_only (P n) (overlay_dir n w)"
    and c: "\<And>n p. run_checks (env, file, reply, args) n p \<Longrightarrow> P n p"
  shows "names_only (P n) (overlay_dir n w')"
proof (cases "args = [] \<or> (\<exists>err. loadConfig file = Inl err)")
  case True
  then have "w' = w" using r by (auto simp: overlay_main_def split: list.splits sum.splits)
  then show ?thesis using n by simp
next
  case False
  then obtain cmd rest cfg where a: "args = cmd # rest" and cfg: "loadConfig file = Inr cfg"
    by (cases args; cases "loadConfig file") auto
  have p: "P m p" if "activation_succeeds env cfg m p" for m p
    using c that by (simp add: run_checks_def cfg)
  have ck: "names_only (P n) (overlay_dir n (cmdCheck env cfg reply flt w))" for flt
    using n p by (auto simp: cmdCheck_def split: option.splits intro: names_check)
  have act: "names_only (P n) (overlay_dir n w'')" if "cmdActivate env cfg name path w = (e, w'')" for name path e w''
    using names_activate [of P w env cfg name path n] n p that by auto
  have rb: "names_only (P n) (overlay_dir n (cmdRollback env cfg name w))" for name
    unfolding cmdRollback_def by (rule names_rollback) (rule n)
  show ?thesis
    using r n ck rb act
    by (auto simp: overlay_main_def a cfg names_boot Let_def split: if_splits list.splits prod.splits option.splits)
qed


definition named :: "OverlayDir \<Rightarrow> string \<Rightarrow> bool" where
  "named d path \<longleftrightarrow> map_option OvPath (loadCurrentState d) = Some path \<or> map_option OvPath (loadPreviousState d) = Some path"

lemma names_only_named: "names_only P d \<longleftrightarrow> (\<forall>path. named d path \<longrightarrow> P path)"
  by (auto simp: names_only_def named_def)

lemma runs_name_checked:
  assumes "manager_runs w0 rs w"
  shows "names_only (\<lambda>path. (\<exists>r \<in> set rs. run_checks r n path) \<or> named (overlay_dir n w0) path) (overlay_dir n w)"
  using assms
proof (induction arbitrary: n)
  case manager_start
  then show ?case by (simp add: names_only_named)
next
  case (manager_run rs w env conf reply args res w')
  show ?case
    by (rule names_main [OF manager_run.hyps(2)]) (use manager_run.IH in \<open>auto simp: names_only_named\<close>)
qed

section \<open>Properties\<close>

text \<open>
  C10: whatever sequence of runs of the program, each with its own host, configuration, registry reply and arguments,
  a version that a state directory names as current or previous was named there before the first run, or one of the
  runs checked it: it could be fetched, evaluated, written to units, started, and it passed its health check.
\<close>

theorem only_checked_versions:
  assumes "manager_runs w0 rs w" and "named (overlay_dir name w) path"
  shows "(\<exists>r \<in> set rs. run_checks r name path) \<or> named (overlay_dir name w0) path"
  using runs_name_checked [OF assms(1), of name] assms(2) by (simp add: names_only_named)

theorem only_checked_versions_witness:
  "run_checks (demo_overlay_env, Inr (js ''{~overlays~:{~web~:{~package~:~p~,~enabled~:true}}}''), None,
     [''activate'', ''web'', ''--store-path'', ''/nix/store/new'']) ''web'' ''/nix/store/new''"
proof -
  let ?r = "(demo_overlay_env, Inr (js ''{~overlays~:{~web~:{~package~:~p~,~enabled~:true}}}'') :: string + string,
     None :: (int \<times> string) option, [''activate'', ''web'', ''--store-path'', ''/nix/store/new''])"
  let ?w = "snd (overlay_main (fst ?r) (fst (snd ?r)) None (snd (snd (snd ?r))) empty_world)"
  have n: "named (overlay_dir ''web'' ?w) ''/nix/store/new''" "\<not> named (overlay_dir ''web'' empty_world) ''/nix/store/new''"
    by code_simp+
  have "manager_runs empty_world ([] @ [?r]) ?w"
    by (rule manager_run [OF manager_start, where res = "fst (overlay_main (fst ?r) (fst (snd ?r)) None (snd (snd (snd ?r))) empty_world)"])
      (simp only: fst_conv snd_conv prod.collapse)
  then show ?thesis using only_checked_versions [OF _ n(1), of empty_world "[] @ [?r]"] n(2) by simp
qed

end
