(* ===== verification/Overlay_Registry.thy ===== *)
theory Overlay_Registry
  imports Go_Time Go_OS Json_Decode
begin

text \<open>
  \<open>apps/overlay-registry/main.go\<close>: the service that holds the store path of every overlay
  package. Requests are served one at a time, as the lock makes them.
\<close>

record Entry =
  StorePath :: string
  UpdatedAtSeconds :: int

text \<open>The entries in memory, and those in the data file.\<close>

record Registry =
  entries :: "Entry gomap"
  dataFile :: "Entry gomap FileLoad"

definition NewRegistry :: "Entry gomap FileLoad \<Rightarrow> string + Registry" where
  "NewRegistry file =
     (case file of
        Absent _ \<Rightarrow> Inr \<lparr>entries = [], dataFile = file\<rparr>
      | Corrupt err \<Rightarrow> Inl (''parse: '' @ err)
      | Loaded es \<Rightarrow> Inr \<lparr>entries = es, dataFile = file\<rparr>)"

text \<open>
  \<open>save\<close> writes a temporary file and renames it, so that a failure of either leaves the data
  file as it was; the parameter is that failure.
\<close>

definition save :: "string option \<Rightarrow> Registry \<Rightarrow> string option \<times> Registry" where
  "save saveError r =
     (case saveError of
        Some err \<Rightarrow> (Some err, r)
      | None \<Rightarrow> (None, r\<lparr>dataFile := Loaded (entries r)\<rparr>))"

text \<open>
  The body of a POST: the first JSON value, which must be an object (or null) with a string
  \<open>storePath\<close>.
\<close>

definition posted_path :: "string \<Rightarrow> string option" where
  "posted_path body =
     (case raw_value body of
        None \<Rightarrow> None
      | Some (v, _) \<Rightarrow>
          (case Option.bind (raw_object v) (dec_field ''storePath'' (parse_raw dec_string) []) of
             None \<Rightarrow> None
           | Some path \<Rightarrow> if path = [] then None else Some path))"

datatype Answer = Failed nat string | AllEntries "Entry gomap" | OneEntry Entry | Updated

text \<open>\<open>ServeHTTP\<close> on a method, a path and a body; the clock and the failure of saving.\<close>

definition ServeHTTP ::
  "int \<Rightarrow> string option \<Rightarrow> string \<Rightarrow> string \<Rightarrow> string \<Rightarrow> Registry \<Rightarrow> Registry \<times> Answer" where
  "ServeHTTP now saveError meth urlPath body r =
     (let path = TrimPrefix urlPath ''/'' in
      if meth = ''GET'' then
        (r, if path = [] then AllEntries (entries r)
            else (case map_of (entries r) path of None \<Rightarrow> Failed 404 ''not found'' | Some e \<Rightarrow> OneEntry e))
      else if meth = ''POST'' then
        (if path = [] then (r, Failed 400 ''package name required'')
         else
           (case posted_path body of
              None \<Rightarrow> (r, Failed 400 ''storePath required'')
            | Some storePath \<Rightarrow>
                (let r1 = r\<lparr>entries := AList.update path \<lparr>StorePath = storePath, UpdatedAtSeconds = now\<rparr> (entries r)\<rparr>
                 in case save saveError r1 of
                      (Some err, r2) \<Rightarrow> (r2, Failed 500 ''save failed'')
                    | (None, r2) \<Rightarrow> (r2, Updated))))
      else (r, Failed 405 ''method not allowed''))"

section \<open>Properties\<close>

text \<open>
  C40: after a POST answered 200 the package has the posted store path and the other packages
  theirs, in memory and in the data file, which a restart reads back; a POST refused with 4xx
  changes nothing; but one answered 500 has changed the entries it serves, and only the data
  file is as it was.
\<close>

theorem registry_post:
  assumes "ServeHTTP now saveError ''POST'' (''/'' @ path) body r = (r', ans)"
  shows "(ans = Updated \<and> saveError = None
       \<and> (\<exists>storePath. posted_path body = Some storePath
            \<and> map_of (entries r') = (map_of (entries r))(path \<mapsto> \<lparr>StorePath = storePath, UpdatedAtSeconds = now\<rparr>))
       \<and> NewRegistry (dataFile r') = Inr r')
   \<or> (\<exists>msg. ans = Failed 400 msg \<and> r' = r)
   \<or> (\<exists>msg storePath. ans = Failed 500 msg \<and> dataFile r' = dataFile r \<and> posted_path body = Some storePath
        \<and> map_of (entries r') = (map_of (entries r))(path \<mapsto> \<lparr>StorePath = storePath, UpdatedAtSeconds = now\<rparr>))"
proof -
  have p: "TrimPrefix (''/'' @ path) ''/'' = path" by (rule TrimPrefix_append)
  show ?thesis
    using assms unfolding ServeHTTP_def p
    by (auto simp: Let_def save_def NewRegistry_def AList.update_conv' split: if_splits option.splits)
qed

theorem registry_post_witness:
  "map_of (entries (fst (ServeHTTP 7 None ''POST'' ''/web'' (js ''{~storePath~:~/nix/store/w~}'')
      \<lparr>entries = [], dataFile = Absent ''none''\<rparr>))) ''web'' = Some \<lparr>StorePath = ''/nix/store/w'', UpdatedAtSeconds = 7\<rparr>"
proof -
  let ?r = "\<lparr>entries = [], dataFile = Absent ''none''\<rparr> :: Registry"
  let ?s = "ServeHTTP 7 None ''POST'' (''/'' @ ''web'') (js ''{~storePath~:~/nix/store/w~}'') ?r"
  have b: "posted_path (js ''{~storePath~:~/nix/store/w~}'') = Some ''/nix/store/w''" by code_simp
  have "snd ?s = Updated" by code_simp
  then have "?s = (fst ?s, Updated)" by (metis prod.collapse)
  from registry_post [OF this] show ?thesis by (auto simp: b)
qed

end
