(* ===== verification/Cert_Check.thy ===== *)
theory Cert_Check
  imports Go_Time Go_OS
begin

text \<open>
  \<open>pkgs/fort-certcheck\<close>: the decisions of \<open>check.go\<close> on renewal, freshness and
  installation of certificates, and the exit codes of \<open>main.go\<close>. Decoding PEM and parsing
  certificates and keys is the work of \<open>encoding/pem\<close> and \<open>crypto/x509\<close>; the model
  takes their results as parameters.
\<close>

section \<open>What the libraries give\<close>

text \<open>
  Public keys by the types \<open>KeyMatches\<close> tells apart, with an encoding of the key, and private
  keys with the encoding of their public part.
\<close>

datatype PublicKey = RsaPub string | EcdsaPub string | Ed25519Pub string | OtherPub string
datatype PrivateKey = RsaPriv string | EcdsaPriv string | Ed25519Priv string | OtherPriv string

record Certificate =
  CertNotAfter :: gotime
  CertKey :: PublicKey

text \<open>
  \<open>PemBlocks\<close>: the type and the bytes of the blocks that \<open>pem.Decode\<close> finds one after
  the other in a text. The parsers give an error text or their result. \<open>ShowHours\<close> is the
  text of a duration rounded to hours, \<open>ShowTime\<close> that of an instant.
\<close>

record CertLib =
  PemBlocks :: "string \<Rightarrow> (string \<times> string) list"
  ParseCertificate :: "string \<Rightarrow> string + Certificate"
  ParsePKCS8 :: "string \<Rightarrow> string + PrivateKey"
  ParsePKCS1 :: "string \<Rightarrow> string + PrivateKey"
  ParseEC :: "string \<Rightarrow> string + PrivateKey"
  ShowHours :: "int \<Rightarrow> string"
  ShowTime :: "gotime \<Rightarrow> string"

section \<open>check.go\<close>

record Decision =
  Act :: bool
  Reason :: string

definition parseFirstCert :: "CertLib \<Rightarrow> string \<Rightarrow> string + Certificate" where
  "parseFirstCert lib pemData =
     (case find (\<lambda>(typ, bytes). typ = ''CERTIFICATE'') (PemBlocks lib pemData) of
        None \<Rightarrow> Inl ''no CERTIFICATE block found''
      | Some (_, bytes) \<Rightarrow> ParseCertificate lib bytes)"

definition NotAfter :: "CertLib \<Rightarrow> string \<Rightarrow> string + gotime" where
  "NotAfter lib pemData =
     (case parseFirstCert lib pemData of Inl err \<Rightarrow> Inl err | Inr cert \<Rightarrow> Inr (CertNotAfter cert))"

definition marker_suffix :: "bool \<Rightarrow> string" where
  "marker_suffix markerExists = (if markerExists then '' (acme-success marker present; ignored)'' else [])"

text \<open>The threshold \<open>time.Duration(minValidDays)*24*time.Hour\<close>, with the products of int64.\<close>

definition threshold :: "int \<Rightarrow> int" where
  "threshold minValidDays = mul_duration (mul_duration minValidDays 24) Hour"

definition DecideRenewal :: "CertLib \<Rightarrow> bool \<Rightarrow> string \<Rightarrow> gotime \<Rightarrow> int \<Rightarrow> Decision" where
  "DecideRenewal lib markerExists certPEM now minValidDays =
     (let suffix = marker_suffix markerExists in
      if length certPEM = 0 then \<lparr>Act = True, Reason = ''certificate missing'' @ suffix\<rparr>
      else
        (case NotAfter lib certPEM of
           Inl err \<Rightarrow> \<lparr>Act = True, Reason = ''certificate unreadable: '' @ err @ suffix\<rparr>
         | Inr notAfter \<Rightarrow>
             (let remaining = Sub notAfter now in
              if remaining \<le> 0 then
                \<lparr>Act = True, Reason = ''certificate expired '' @ ShowHours lib (neg_duration remaining) @ '' ago'' @ suffix\<rparr>
              else if remaining < threshold minValidDays then
                \<lparr>Act = True, Reason = ''certificate expires in '' @ ShowHours lib remaining @ '' (< ''
                   @ Itoa minValidDays @ ''d threshold)'' @ suffix\<rparr>
              else \<lparr>Act = False, Reason = ''certificate valid for '' @ ShowHours lib remaining\<rparr>)))"

definition IsFresh :: "CertLib \<Rightarrow> string \<Rightarrow> gotime \<Rightarrow> int \<Rightarrow> Decision" where
  "IsFresh lib certPEM now minValidDays =
     (let d = DecideRenewal lib False certPEM now minValidDays in \<lparr>Act = \<not> Act d, Reason = Reason d\<rparr>)"

text \<open>
  The first block of a private key type decides. Blocks of other types are passed over.
\<close>

definition key_types :: "string list" where
  "key_types = [''PRIVATE KEY'', ''RSA PRIVATE KEY'', ''EC PRIVATE KEY'']"

definition parsePrivateKey :: "CertLib \<Rightarrow> string \<Rightarrow> string + PrivateKey" where
  "parsePrivateKey lib pemData =
     (case find (\<lambda>(typ, bytes). typ \<in> set key_types) (PemBlocks lib pemData) of
        None \<Rightarrow> Inl ''no private key block found''
      | Some (typ, bytes) \<Rightarrow>
          if typ = ''PRIVATE KEY'' then ParsePKCS8 lib bytes
          else if typ = ''RSA PRIVATE KEY'' then ParsePKCS1 lib bytes
          else ParseEC lib bytes)"

text \<open>
  A certificate with a key of another type is always an error: no private key of the library
  has a method \<open>Public() interface{}\<close>, they return \<open>crypto.PublicKey\<close>.
\<close>

definition KeyMatches :: "CertLib \<Rightarrow> string \<Rightarrow> string \<Rightarrow> string + bool" where
  "KeyMatches lib certPEM keyPEM =
     (case parseFirstCert lib certPEM of
        Inl err \<Rightarrow> Inl err
      | Inr cert \<Rightarrow>
          (case parsePrivateKey lib keyPEM of
             Inl err \<Rightarrow> Inl err
           | Inr key \<Rightarrow>
               (case CertKey cert of
                  RsaPub p \<Rightarrow> Inr (key = RsaPriv p)
                | EcdsaPub p \<Rightarrow> Inr (key = EcdsaPriv p)
                | Ed25519Pub p \<Rightarrow> Inr (key = Ed25519Priv p)
                | OtherPub typ \<Rightarrow> Inl (''unsupported public key type '' @ typ))))"

definition ValidatePair :: "CertLib \<Rightarrow> string \<Rightarrow> string \<Rightarrow> string option" where
  "ValidatePair lib certPEM keyPEM =
     (case parseFirstCert lib certPEM of
        Inl err \<Rightarrow> Some (''cert unreadable: '' @ err)
      | Inr _ \<Rightarrow>
          (case KeyMatches lib certPEM keyPEM of
             Inl err \<Rightarrow> Some (''key unreadable: '' @ err)
           | Inr match \<Rightarrow> if \<not> match then Some ''key does not match cert'' else None))"

definition ShouldInstall :: "CertLib \<Rightarrow> string \<Rightarrow> string \<Rightarrow> string \<Rightarrow> gotime \<Rightarrow> Decision" where
  "ShouldInstall lib candCert candKey currentCert now =
     (case parseFirstCert lib candCert of
        Inl err \<Rightarrow> \<lparr>Act = False, Reason = ''candidate cert unreadable: '' @ err\<rparr>
      | Inr cand \<Rightarrow>
          (case KeyMatches lib candCert candKey of
             Inl err \<Rightarrow> \<lparr>Act = False, Reason = ''candidate key unreadable: '' @ err\<rparr>
           | Inr match \<Rightarrow>
               if \<not> match then \<lparr>Act = False, Reason = ''candidate key does not match candidate cert''\<rparr>
               else
                 (case parseFirstCert lib currentCert of
                    Inl _ \<Rightarrow> \<lparr>Act = True, Reason = ''current cert missing or unreadable; installing candidate''\<rparr>
                  | Inr current \<Rightarrow>
                      if TrimSpace candCert = TrimSpace currentCert
                      then \<lparr>Act = False, Reason = ''candidate identical to current cert''\<rparr>
                      else if \<not> CertNotAfter cand > now \<and> CertNotAfter current > now
                      then \<lparr>Act = False, Reason = ''candidate expired while current cert is still valid''\<rparr>
                      else if CertNotAfter cand < CertNotAfter current
                      then \<lparr>Act = False, Reason = ''candidate notAfter '' @ ShowTime lib (CertNotAfter cand)
                              @ '' earlier than current '' @ ShowTime lib (CertNotAfter current)\<rparr>
                      else \<lparr>Act = True, Reason = ''candidate is newer (notAfter ''
                              @ ShowTime lib (CertNotAfter cand) @ '')''\<rparr>)))"

section \<open>main.go\<close>

text \<open>
  The commands with their flags parsed; an absent flag has the default of the source. A file is
  its content, or \<open>None\<close> where it cannot be read.
\<close>

datatype CertCommand =
    ShouldRenew string int string        \<comment> \<open>cert, min-days, marker\<close>
  | Fresh string int                     \<comment> \<open>cert, min-days\<close>
  | Install string string string         \<comment> \<open>cert, key, current\<close>
  | UnknownCommand

definition file_bytes :: "(string \<Rightarrow> string option) \<Rightarrow> string \<Rightarrow> string" where
  "file_bytes files path = (case files path of None \<Rightarrow> [] | Some data \<Rightarrow> data)"

definition report :: "Decision \<Rightarrow> nat" where
  "report d = (if Act d then 0 else 1)"

definition certcheck_exit :: "CertLib \<Rightarrow> (string \<Rightarrow> string option) \<Rightarrow> gotime \<Rightarrow> CertCommand \<Rightarrow> nat" where
  "certcheck_exit lib files now cmd =
     (case cmd of
        ShouldRenew cert minDays marker \<Rightarrow>
          if cert = [] then 2
          else report (DecideRenewal lib (marker \<noteq> [] \<and> files marker \<noteq> None) (file_bytes files cert) now minDays)
      | Fresh cert minDays \<Rightarrow>
          if cert = [] then 2 else report (IsFresh lib (file_bytes files cert) now minDays)
      | Install cert key current \<Rightarrow>
          if cert = [] \<or> key = [] \<or> current = [] then 2
          else
            (case files cert of
               None \<Rightarrow> 3
             | Some candCert \<Rightarrow>
                 (case files key of
                    None \<Rightarrow> 3
                  | Some candKey \<Rightarrow>
                      (case ValidatePair lib candCert candKey of
                         Some err \<Rightarrow> 3
                       | None \<Rightarrow> report (ShouldInstall lib candCert candKey (file_bytes files current) now))))
      | UnknownCommand \<Rightarrow> 2)"

section \<open>Lemmas\<close>

definition valid_until :: "CertLib \<Rightarrow> string \<Rightarrow> gotime option" where
  "valid_until lib certPEM =
     (if certPEM = [] then None else case NotAfter lib certPEM of Inl _ \<Rightarrow> None | Inr t \<Rightarrow> Some t)"

lemma renewal_act:
  "Act (DecideRenewal lib m certPEM now days) \<longleftrightarrow>
     (case valid_until lib certPEM of None \<Rightarrow> True
      | Some t \<Rightarrow> Sub t now \<le> 0 \<or> Sub t now < threshold days)"
  by (auto simp: DecideRenewal_def valid_until_def Let_def split: sum.splits)

lemma threshold_days: "\<bar>days\<bar> \<le> 100000 \<Longrightarrow> threshold days = days * (24 * Hour)"
  unfolding threshold_def mul_duration_def by (subst (1 2) wrap64_id) (auto simp: int64_ok_def)

section \<open>Properties\<close>

text \<open>
  C30: a certificate is not to be renewed exactly when it is there, can be read, and expires at
  least the threshold of days from now; the acme-success marker has no say.
\<close>

theorem renewal_decision:
  assumes "0 < days" and "days \<le> 100000" and "\<And>t. valid_until lib certPEM = Some t \<Longrightarrow> \<bar>t - now\<bar> < 2 ^ 63"
  shows "Act (DecideRenewal lib marker certPEM now days) \<longleftrightarrow>
    \<not> (\<exists>t. valid_until lib certPEM = Some t \<and> now + days * (24 * Hour) \<le> t)"
proof (cases "valid_until lib certPEM")
  case None
  then show ?thesis by (simp add: renewal_act)
next
  case (Some t)
  then have "Sub t now = t - now" using assms(3) by (intro Sub_exact) (auto simp: int64_ok_def)
  then show ?thesis using Some assms(1,2) by (auto simp: renewal_act threshold_days)
qed

text \<open>
  consumers do not flap before the broker renews: a certificate the broker does not renew at
  its threshold is fresh for every consumer whose threshold is not above it.
\<close>

theorem no_flapping:
  assumes "0 < consumerDays" and "consumerDays \<le> brokerDays" and "brokerDays \<le> 100000"
    and "\<not> Act (DecideRenewal lib marker certPEM now brokerDays)"
  shows "Act (IsFresh lib certPEM now consumerDays)"
  using assms
  by (auto simp: IsFresh_def Let_def renewal_act threshold_days split: option.splits)

text \<open>
  A pushed pair is installed exactly when the certificate can be read and is that of the key,
  and there is no readable current certificate, or the current one is another text, does not
  expire later, and is not valid while the pushed one is expired.
\<close>

lemma install_decision:
  "Act (ShouldInstall lib candCert candKey currentCert now) \<longleftrightarrow>
     ValidatePair lib candCert candKey = None
     \<and> (case (NotAfter lib candCert, NotAfter lib currentCert) of
          (Inr cand, Inr current) \<Rightarrow> TrimSpace candCert \<noteq> TrimSpace currentCert \<and> current \<le> cand
             \<and> (now < cand \<or> current \<le> now)
        | _ \<Rightarrow> True)"
  by (auto simp: ShouldInstall_def ValidatePair_def NotAfter_def split: sum.splits)

text \<open>
  pushing what is installed again is a no-op: exit status 1, after any push that was
  answered 0.
\<close>

theorem install_once:
  assumes "certcheck_exit lib files now (Install cert key current) = 0" and "current \<noteq> cert" and "current \<noteq> key"
  shows "certcheck_exit lib (files(current := files cert)) later (Install cert key current) = 1"
proof -
  obtain candCert candKey where f: "files cert = Some candCert" "files key = Some candKey"
    and v: "ValidatePair lib candCert candKey = None" and ne: "cert \<noteq> []" "key \<noteq> []" "current \<noteq> []"
    using assms(1) by (auto simp: certcheck_exit_def report_def split: if_splits option.splits)
  obtain cand where c: "parseFirstCert lib candCert = Inr cand"
    using v by (auto simp: ValidatePair_def split: sum.splits)
  have "\<not> Act (ShouldInstall lib candCert candKey candCert later)"
    using c by (simp add: install_decision NotAfter_def)
  then show ?thesis
    using f v ne assms(2,3) by (simp add: certcheck_exit_def report_def file_bytes_def)
qed

section \<open>Examples\<close>

definition demo_lib :: CertLib where
  "demo_lib = \<lparr>PemBlocks = (\<lambda>s. [(''EC PARAMETERS'', s), (''EC PRIVATE KEY'', s), (''CERTIFICATE'', s)]),
     ParseCertificate = (\<lambda>s. if s = ''old'' then Inr \<lparr>CertNotAfter = 10 * 24 * Hour, CertKey = EcdsaPub ''k''\<rparr>
        else Inr \<lparr>CertNotAfter = 90 * 24 * Hour, CertKey = EcdsaPub ''k''\<rparr>),
     ParsePKCS8 = (\<lambda>s. Inl ''bad''), ParsePKCS1 = (\<lambda>s. Inl ''bad''), ParseEC = (\<lambda>s. Inr (EcdsaPriv ''k'')),
     ShowHours = (\<lambda>d. Itoa (d div Hour)), ShowTime = (\<lambda>t. Itoa t)\<rparr>"

lemma demo_valid: "valid_until demo_lib ''new'' = Some (90 * 24 * Hour)" "valid_until demo_lib ''old'' = Some (10 * 24 * Hour)"
  by code_simp+

theorem renewal_decision_witness:
  "Act (DecideRenewal demo_lib True ''old'' 0 30) \<and> \<not> Act (DecideRenewal demo_lib True ''new'' 0 30)"
  using renewal_decision [of 30 demo_lib "''old''" 0 True] renewal_decision [of 30 demo_lib "''new''" 0 True]
  by (simp add: demo_valid)

theorem no_flapping_witness: "Act (IsFresh demo_lib ''new'' 0 21)"
proof -
  have "\<not> Act (DecideRenewal demo_lib False ''new'' 0 30)" by code_simp
  then show ?thesis by (intro no_flapping) simp_all
qed

theorem install_once_witness:
  "certcheck_exit demo_lib
     ((\<lambda>p. if p = ''c'' then Some ''new'' else if p = ''k'' then Some ''key'' else Some ''old'')(''cur'' := Some ''new''))
     7 (Install ''c'' ''k'' ''cur'') = 1"
proof -
  let ?f = "\<lambda>p. if p = ''c'' then Some ''new'' else if p = ''k'' then Some ''key'' else Some ''old''"
  have "certcheck_exit demo_lib ?f 0 (Install ''c'' ''k'' ''cur'') = 0" by code_simp
  from install_once [OF this, of 7] show ?thesis by simp
qed

end
