(* ===== verification/Provisioner.thy ===== *)
theory Provisioner
  imports Go_Time Go_OS Json_Decode
begin

text \<open>
  \<open>pkgs/provisioner/main.go\<close>: one lease at a time lets one machine install itself as a
  host. A lease is armed by a person, claimed by a machine within five minutes, fetched with the
  claim's token, and completed by a report that starts a preparation. Handlers run one at a time,
  as the lock makes them; the preparation runs beside them and its end is an event of its own.
\<close>

section \<open>State\<close>

record Target =
  TargetHost :: string
  TargetProfile :: string

record Lease =
  LeaseHost :: string
  LeaseProfile :: string
  ArmedBy :: string
  ArmedAt :: gotime
  ExpiresAt :: gotime
  ClaimedAt :: "gotime option"
  ClaimToken :: string
  ClaimExpiresAt :: "gotime option"
  DMIUUID :: string
  PreparingAt :: "gotime option"
  PrepareError :: string
  CompletedAt :: "gotime option"

record Completion =
  CompUUID :: string
  Pubkey :: string
  Hardware :: string
  CompHost :: string
  CompProfile :: string
  CompAt :: gotime

text \<open>
  The server, with the lease in memory and the one in the state file, and the completions
  directory: the reports by host, and the hosts with an archive of their source.
\<close>

record Server =
  targets :: "Target list"
  lease :: "Lease option"
  stateFile :: "Lease option"
  secret :: string
  requireUser :: bool
  prepareConfigured :: bool
  reports :: "Completion gomap"
  archives :: "string list"

text \<open>
  What one event sees: the clock, the headers, the error of writing the state file or the
  report, 64 hexadecimal digits from the random source or its failure, and whether
  \<open>completed_at\<close> in a body reads as a time.
\<close>

record Event =
  At :: gotime
  ProxyUser :: string
  OriginHeader :: string
  RequestHost :: string
  Authorization :: string
  SaveError :: "string option"
  ReportError :: "string option"
  RandomToken :: "string option"
  TimeReads :: "string \<Rightarrow> bool"

datatype Reply =
    HttpError nat string
  | SeeOther string
  | Claimed string string string gotime    \<comment> \<open>host, profile, token, end of the claim\<close>
  | ServeArchive string                     \<comment> \<open>the host whose archive is sent\<close>
  | Preparing
  | NoReply

section \<open>Access\<close>

definition human :: "Server \<Rightarrow> Event \<Rightarrow> bool \<Rightarrow> (nat \<times> string) option" where
  "human s ev mutate =
     (if requireUser s \<and> ProxyUser ev = [] then Some (401, ''authenticated proxy identity required'')
      else if mutate \<and> OriginHeader ev \<noteq> []
              \<and> \<not> fold_eq (TrimSuffix (OriginHeader ev) ''/'') (''https://'' @ RequestHost ev)
      then Some (403, ''origin rejected'') else None)"

definition machine :: "Server \<Rightarrow> Event \<Rightarrow> string \<Rightarrow> (nat \<times> string) option" where
  "machine s ev claim =
     (let supplied = TrimPrefix (Authorization ev) ''Bearer '';
          expected = (if claim \<noteq> [] then claim else secret s)
      in if length supplied \<noteq> length expected \<or> supplied \<noteq> expected then Some (401, ''unauthorized'') else None)"

text \<open>\<open>save\<close> replaces the state file atomically, or leaves it as it was.\<close>

definition save_state :: "Event \<Rightarrow> Server \<Rightarrow> string option \<times> Server" where
  "save_state ev s =
     (case SaveError ev of Some err \<Rightarrow> (Some err, s) | None \<Rightarrow> (None, s\<lparr>stateFile := lease s\<rparr>))"

section \<open>Handlers\<close>

definition new_lease :: "Event \<Rightarrow> Target \<Rightarrow> Lease" where
  "new_lease ev t = \<lparr>LeaseHost = TargetHost t, LeaseProfile = TargetProfile t,
     ArmedBy = ProxyUser ev, ArmedAt = At ev, ExpiresAt = At ev + 5 * Minute,
     ClaimedAt = None, ClaimToken = [], ClaimExpiresAt = None, DMIUUID = [],
     PreparingAt = None, PrepareError = [], CompletedAt = None\<rparr>"

definition arm :: "Event \<Rightarrow> string \<Rightarrow> Server \<Rightarrow> Server \<times> Reply" where
  "arm ev host s =
     (case human s ev True of
        Some (code, msg) \<Rightarrow> (s, HttpError code msg)
      | None \<Rightarrow>
          (case find (\<lambda>t. TargetHost t = host) (targets s) of
             None \<Rightarrow> (s, HttpError 404 ''unknown host'')
           | Some target \<Rightarrow>
               (let s1 = s\<lparr>archives := removeAll (TargetHost target) (archives s),
                           reports := AList.delete (TargetHost target) (reports s),
                           lease := Some (new_lease ev target)\<rparr>
                in case save_state ev s1 of
                     (Some err, s2) \<Rightarrow> (s2, HttpError 500 err)
                   | (None, s2) \<Rightarrow> (s2, SeeOther ''/''))))"

definition disarm :: "Event \<Rightarrow> string \<Rightarrow> Server \<Rightarrow> Server \<times> Reply" where
  "disarm ev host s =
     (case human s ev True of
        Some (code, msg) \<Rightarrow> (s, HttpError code msg)
      | None \<Rightarrow>
          (case lease s of
             None \<Rightarrow> (s, SeeOther ''/'')
           | Some l \<Rightarrow>
               if LeaseHost l = host then (snd (save_state ev (s\<lparr>lease := None\<rparr>)), SeeOther ''/'')
               else (s, SeeOther ''/'')))"

text \<open>
  The \<open>dmi_uuid\<close> of an activation body. The error of the decoder is ignored, so a member of
  another type is passed over; at most 64 KiB are read.
\<close>

definition activation_uuid :: "string \<Rightarrow> string" where
  "activation_uuid body =
     (case raw_value (take 65536 body) of
        None \<Rightarrow> []
      | Some (v, _) \<Rightarrow>
          (case raw_object v of
             None \<Rightarrow> []
           | Some ms \<Rightarrow>
               fold (\<lambda>(k, x) acc. if fold_eq k ''dmi_uuid''
                       then (case json_parse x of Some (JStr u) \<Rightarrow> u | _ \<Rightarrow> acc) else acc) ms []))"

definition activate :: "Event \<Rightarrow> string \<Rightarrow> Server \<Rightarrow> Server \<times> Reply" where
  "activate ev body s =
     (case machine s ev [] of
        Some (code, msg) \<Rightarrow> (s, HttpError code msg)
      | None \<Rightarrow>
          (case lease s of
             None \<Rightarrow> (s, HttpError 409 ''no provisioning lease is armed'')
           | Some l \<Rightarrow>
               if \<not> At ev < ExpiresAt l then (s, HttpError 409 ''no provisioning lease is armed'')
               else if ClaimedAt l \<noteq> None then (s, HttpError 409 ''lease already claimed'')
               else
                 (case RandomToken ev of
                    None \<Rightarrow> (s, HttpError 500 ''entropy unavailable'')
                  | Some token \<Rightarrow>
                      (let claimExpires = At ev + 2 * Hour;
                           s1 = s\<lparr>lease := Some (l\<lparr>ClaimedAt := Some (At ev), ClaimToken := token,
                                    ClaimExpiresAt := Some claimExpires, DMIUUID := activation_uuid body\<rparr>)\<rparr>
                       in case save_state ev s1 of
                            (Some err, s2) \<Rightarrow> (s2, HttpError 500 err)
                          | (None, s2) \<Rightarrow> (s2, Claimed (LeaseHost l) (LeaseProfile l) token claimExpires)))))"

text \<open>A claim that still counts: its token is the one given, and it has not run out.\<close>

definition claim_valid :: "gotime \<Rightarrow> string \<Rightarrow> Lease \<Rightarrow> bool" where
  "claim_valid now token l \<longleftrightarrow> ClaimToken l = token \<and> ClaimedAt l \<noteq> None
     \<and> (case ClaimExpiresAt l of None \<Rightarrow> False | Some t \<Rightarrow> now < t)"

definition bootstrap :: "Event \<Rightarrow> string \<Rightarrow> Server \<Rightarrow> Server \<times> Reply" where
  "bootstrap ev token s =
     (case machine s ev token of
        Some (code, msg) \<Rightarrow> (s, HttpError code msg)
      | None \<Rightarrow>
          (case lease s of
             None \<Rightarrow> (s, HttpError 403 ''invalid or expired claim'')
           | Some l \<Rightarrow>
               if \<not> claim_valid (At ev) token l then (s, HttpError 403 ''invalid or expired claim'')
               else if LeaseHost l \<notin> set (archives s) then (s, HttpError 503 ''host source is still preparing'')
               else (s, ServeArchive (LeaseHost l))))"

text \<open>
  The report of a machine: at most 2 MiB are read, and every field must have its type.
\<close>

definition decodeCompletion :: "Event \<Rightarrow> string \<Rightarrow> (string \<times> string \<times> string) option" where
  "decodeCompletion ev body =
     (case raw_value (take 2097152 body) of
        None \<Rightarrow> None
      | Some (v, _) \<Rightarrow>
          Option.bind (raw_object v) (\<lambda>ms.
          Option.bind (dec_field ''uuid'' (parse_raw dec_string) [] ms) (\<lambda>uuid.
          Option.bind (dec_field ''pubkey'' (parse_raw dec_string) [] ms) (\<lambda>pubkey.
          Option.bind (dec_field ''hardware_configuration'' (parse_raw dec_string) [] ms) (\<lambda>hw.
          Option.bind (dec_field ''host'' (parse_raw dec_string) [] ms) (\<lambda>_.
          Option.bind (dec_field ''profile'' (parse_raw dec_string) [] ms) (\<lambda>_.
          Option.bind (dec_field ''completed_at'' (\<lambda>x old. if x = ''null'' \<or> TimeReads ev x then Some () else None) () ms)
            (\<lambda>_. Some (uuid, pubkey, hw)))))))))"

definition complete :: "Event \<Rightarrow> string \<Rightarrow> string \<Rightarrow> Server \<Rightarrow> Server \<times> Reply" where
  "complete ev token body s =
     (case machine s ev token of
        Some (code, msg) \<Rightarrow> (s, HttpError code msg)
      | None \<Rightarrow>
          (case decodeCompletion ev body of
             None \<Rightarrow> (s, HttpError 400 ''invalid completion'')
           | Some (uuid, pubkey, hw) \<Rightarrow>
               if uuid = [] \<or> pubkey = [] \<or> hw = []
               then (s, HttpError 400 ''uuid, pubkey and hardware_configuration required'')
               else
                 (case lease s of
                    None \<Rightarrow> (s, HttpError 403 ''invalid, expired, or already preparing claim'')
                  | Some l \<Rightarrow>
                      if \<not> claim_valid (At ev) token l \<or> CompletedAt l \<noteq> None \<or> PreparingAt l \<noteq> None
                      then (s, HttpError 403 ''invalid, expired, or already preparing claim'')
                      else
                        (case ReportError ev of
                           Some err \<Rightarrow> (s, HttpError 500 err)
                         | None \<Rightarrow>
                             (let c = \<lparr>CompUUID = uuid, Pubkey = pubkey, Hardware = hw, CompHost = LeaseHost l,
                                       CompProfile = LeaseProfile l, CompAt = At ev\<rparr>;
                                  s1 = s\<lparr>reports := AList.update (LeaseHost l) c (reports s)\<rparr>;
                                  l1 = l\<lparr>PreparingAt := Some (At ev), PrepareError := []\<rparr>
                              in case save_state ev (s1\<lparr>lease := Some l1\<rparr>) of
                                   (Some err, s2) \<Rightarrow> (s2\<lparr>lease := Some (l1\<lparr>PreparingAt := None\<rparr>)\<rparr>, HttpError 500 err)
                                 | (None, s2) \<Rightarrow> (s2, Preparing))))))"

text \<open>
  The end of \<open>prepare\<close> for the claim with the token: the error of the command, if any. With no
  command configured it is an error at once.
\<close>

definition prepare :: "Event \<Rightarrow> string \<Rightarrow> string option \<Rightarrow> Server \<Rightarrow> Server" where
  "prepare ev token cmdError s =
     (let prepareErr = (if \<not> prepareConfigured s then Some ''PREPARE_COMMAND is not configured''
            else map_option (\<lambda>e. ''prepare failed: '' @ e) cmdError)
      in case lease s of
           None \<Rightarrow> s
         | Some l \<Rightarrow>
             if ClaimToken l \<noteq> token then s
             else
               (let l1 = l\<lparr>PreparingAt := None\<rparr>;
                    l2 = (case prepareErr of
                            Some err \<Rightarrow> l1\<lparr>PrepareError := err\<rparr>
                          | None \<Rightarrow> l1\<lparr>CompletedAt := Some (At ev), PrepareError := []\<rparr>)
                in snd (save_state ev (s\<lparr>lease := Some l2\<rparr>))))"

text \<open>\<open>newServer\<close> on a state file: one that cannot be read or decoded counts as no lease.\<close>

definition newServer :: "Lease option FileLoad \<Rightarrow> Lease option" where
  "newServer file = (case file of Absent _ \<Rightarrow> None | Corrupt _ \<Rightarrow> None | Loaded l \<Rightarrow> l)"

section \<open>Runs\<close>

datatype Req = Arm string | Disarm string | Activate string | Bootstrap string | Complete string string
  | Prepared string "string option" | Archive string | Restart

text \<open>
  One event: a request to a handler, the end of a preparation, the appearance of an archive
  (which the prepare command writes), or a restart of the server from its state file.
\<close>

definition handle :: "Event \<Rightarrow> Req \<Rightarrow> Server \<Rightarrow> Server \<times> Reply" where
  "handle ev req s =
     (case req of
        Arm host \<Rightarrow> arm ev host s
      | Disarm host \<Rightarrow> disarm ev host s
      | Activate body \<Rightarrow> activate ev body s
      | Bootstrap token \<Rightarrow> bootstrap ev token s
      | Complete token body \<Rightarrow> complete ev token body s
      | Prepared token err \<Rightarrow> (prepare ev token err s, NoReply)
      | Archive host \<Rightarrow> (s\<lparr>archives := host # archives s\<rparr>, NoReply)
      | Restart \<Rightarrow> (s\<lparr>lease := newServer (Loaded (stateFile s))\<rparr>, NoReply))"

definition arms :: "Req \<Rightarrow> Reply \<Rightarrow> nat" where
  "arms req ans = (case req of
     Arm _ \<Rightarrow> (case ans of HttpError code _ \<Rightarrow> if code = 500 then 1 else 0 | _ \<Rightarrow> 1) | _ \<Rightarrow> 0)"

definition claims :: "Reply \<Rightarrow> nat" where
  "claims ans = (case ans of Claimed _ _ _ _ \<Rightarrow> 1 | _ \<Rightarrow> 0)"

text \<open>
  The preparations that run beside the handlers, by the token of their claim: an accepted report
  starts one, and a restart ends them all.
\<close>

definition may_happen :: "string list \<Rightarrow> Req \<Rightarrow> bool" where
  "may_happen running req = (case req of Prepared token _ \<Rightarrow> token \<in> set running | _ \<Rightarrow> True)"

definition still_running :: "Req \<Rightarrow> Reply \<Rightarrow> string list \<Rightarrow> string list" where
  "still_running req ans running =
     (case req of
        Complete token _ \<Rightarrow> if ans = Preparing then token # running else running
      | Prepared token _ \<Rightarrow> remove1 token running
      | Restart \<Rightarrow> []
      | _ \<Rightarrow> running)"

definition token_ok :: "Event \<Rightarrow> bool" where
  "token_ok ev = (case RandomToken ev of None \<Rightarrow> True | Some t \<Rightarrow> length t = 64)"

text \<open>
  \<open>prov_runs s0 a c running s\<close>: a run from \<open>s0\<close> to \<open>s\<close> in which \<open>a\<close> requests armed a
  lease and \<open>c\<close> claims were granted, and the random source gives 64 digits when it does not fail.
\<close>

inductive prov_runs :: "Server \<Rightarrow> nat \<Rightarrow> nat \<Rightarrow> string list \<Rightarrow> Server \<Rightarrow> bool" for s0 where
  prov_start: "prov_runs s0 0 0 [] s0"
| prov_step: "prov_runs s0 a c running s \<Longrightarrow> token_ok ev \<Longrightarrow> may_happen running req
    \<Longrightarrow> handle ev req s = (s', ans)
    \<Longrightarrow> prov_runs s0 (a + arms req ans) (c + claims ans) (still_running req ans running) s'"

section \<open>Invariants\<close>

text \<open>
  A lease is in one stage at a time: armed, claimed, preparing or failed, completed; a claim has
  a token and ends two hours after it was granted, which was before the lease ran out.
\<close>

definition lease_ok :: "Lease \<Rightarrow> bool" where
  "lease_ok l \<longleftrightarrow> ExpiresAt l = ArmedAt l + 5 * Minute
     \<and> (case ClaimedAt l of
          None \<Rightarrow> ClaimToken l = [] \<and> ClaimExpiresAt l = None \<and> PreparingAt l = None \<and> CompletedAt l = None
            \<and> PrepareError l = [] 
        | Some t \<Rightarrow> length (ClaimToken l) = 64 \<and> ClaimExpiresAt l = Some (t + 2 * Hour) \<and> t < ExpiresAt l)
     \<and> (PreparingAt l = None \<or> CompletedAt l = None)"

definition leases_ok :: "Server \<Rightarrow> bool" where
  "leases_ok s \<longleftrightarrow> pred_option lease_ok (lease s) \<and> pred_option lease_ok (stateFile s)"

definition unclaimed :: "Lease option \<Rightarrow> bool" where
  "unclaimed l \<longleftrightarrow> (case l of None \<Rightarrow> False | Some x \<Rightarrow> ClaimedAt x = None)"

text \<open>The claims that can still be granted without arming again: one, if a lease is unclaimed.\<close>

definition claimable :: "Server \<Rightarrow> nat" where
  "claimable s = (if unclaimed (lease s) \<or> unclaimed (stateFile s) then 1 else 0)"

lemma claimable_simps [simp]: "claimable (s\<lparr>archives := x\<rparr>) = claimable s" "claimable (s\<lparr>reports := y\<rparr>) = claimable s"
  by (simp_all add: claimable_def)

lemma claimable_1: "claimable s \<le> 1"
  by (simp add: claimable_def)

lemma lease_ok_archives [simp]: "leases_ok (s\<lparr>archives := x\<rparr>) = leases_ok s" "leases_ok (s\<lparr>reports := y\<rparr>) = leases_ok s"
  by (simp_all add: leases_ok_def)

lemma leases_ok_lease: "leases_ok s \<Longrightarrow> lease s = Some l \<Longrightarrow> lease_ok l"
  by (simp add: leases_ok_def)

lemma leases_ok_save:
  assumes "leases_ok s" "pred_option lease_ok l"
  shows "leases_ok (snd (save_state ev (s\<lparr>lease := l\<rparr>)))"
  using assms by (auto simp: leases_ok_def save_state_def split: option.splits)

lemma human_code: "human s ev m = Some (code, msg) \<Longrightarrow> code \<noteq> 500"
  by (auto simp: human_def split: if_splits)

lemma new_lease_ok: "lease_ok (new_lease ev t)" "ClaimedAt (new_lease ev t) = None"
  by (simp_all add: new_lease_def lease_ok_def)

lemma arm_target:
  assumes "human s ev True = None" "find (\<lambda>t. TargetHost t = host) (targets s) = Some t"
    and "s1 = s\<lparr>archives := removeAll (TargetHost t) (archives s), reports := AList.delete (TargetHost t) (reports s)\<rparr>"
  shows "arm ev host s = (snd (save_state ev (s1\<lparr>lease := Some (new_lease ev t)\<rparr>)),
     (case SaveError ev of Some err \<Rightarrow> HttpError 500 err | None \<Rightarrow> SeeOther ''/''))"
  by (simp add: arm_def Let_def save_state_def assms new_lease_def split: option.splits)

lemma arm_outcome:
  assumes "arm ev host s = (s', ans)"
  obtains code msg where "s' = s" "ans = HttpError code msg" "code \<noteq> 500"
  | l s1 where "lease_ok l" "s' = snd (save_state ev (s1\<lparr>lease := Some l\<rparr>))" "stateFile s1 = stateFile s"
      "ClaimedAt l = None" "ans = SeeOther ''/'' \<or> (\<exists>err. ans = HttpError 500 err)"
proof (cases "human s ev True")
  case (Some x)
  then show thesis using assms that(1) human_code by (cases x) (auto simp: arm_def)
next
  case h: None
  show thesis
  proof (cases "find (\<lambda>t. TargetHost t = host) (targets s)")
    case None
    then show thesis using assms that(1)[of 404] h by (auto simp: arm_def)
  next
    case (Some t)
    let ?s1 = "s\<lparr>archives := removeAll (TargetHost t) (archives s), reports := AList.delete (TargetHost t) (reports s)\<rparr>"
    note e = arm_target[OF h Some refl, unfolded assms prod.inject]
    from e have "ans = SeeOther ''/'' \<or> (\<exists>err. ans = HttpError 500 err)" by (auto split: option.splits)
    moreover have "s' = snd (save_state ev (?s1\<lparr>lease := Some (new_lease ev t)\<rparr>))" "stateFile ?s1 = stateFile s"
      using e by simp_all
    ultimately show thesis using that(2)[OF new_lease_ok(1) _ _ new_lease_ok(2)] by blast
  qed
qed

lemma arm_ok: "leases_ok s \<Longrightarrow> arm ev host s = (s', ans) \<Longrightarrow> leases_ok s'"
  apply (erule arm_outcome)
   apply simp
  apply (simp add: leases_ok_def save_state_def split: option.splits)
  done

lemma disarm_ok: "leases_ok s \<Longrightarrow> disarm ev host s = (s', ans) \<Longrightarrow> leases_ok s'"
  using leases_ok_save[of s None ev] by (auto simp: disarm_def split: option.splits if_splits)

lemma activate_outcome:
  assumes "activate ev body s = (s', ans)"
  obtains "s' = s" "claims ans = 0"
  | l token where "lease s = Some l" "RandomToken ev = Some token" "ClaimedAt l = None" "At ev < ExpiresAt l"
     "s' = snd (save_state ev (s\<lparr>lease := Some (l\<lparr>ClaimedAt := Some (At ev), ClaimToken := token,
              ClaimExpiresAt := Some (At ev + 2 * Hour), DMIUUID := activation_uuid body\<rparr>)\<rparr>))"
     "claims ans = (if SaveError ev = None then 1 else 0)"
  using assms unfolding activate_def
  by (auto simp: Let_def claims_def save_state_def split: option.splits prod.splits if_splits)

lemma activate_ok:
  assumes "leases_ok s" "token_ok ev" "activate ev body s = (s', ans)"
  shows "leases_ok s'"
  using assms(3)
proof (cases rule: activate_outcome)
  case (2 l token)
  then show ?thesis
    using assms leases_ok_lease[OF assms(1)] unfolding 2(5)
    by (intro leases_ok_save) (auto simp: lease_ok_def token_ok_def)
qed (simp add: assms)

lemma bootstrap_same: "fst (bootstrap ev token s) = s"
  by (simp add: bootstrap_def split: option.splits)

definition accepts_report :: "Event \<Rightarrow> string \<Rightarrow> string \<Rightarrow> Server \<Rightarrow> bool" where
  "accepts_report ev token body s \<longleftrightarrow> machine s ev token = None
     \<and> (\<exists>u p h. decodeCompletion ev body = Some (u, p, h) \<and> u \<noteq> [] \<and> p \<noteq> [] \<and> h \<noteq> [])
     \<and> (\<exists>l. lease s = Some l \<and> claim_valid (At ev) token l \<and> CompletedAt l = None \<and> PreparingAt l = None)"

lemma complete_refused:
  assumes "\<not> accepts_report ev token body s"
  shows "fst (complete ev token body s) = s \<and> (\<exists>code msg. snd (complete ev token body s) = HttpError code msg)"
  using assms unfolding accepts_report_def complete_def
  by (cases "machine s ev token"; cases "decodeCompletion ev body"; cases "lease s") auto

lemma complete_accepted:
  assumes "accepts_report ev token body s" "lease s = Some l"
  obtains r where "complete ev token body s =
    (case ReportError ev of
       Some err \<Rightarrow> (s, HttpError 500 err)
     | None \<Rightarrow>
         (case SaveError ev of
            Some err \<Rightarrow> (s\<lparr>reports := r, lease := Some (l\<lparr>PrepareError := []\<rparr>)\<rparr>, HttpError 500 err)
          | None \<Rightarrow> (let l' = Some (l\<lparr>PreparingAt := Some (At ev), PrepareError := []\<rparr>)
                     in s\<lparr>reports := r, lease := l', stateFile := l'\<rparr>, Preparing)))"
proof -
  from assms obtain u p h where d: "machine s ev token = None" "decodeCompletion ev body = Some (u, p, h)"
      "u \<noteq> []" "p \<noteq> []" "h \<noteq> []" "claim_valid (At ev) token l" "CompletedAt l = None" "PreparingAt l = None"
    unfolding accepts_report_def by auto
  have e: "l\<lparr>PreparingAt := None, PrepareError := []\<rparr> = l\<lparr>PrepareError := []\<rparr>" using d(8) by (cases l) simp
  let ?c = "\<lparr>CompUUID = u, Pubkey = p, Hardware = h, CompHost = LeaseHost l, CompProfile = LeaseProfile l, CompAt = At ev\<rparr>"
  show thesis
    by (rule that[of "AList.update (LeaseHost l) ?c (reports s)"])
       (simp add: complete_def d assms(2) save_state_def Let_def e split: option.splits)
qed

lemma complete_outcome:
  assumes "complete ev token body s = (s', ans)"
  obtains "s' = s" "ans \<noteq> Preparing"
  | l r where "lease s = Some l" "claim_valid (At ev) token l" "CompletedAt l = None" "PreparingAt l = None" "ans \<noteq> Preparing"
      "s' = s\<lparr>reports := r, lease := Some (l\<lparr>PrepareError := []\<rparr>)\<rparr>"
  | l r where "lease s = Some l" "claim_valid (At ev) token l" "CompletedAt l = None" "PreparingAt l = None"
      "ans = Preparing" "s' = (let l' = Some (l\<lparr>PreparingAt := Some (At ev), PrepareError := []\<rparr>)
         in s\<lparr>reports := r, lease := l', stateFile := l'\<rparr>)"
proof (cases "accepts_report ev token body s")
  case False
  then show thesis using that(1) complete_refused[OF False] assms by auto
next
  case True
  then obtain l where l: "lease s = Some l" "claim_valid (At ev) token l" "CompletedAt l = None" "PreparingAt l = None"
    by (auto simp: accepts_report_def)
  from complete_accepted[OF True l(1)] obtain r where "(s', ans) =
    (case ReportError ev of
       Some err \<Rightarrow> (s, HttpError 500 err)
     | None \<Rightarrow>
         (case SaveError ev of
            Some err \<Rightarrow> (s\<lparr>reports := r, lease := Some (l\<lparr>PrepareError := []\<rparr>)\<rparr>, HttpError 500 err)
          | None \<Rightarrow> (let l' = Some (l\<lparr>PreparingAt := Some (At ev), PrepareError := []\<rparr>)
                     in s\<lparr>reports := r, lease := l', stateFile := l'\<rparr>, Preparing)))"
    using assms by metis
  then show thesis
    using that(1) that(2)[OF l, of r] that(3)[OF l, of r] by (cases "ReportError ev"; cases "SaveError ev") auto
qed

lemma complete_no_claim:
  assumes "complete ev token body s = (s', ans)"
  shows "claims ans = 0"
proof (cases "accepts_report ev token body s")
  case False
  then show ?thesis using complete_refused[OF False] assms by (auto simp: claims_def)
next
  case True
  then obtain l where l: "lease s = Some l" by (auto simp: accepts_report_def)
  show ?thesis
    by (rule complete_accepted[OF True l]) (use assms in \<open>auto simp: claims_def Let_def split: option.splits\<close>)
qed

lemma claim_token_64: "lease_ok l \<Longrightarrow> claim_valid now token l \<Longrightarrow> length token = 64"
  by (auto simp: lease_ok_def claim_valid_def)

lemma complete_ok:
  assumes "leases_ok s" "complete ev token body s = (s', ans)"
  shows "leases_ok s' \<and> (ans = Preparing \<longrightarrow> length token = 64)"
  using assms(2)
proof (cases rule: complete_outcome)
  case (2 l r)
  then show ?thesis using leases_ok_lease[OF assms(1)] assms(1)
    by (auto simp: leases_ok_def lease_ok_def claim_valid_def split: option.splits)
next
  case (3 l r)
  then show ?thesis using leases_ok_lease[OF assms(1)] claim_token_64
    by (auto simp: leases_ok_def lease_ok_def claim_valid_def Let_def split: option.splits)
qed (simp add: assms)

lemma prepare_outcome:
  obtains "prepare ev token err s = s"
  | l c e where "lease s = Some l" "ClaimToken l = token"
      "prepare ev token err s
         = snd (save_state ev (s\<lparr>lease := Some (l\<lparr>PreparingAt := None, CompletedAt := c, PrepareError := e\<rparr>)\<rparr>))"
proof (cases "lease s")
  case None
  then show thesis using that(1) by (simp add: prepare_def Let_def)
next
  case (Some l)
  show thesis
  proof (cases "ClaimToken l = token")
    case False
    then show thesis using that(1) Some by (simp add: prepare_def Let_def)
  next
    case t: True
    define pe where "pe = (if \<not> prepareConfigured s then Some ''PREPARE_COMMAND is not configured''
            else map_option (\<lambda>e. ''prepare failed: '' @ e) err)"
    have p: "prepare ev token err s = snd (save_state ev (s\<lparr>lease := Some (case pe of
           Some x \<Rightarrow> l\<lparr>PreparingAt := None, PrepareError := x\<rparr>
         | None \<Rightarrow> l\<lparr>PreparingAt := None, CompletedAt := Some (At ev), PrepareError := []\<rparr>)\<rparr>))"
      using Some t by (simp add: prepare_def Let_def pe_def cong: option.case_cong)
    have e: "l\<lparr>PreparingAt := None, PrepareError := x\<rparr> = l\<lparr>PreparingAt := None, CompletedAt := CompletedAt l, PrepareError := x\<rparr>"
      for x by (cases l) simp
    show thesis
      by (cases pe) (use p e that(2)[OF Some t] in \<open>metis option.simps(4,5)\<close>)+
  qed
qed

lemma prepare_ok:
  assumes "leases_ok s" "token \<noteq> []"
  shows "leases_ok (prepare ev token err s)"
proof (cases rule: prepare_outcome[of ev token err s])
  case (2 l c e)
  have "lease_ok (l\<lparr>PreparingAt := None, CompletedAt := c, PrepareError := e\<rparr>)"
    using leases_ok_lease[OF assms(1) 2(1)] 2(2) assms(2) by (auto simp: lease_ok_def split: option.splits)
  then show ?thesis unfolding 2(3) by (intro leases_ok_save[OF assms(1)]) simp
qed (simp add: assms)

lemma handle_ok:
  assumes "leases_ok s" "token_ok ev" "handle ev req s = (s', ans)"
    and "may_happen running req" "\<forall>t \<in> set running. length t = 64"
  shows "leases_ok s' \<and> (\<forall>t \<in> set (still_running req ans running). length t = 64)"
proof (cases req)
  case (Arm host)
  then show ?thesis using assms arm_ok by (auto simp: handle_def still_running_def)
next
  case (Disarm host)
  then show ?thesis using assms disarm_ok by (auto simp: handle_def still_running_def)
next
  case (Activate body)
  then show ?thesis using assms activate_ok[OF assms(1,2)] by (auto simp: handle_def still_running_def)
next
  case (Bootstrap token)
  then show ?thesis using assms bootstrap_same[of ev token s] by (auto simp: handle_def still_running_def)
next
  case (Complete token body)
  then show ?thesis using assms complete_ok[OF assms(1), of ev token body s' ans] by (auto simp: handle_def still_running_def)
next
  case (Prepared token err)
  then have "token \<noteq> []" using assms(4,5) by (auto simp: may_happen_def)
  then show ?thesis using assms(3,5) Prepared prepare_ok[OF assms(1)]
    by (auto simp: handle_def still_running_def dest: notin_set_remove1)
next
  case (Archive host)
  then show ?thesis using assms by (auto simp: handle_def still_running_def)
next
  case Restart
  then show ?thesis using assms by (auto simp: handle_def still_running_def leases_ok_def newServer_def)
qed

lemma runs_ok:
  assumes "prov_runs s0 a c running s" "leases_ok s0"
  shows "leases_ok s \<and> (\<forall>t \<in> set running. length t = 64)"
  using assms(1)
proof (induction rule: prov_runs.induct)
  case (prov_step a c running s ev req s' ans)
  then show ?case using handle_ok[of s ev req s' ans running] by blast
qed (simp add: assms(2))

subsection \<open>Counting claims\<close>

lemma prepare_claimable: "claimable (prepare ev token err s) \<le> claimable s"
  by (cases rule: prepare_outcome[of ev token err s])
     (auto simp: claimable_def unclaimed_def save_state_def split: option.splits)

lemma bootstrap_no_claim: "claims (snd (bootstrap ev token s)) = 0"
  by (auto simp: bootstrap_def claims_def split: option.splits)

lemma complete_claimable: "complete ev token body s = (s', ans) \<Longrightarrow> claimable s' \<le> claimable s"
  by (cases rule: complete_outcome) (auto simp: claimable_def unclaimed_def claim_valid_def Let_def)

lemma handle_claimable:
  assumes "handle ev req s = (s', ans)"
  shows "claims ans + claimable s' \<le> arms req ans + claimable s"
proof (cases req)
  case (Arm host)
  then have "arm ev host s = (s', ans)" using assms by (simp add: handle_def)
  then show ?thesis
  proof (cases rule: arm_outcome)
    case (2 l s1)
    then have "claims ans = 0" "arms req ans = 1" by (auto simp: claims_def arms_def Arm)
    then show ?thesis using claimable_1[of s'] by simp
  qed (simp add: claims_def)
next
  case (Disarm host)
  then show ?thesis using assms
    by (auto simp: handle_def disarm_def claims_def claimable_def unclaimed_def save_state_def split: option.splits if_splits)
next
  case (Activate body)
  then have "activate ev body s = (s', ans)" using assms by (simp add: handle_def)
  then show ?thesis
  proof (cases rule: activate_outcome)
    case (2 l token)
    have "claimable s = 1" using 2 by (simp add: claimable_def unclaimed_def)
    then show ?thesis using 2(6) unfolding 2(5)
      by (auto simp: claimable_def save_state_def unclaimed_def split: option.splits)
  qed simp
next
  case (Bootstrap token)
  then show ?thesis using assms bootstrap_same[of ev token s] bootstrap_no_claim[of ev token s] by (auto simp: handle_def)
next
  case (Complete token body)
  then have "complete ev token body s = (s', ans)" using assms by (simp add: handle_def)
  from complete_claimable[OF this] complete_no_claim[OF this] show ?thesis by simp
next
  case (Prepared token err)
  then show ?thesis using assms prepare_claimable[of ev token err s] by (auto simp: handle_def claims_def)
next
  case (Archive host)
  then show ?thesis using assms by (auto simp: handle_def claims_def)
next
  case Restart
  then show ?thesis using assms by (auto simp: handle_def claims_def claimable_def newServer_def)
qed

lemma runs_claims: "prov_runs s0 a c running s \<Longrightarrow> c + claimable s \<le> a + claimable s0"
proof (induction rule: prov_runs.induct)
  case (prov_step a c running s ev req s' ans)
  then show ?case using handle_claimable[OF prov_step.hyps(4)] by simp
qed simp

lemma bootstrap_served:
  "snd (bootstrap ev token s) = ServeArchive h \<longleftrightarrow>
     machine s ev token = None \<and> h \<in> set (archives s)
       \<and> (\<exists>l. lease s = Some l \<and> LeaseHost l = h \<and> claim_valid (At ev) token l)"
  by (cases "lease s") (auto simp: bootstrap_def split: option.splits)

lemma machine_claim: "machine s ev token = None \<Longrightarrow> token \<noteq> [] \<Longrightarrow> TrimPrefix (Authorization ev) ''Bearer '' = token"
  by (auto simp: machine_def Let_def split: if_splits)

section \<open>Properties\<close>

text \<open>
  C8: A lease is good for one claim. In every run of the server, whatever the order of requests,
  preparations and restarts, and whichever writes of the state file fail, the claims granted are
  at most the requests that armed a lease, and one more if the run began with an unclaimed lease
  in memory or in the file.
\<close>

theorem granted_claims:
  assumes "prov_runs s0 a c running s"
  shows "c \<le> a + claimable s0"
  using runs_claims[OF assms] by simp

text \<open>
  C23: An archive is sent only on a live claim. In every state the server can reach from a good
  one, an archive is sent exactly when the path's token is the token of the lease in memory,
  stands in the Authorization header (the fleet's secret does not do), was claimed less than two
  hours ago by a lease that had been armed less than five minutes before, and the archive of the
  lease's own host is there; the token has 64 digits, so an empty one never passes.
\<close>

theorem archive_needs_claim:
  assumes "prov_runs s0 a c running s" "leases_ok s0"
  shows "snd (bootstrap ev token s) = ServeArchive h \<longleftrightarrow>
    length token = 64 \<and> TrimPrefix (Authorization ev) ''Bearer '' = token \<and> h \<in> set (archives s)
      \<and> (\<exists>l t. lease s = Some l \<and> LeaseHost l = h \<and> ClaimToken l = token \<and> ClaimedAt l = Some t
           \<and> t < ArmedAt l + 5 * Minute \<and> At ev < t + 2 * Hour)"
    (is "?L \<longleftrightarrow> ?R")
proof
  have ok: "leases_ok s" using runs_ok[OF assms] by simp
  {
    assume ?L
    then obtain l where l: "lease s = Some l" "LeaseHost l = h" "claim_valid (At ev) token l"
        and m: "machine s ev token = None" "h \<in> set (archives s)"
      unfolding bootstrap_served by blast
    note lo = leases_ok_lease[OF ok l(1)]
    have t: "length token = 64" using claim_token_64[OF lo l(3)] .
    moreover have "TrimPrefix (Authorization ev) ''Bearer '' = token"
      using machine_claim[OF m(1)] t by (cases token) auto
    ultimately show ?R using l m(2) lo by (auto simp: claim_valid_def lease_ok_def split: option.splits)
  next
    assume r: ?R
    then obtain l t where l: "lease s = Some l" "LeaseHost l = h" "ClaimToken l = token" "ClaimedAt l = Some t"
        "At ev < t + 2 * Hour" by auto
    have "claim_valid (At ev) token l"
      using leases_ok_lease[OF ok l(1)] l by (simp add: claim_valid_def lease_ok_def)
    moreover have "machine s ev token = None" using r by (auto simp: machine_def Let_def)
    ultimately show ?L unfolding bootstrap_served using r l(1,2) by blast
  }
qed

text \<open>
  A claim that cannot be saved is lost. When the state file cannot be written, \<open>activate\<close>
  answers 500 and the machine is told no token, yet the lease in memory stays claimed: until a
  person arms or disarms again (or the server restarts), every further activation is refused with
  409, although the lease has been granted to no one.
\<close>

theorem unsaved_claim:
  assumes "machine s ev [] = None" "lease s = Some l" "At ev < ExpiresAt l" "ClaimedAt l = None"
    and "RandomToken ev = Some token" "SaveError ev = Some err"
    and "machine s ev' [] = None"
  shows "snd (activate ev body s) = HttpError 500 err
    \<and> stateFile (fst (activate ev body s)) = stateFile s
    \<and> (\<exists>msg. activate ev' body' (fst (activate ev body s)) = (fst (activate ev body s), HttpError 409 msg))"
  using assms by (auto simp: activate_def Let_def save_state_def machine_def split: if_splits)

section \<open>Witnesses\<close>

definition demo_server :: Server where
  "demo_server = \<lparr>targets = [\<lparr>TargetHost = ''joker'', TargetProfile = ''beelink''\<rparr>], lease = None, stateFile = None,
     secret = ''fleet'', requireUser = True, prepareConfigured = True, reports = [], archives = []\<rparr>"

definition demo_event :: "gotime \<Rightarrow> string \<Rightarrow> Event" where
  "demo_event now auth = \<lparr>At = now, ProxyUser = ''kevin'', OriginHeader = [], RequestHost = ''foundry'',
     Authorization = auth, SaveError = None, ReportError = None, RandomToken = Some (replicate 64 CHR ''a''),
     TimeReads = (\<lambda>_. False)\<rparr>"

definition demo_lease :: Lease where
  "demo_lease = new_lease (demo_event 0 []) \<lparr>TargetHost = ''joker'', TargetProfile = ''beelink''\<rparr>"

definition demo_claimed :: Lease where
  "demo_claimed = demo_lease\<lparr>ClaimedAt := Some Minute, ClaimToken := replicate 64 CHR ''a'',
     ClaimExpiresAt := Some (Minute + 2 * Hour)\<rparr>"

lemma demo_arm: "handle (demo_event 0 []) (Arm ''joker'') demo_server
    = (demo_server\<lparr>lease := Some demo_lease, stateFile := Some demo_lease\<rparr>, SeeOther ''/'')"
  by (simp add: handle_def arm_def human_def demo_server_def demo_event_def demo_lease_def new_lease_def save_state_def Let_def)

lemma demo_activate: "handle (demo_event Minute ''Bearer fleet'') (Activate [])
      (demo_server\<lparr>lease := Some demo_lease, stateFile := Some demo_lease\<rparr>)
    = (demo_server\<lparr>lease := Some demo_claimed, stateFile := Some demo_claimed\<rparr>,
       Claimed ''joker'' ''beelink'' (replicate 64 CHR ''a'') (Minute + 2 * Hour))"
  by code_simp

lemma demo_archive: "handle (demo_event Minute []) (Archive ''joker'')
      (demo_server\<lparr>lease := Some demo_claimed, stateFile := Some demo_claimed\<rparr>)
    = (demo_server\<lparr>lease := Some demo_claimed, stateFile := Some demo_claimed, archives := [''joker'']\<rparr>, NoReply)"
  by (simp add: handle_def demo_server_def)

lemma demo_run: "prov_runs demo_server 1 1 []
    (demo_server\<lparr>lease := Some demo_claimed, stateFile := Some demo_claimed, archives := [''joker'']\<rparr>)"
proof -
  have t: "token_ok (demo_event now auth)" for now auth by (simp add: token_ok_def demo_event_def)
  note a = prov_step[OF prov_start t _ demo_arm, simplified may_happen_def, simplified]
  note b = prov_step[OF a t _ demo_activate, simplified may_happen_def, simplified]
  note c = prov_step[OF b t _ demo_archive, simplified may_happen_def, simplified]
  show ?thesis using c by (simp add: arms_def claims_def still_running_def)
qed

theorem granted_claims_witness:
  "prov_runs demo_server 1 1 []
     (demo_server\<lparr>lease := Some demo_claimed, stateFile := Some demo_claimed, archives := [''joker'']\<rparr>)
   \<and> (1::nat) \<le> 1 + claimable demo_server"
  using demo_run granted_claims[OF demo_run] by blast

theorem archive_needs_claim_witness:
  "snd (bootstrap (demo_event (60 * Minute) (''Bearer '' @ replicate 64 CHR ''a'')) (replicate 64 CHR ''a'')
     (demo_server\<lparr>lease := Some demo_claimed, stateFile := Some demo_claimed, archives := [''joker'']\<rparr>)) = ServeArchive ''joker''"
proof -
  have "leases_ok demo_server" by (simp add: leases_ok_def demo_server_def)
  note p = archive_needs_claim[OF demo_run this]
  show ?thesis unfolding p
    by (simp add: demo_event_def demo_claimed_def demo_lease_def new_lease_def TrimPrefix_def HasPrefix_def)
qed

theorem unsaved_claim_witness:
  "let s = demo_server\<lparr>lease := Some demo_lease, stateFile := Some demo_lease\<rparr>;
       ev = demo_event Minute ''Bearer fleet''\<lparr>SaveError := Some ''no space''\<rparr>;
       s' = fst (activate ev [] s)
   in snd (activate ev [] s) = HttpError 500 ''no space''
      \<and> (\<exists>msg. activate (demo_event (2 * Minute) ''Bearer fleet'') [] s' = (s', HttpError 409 msg))"
proof -
  let ?s = "demo_server\<lparr>lease := Some demo_lease, stateFile := Some demo_lease\<rparr>"
  let ?ev = "(demo_event Minute ''Bearer fleet'')\<lparr>SaveError := Some ''no space''\<rparr>"
  have "machine ?s ?ev [] = None" "lease ?s = Some demo_lease" "At ?ev < ExpiresAt demo_lease" "ClaimedAt demo_lease = None"
     "RandomToken ?ev = Some (replicate 64 CHR ''a'')" "SaveError ?ev = Some ''no space''"
     "machine ?s (demo_event (2 * Minute) ''Bearer fleet'') [] = None"
    by (simp_all add: demo_server_def demo_event_def demo_lease_def new_lease_def machine_def Let_def TrimPrefix_def HasPrefix_def)
  from unsaved_claim[OF this, of "[]" "[]"] show ?thesis unfolding Let_def by blast
qed

end
