(* ===== verification/Provisioner_Files.thy ===== *)
theory Provisioner_Files
  imports Provisioner Signed_Token
begin

text \<open>
  \<open>atomicWrite\<close> of \<open>pkgs/provisioner/main.go\<close>, call by call: the file under its own name is
  at every moment the old one or the whole new one, so that a crash between two calls, and a power
  failure that loses what was not synced, cannot leave half a state file. \<open>save\<close> rests on it.
\<close>

section \<open>The calls\<close>

text \<open>A file by its path: its contents, and whether they are known to be on the disk.\<close>

type_synonym Files = "(string \<times> bool) gomap"

record WriteEnv =
  MkdirError :: "string option"
  CreateTemp :: "string + string"         \<comment> \<open>the error, or the new name\<close>
  ChmodError :: "string option"
  WriteFails :: "(string \<times> nat) option"   \<comment> \<open>the error, and how many bytes were written before it\<close>
  SyncError :: "string option"
  CloseError :: "string option"
  RenameError :: "string option"
  RemoveFails :: bool

text \<open>
  The files after each call that changes one, in order, and the error that is returned. The
  deferred removal of the temporary name finds nothing after the rename.
\<close>

definition first_error :: "string option \<Rightarrow> string option \<Rightarrow> string option" where
  "first_error e e' = (case e of None \<Rightarrow> e' | Some _ \<Rightarrow> e)"

definition write_temp :: "WriteEnv \<Rightarrow> string \<Rightarrow> string \<Rightarrow> Files \<Rightarrow> Files \<times> string option" where
  "write_temp env name b fs =
     (case ChmodError env of
        Some err \<Rightarrow> (fs, Some err)
      | None \<Rightarrow>
          (case WriteFails env of
             Some (err, n) \<Rightarrow> (AList.update name (take n b, False) fs, Some err)
           | None \<Rightarrow> (AList.update name (b, False) fs, None)))"

definition sync_temp :: "WriteEnv \<Rightarrow> string \<Rightarrow> Files \<Rightarrow> string option \<Rightarrow> Files \<times> string option" where
  "sync_temp env name fs err =
     (case err of
        Some _ \<Rightarrow> (fs, err)
      | None \<Rightarrow>
          (case SyncError env of
             Some e \<Rightarrow> (fs, Some e)
           | None \<Rightarrow> (map (\<lambda>(k, c, s). (k, c, s \<or> k = name)) fs, None)))"

definition remove_temp :: "WriteEnv \<Rightarrow> string \<Rightarrow> Files \<Rightarrow> Files" where
  "remove_temp env name fs = (if RemoveFails env then fs else AList.delete name fs)"

definition rename_temp :: "WriteEnv \<Rightarrow> string \<Rightarrow> string \<Rightarrow> Files \<Rightarrow> Files \<times> string option" where
  "rename_temp env name path fs =
     (case RenameError env of
        Some err \<Rightarrow> (fs, Some err)
      | None \<Rightarrow>
          (case map_of fs name of
             None \<Rightarrow> (fs, Some ''rename'')
           | Some file \<Rightarrow> (AList.update path file (AList.delete name fs), None)))"

definition atomicWrite :: "WriteEnv \<Rightarrow> string \<Rightarrow> string \<Rightarrow> Files \<Rightarrow> Files list \<times> string option" where
  "atomicWrite env path b fs =
     (case MkdirError env of
        Some err \<Rightarrow> ([], Some err)
      | None \<Rightarrow>
          (case CreateTemp env of
             Inl err \<Rightarrow> ([], Some err)
           | Inr name \<Rightarrow>
               (let fs1 = AList.update name ([], False) fs;
                    (fs2, err2) = write_temp env name b fs1;
                    (fs3, err3) = sync_temp env name fs2 err2;
                    err4 = first_error err3 (CloseError env)
                in case err4 of
                     Some err \<Rightarrow> ([fs1, fs2, fs3, remove_temp env name fs3], Some err)
                   | None \<Rightarrow>
                       (let (fs5, err5) = rename_temp env name path fs3
                        in ([fs1, fs2, fs3, fs5, remove_temp env name fs5], err5)))))"

section \<open>What is on the disk\<close>

text \<open>
  What a file may hold after a power failure: what is synced stays, anything may stand in the
  place of the rest.
\<close>

definition may_hold :: "Files \<Rightarrow> string \<Rightarrow> string \<Rightarrow> bool" where
  "may_hold fs path c \<longleftrightarrow> (case map_of fs path of None \<Rightarrow> False | Some (d, synced) \<Rightarrow> synced \<longrightarrow> c = d)"

definition fresh_temp :: "WriteEnv \<Rightarrow> string \<Rightarrow> Files \<Rightarrow> bool" where
  "fresh_temp env path fs \<longleftrightarrow> (\<forall>name. CreateTemp env = Inr name \<longrightarrow> name \<noteq> path \<and> map_of fs name = None)"

lemma map_of_synced: "map_of (map (\<lambda>(k, c, s). (k, c, s \<or> k = name)) fs) k = map_option (\<lambda>(c, s). (c, s \<or> k = name)) (map_of fs k)"
  by (induction fs) auto

lemmas file_simps = map_of_update map_of_delete map_of_synced

lemma write_temp_files: "map_of (fst (write_temp env name b fs)) k = map_of fs k" if "k \<noteq> name"
  using that by (auto simp: write_temp_def file_simps split: option.splits)

lemma sync_temp_files: "map_of (fst (sync_temp env name fs e)) k = map_of fs k" if "k \<noteq> name"
  using that by (auto simp: sync_temp_def file_simps option.map_id split: option.splits)

lemma remove_temp_files: "map_of (remove_temp env name fs) k = (if k = name \<and> \<not> RemoveFails env then None else map_of fs k)"
  by (simp add: remove_temp_def file_simps)

lemma temp_written:
  assumes "write_temp env name b fs = (fs2, None)" "sync_temp env name fs2 None = (fs3, None)"
  shows "map_of fs3 name = Some (b, True)"
  using assms by (auto simp: write_temp_def sync_temp_def file_simps split: option.splits)

lemma atomic_unopened:
  assumes "MkdirError env \<noteq> None \<or> (\<exists>e. CreateTemp env = Inl e)" "atomicWrite env path b fs = (states, err)"
  shows "states = [] \<and> err \<noteq> None"
proof (cases "MkdirError env")
  case None
  then obtain e where "CreateTemp env = Inl e" using assms(1) by auto
  then show ?thesis using None assms(2) by (auto simp: atomicWrite_def)
next
  case (Some e)
  then have "atomicWrite env path b fs = ([], Some e)" by (simp add: atomicWrite_def)
  then show ?thesis using assms(2) by auto
qed

lemma atomic_steps:
  assumes "fresh_temp env path fs" "atomicWrite env path b fs = (states, err)"
  shows "(\<forall>st \<in> set states. map_of st path = map_of fs path \<or> map_of st path = Some (b, True))
    \<and> (err = None \<longrightarrow> states \<noteq> [] \<and> map_of (last states) path = Some (b, True))
    \<and> (err \<noteq> None \<longrightarrow> (\<forall>st \<in> set states. map_of st path = map_of fs path))
    \<and> (\<forall>st \<in> set states. \<forall>k. k \<noteq> path \<longrightarrow> CreateTemp env \<noteq> Inr k \<longrightarrow> map_of st k = map_of fs k)
    \<and> (\<not> RemoveFails env \<longrightarrow> (\<forall>k. k \<noteq> path \<longrightarrow> map_of (last (fs # states)) k = map_of fs k))"
proof (cases "MkdirError env \<noteq> None \<or> (\<exists>e. CreateTemp env = Inl e)")
  case True
  then show ?thesis using atomic_unopened [OF _ assms(2)] by auto
next
  case False
  then obtain name where name: "MkdirError env = None" "CreateTemp env = Inr name" by (cases "CreateTemp env") auto
  have n: "path \<noteq> name" "map_of fs name = None" using assms(1) name(2) by (auto simp: fresh_temp_def)
  let ?fs1 = "AList.update name ([], False) fs"
  obtain fs2 e2 where w: "write_temp env name b ?fs1 = (fs2, e2)" by (cases "write_temp env name b ?fs1")
  obtain fs3 e3 where s: "sync_temp env name fs2 e2 = (fs3, e3)" by (cases "sync_temp env name fs2 e2")
  have f1: "map_of ?fs1 k = map_of fs k" if "k \<noteq> name" for k using that by (simp add: file_simps)
  have f2: "map_of fs2 k = map_of fs k" if "k \<noteq> name" for k using write_temp_files [OF that, of env b ?fs1] f1 [OF that] by (simp add: w)
  have f3: "map_of fs3 k = map_of fs k" if "k \<noteq> name" for k using sync_temp_files [OF that, of env fs2 e2] f2 [OF that] by (simp add: s)
  show ?thesis
  proof (cases "first_error e3 (CloseError env)")
    case (Some e)
    then have r: "states = [?fs1, fs2, fs3, remove_temp env name fs3]" "err = Some e"
      using assms(2) by (simp_all add: atomicWrite_def name w s Let_def)
    show ?thesis using n f1 f2 f3 by (simp add: r name(2) remove_temp_files)
  next
    case None
    then have e: "e3 = None" by (simp add: first_error_def split: option.splits)
    then have "e2 = None" using s by (auto simp: sync_temp_def split: option.splits)
    then have t: "map_of fs3 name = Some (b, True)" using temp_written w s e by blast
    obtain fs5 e5 where m: "rename_temp env name path fs3 = (fs5, e5)" by (cases "rename_temp env name path fs3")
    have r: "states = [?fs1, fs2, fs3, fs5, remove_temp env name fs5]" "err = e5"
      using assms(2) None by (simp_all add: atomicWrite_def name w s m Let_def)
    have f5: "e5 = None \<and> fs5 = AList.update path (b, True) (AList.delete name fs3) \<or> e5 \<noteq> None \<and> fs5 = fs3"
      using m t by (auto simp: rename_temp_def split: option.splits)
    then show ?thesis
    proof
      assume k: "e5 = None \<and> fs5 = AList.update path (b, True) (AList.delete name fs3)"
      show ?thesis using n f1 f2 f3 by (simp add: r name(2) k remove_temp_files file_simps)
    next
      assume "e5 \<noteq> None \<and> fs5 = fs3"
      then obtain e where k: "e5 = Some e" "fs5 = fs3" by auto
      show ?thesis using n f1 f2 f3 by (simp add: r k name(2) remove_temp_files)
    qed
  qed
qed

text \<open>
  C17: A save is all or nothing. Written call by call, \<open>save\<close> does what the handlers rely on: it
  reports an error and the state file stands for the lease it held, or it reports none and the
  file stands for the lease in memory. Whatever the moment of a crash, and whatever was lost that
  was not synced, the file holds one of the two texts in full; no other file changes but the
  temporary one.
\<close>

theorem save_never_torn:
  assumes "fresh_temp env path fs" and "atomicWrite env path (enc (lease s)) fs = (states, err)"
    and "map_of fs path = Some (enc (stateFile s), True)" and "SaveError ev = err"
  shows "(\<forall>st \<in> set (fs # states). \<forall>c. may_hold st path c \<longrightarrow> c = enc (stateFile s) \<or> c = enc (lease s))
    \<and> (\<forall>st \<in> set states. \<forall>k. k \<noteq> path \<longrightarrow> CreateTemp env \<noteq> Inr k \<longrightarrow> map_of st k = map_of fs k)
    \<and> (case save_state ev s of (e, s') \<Rightarrow> e = err \<and> map_of (last (fs # states)) path = Some (enc (stateFile s'), True))"
proof -
  note a = atomic_steps [OF assms(1,2)]
  have "c = enc (stateFile s) \<or> c = enc (lease s)" if st: "st \<in> set (fs # states)" and h: "may_hold st path c" for st c
  proof -
    have "map_of st path = Some (enc (stateFile s), True) \<or> map_of st path = Some (enc (lease s), True)"
      using st a assms(3) by auto
    then show ?thesis using h by (auto simp: may_hold_def)
  qed
  moreover have "case save_state ev s of (e, s') \<Rightarrow> e = err \<and> map_of (last (fs # states)) path = Some (enc (stateFile s'), True)"
  proof (cases err)
    case None
    then show ?thesis using a assms(4) by (simp add: save_state_def)
  next
    case (Some e)
    then have "\<forall>st \<in> set states. map_of st path = map_of fs path" using a by simp
    then have "map_of (last (fs # states)) path = map_of fs path" by (cases states rule: rev_cases) auto
    then show ?thesis using Some assms(3,4) by (simp add: save_state_def)
  qed
  ultimately show ?thesis using a by blast
qed

section \<open>Starting from the environment\<close>

record Environment =
  Getenv :: "string \<Rightarrow> string"
  ReadFileOf :: "string \<Rightarrow> string + string"

definition getenv :: "Environment \<Rightarrow> string \<Rightarrow> string \<Rightarrow> string" where
  "getenv e k d = (if Getenv e k \<noteq> [] then Getenv e k else d)"

definition target_fields :: "(string \<times> json) list \<Rightarrow> Target option" where
  "target_fields ms =
     Option.bind (dec_field ''host'' dec_string [] ms) (\<lambda>h.
     Option.bind (dec_field ''profile'' dec_string [] ms) (\<lambda>p. Some \<lparr>TargetHost = h, TargetProfile = p\<rparr>))"

definition decode_targets :: "string \<Rightarrow> Target list option" where
  "decode_targets data = Option.bind (json_parse data) (\<lambda>v. dec_structs target_fields v [])"

text \<open>
  \<open>newServerFromEnv\<close> and \<open>newServer\<close>, with what stands in the state file and in the
  completions directory by its path.
\<close>

definition newServerFromEnv ::
  "Environment \<Rightarrow> (string \<Rightarrow> Lease option FileLoad) \<Rightarrow> (string \<Rightarrow> Completion gomap \<times> string list) \<Rightarrow> string + Server" where
  "newServerFromEnv e stateAt dirAt =
     (let registry = Getenv e ''REGISTRY_PATH''; secretPath = Getenv e ''BOOTSTRAP_SECRET_FILE'' in
      if registry = [] \<or> secretPath = [] then Inl ''REGISTRY_PATH and BOOTSTRAP_SECRET_FILE are required''
      else
        (case ReadFileOf e registry of
           Inl err \<Rightarrow> Inl err
         | Inr targetBytes \<Rightarrow>
             (case decode_targets targetBytes of
                None \<Rightarrow> Inl ''invalid registry''
              | Some ts \<Rightarrow>
                  (case ReadFileOf e secretPath of
                     Inl err \<Rightarrow> Inl err
                   | Inr sec \<Rightarrow>
                       (let l = newServer (stateAt (getenv e ''STATE_PATH'' ''/var/lib/fort-provisioner/state.json''));
                            (rs, as) = dirAt (getenv e ''COMPLETIONS_DIR'' ''/var/lib/fort-provisioner/completions'')
                        in Inr \<lparr>targets = ts, lease = l, stateFile = l, secret = TrimSpace sec,
                             requireUser = (getenv e ''REQUIRE_PROXY_USER'' ''true'' \<noteq> ''false''),
                             prepareConfigured = (Getenv e ''PREPARE_COMMAND'' \<noteq> []), reports = rs, archives = as\<rparr>)))))"

text \<open>
  A blank secret file is not refused, and lets every machine in: a request without an
  \<open>Authorization\<close> header then passes for one with the credential of the installer.
\<close>

lemma blank_secret_open:
  assumes "newServerFromEnv e stateAt dirAt = Inr s" "ReadFileOf e (Getenv e ''BOOTSTRAP_SECRET_FILE'') = Inr sec"
    and "TrimSpace sec = []" "Authorization ev = []"
  shows "machine s ev [] = None"
  using assms
  by (auto simp: newServerFromEnv_def Let_def machine_def TrimPrefix_def split: if_splits sum.splits option.splits prod.splits)

section \<open>Witnesses\<close>

definition demo_write :: WriteEnv where
  "demo_write = \<lparr>MkdirError = None, CreateTemp = Inr ''.tmp-1'', ChmodError = None, WriteFails = Some (''full'', 2),
     SyncError = None, CloseError = None, RenameError = None, RemoveFails = True\<rparr>"

definition demo_text :: "Lease option \<Rightarrow> string" where
  "demo_text l = (case l of None \<Rightarrow> ''{}'' | Some _ \<Rightarrow> ''{lease}'')"

text \<open>The disk is full after two bytes, and the temporary file stays behind.\<close>

theorem save_never_torn_witness:
  "\<exists>states. atomicWrite demo_write ''state'' (demo_text (Some demo_lease)) [(''state'', ''{}'', True)] = (states, Some ''full'')
     \<and> length states = 4
     \<and> (\<forall>st \<in> set states. \<forall>c. may_hold st ''state'' c \<longrightarrow> c = ''{}'' \<or> c = demo_text (Some demo_lease))"
proof -
  let ?fs = "[(''state'', ''{}'', True)] :: Files" and ?s = "demo_server\<lparr>lease := Some demo_lease\<rparr>"
  let ?ev = "(demo_event 0 [])\<lparr>SaveError := Some ''full''\<rparr>"
  obtain states err where w: "atomicWrite demo_write ''state'' (demo_text (lease ?s)) ?fs = (states, err)" by (metis surj_pair)
  have v: "snd (atomicWrite demo_write ''state'' (demo_text (lease ?s)) ?fs) = Some ''full''"
    "length (fst (atomicWrite demo_write ''state'' (demo_text (lease ?s)) ?fs)) = 4" by code_simp+
  have "fresh_temp demo_write ''state'' ?fs" by (simp add: fresh_temp_def demo_write_def)
  moreover have "map_of ?fs ''state'' = Some (demo_text (stateFile ?s), True)" "SaveError ?ev = err"
    using w v by (simp_all add: demo_text_def demo_server_def)
  ultimately show ?thesis using save_never_torn [where enc = demo_text and s = ?s, OF _ w, of ?ev] w v by (auto simp: demo_text_def demo_server_def)
qed

end
