(* ===== verification/Provisioner_Protocol.thy ===== *)
theory Provisioner_Protocol
  imports Provisioner
begin

text \<open>
  The protocol that \<open>pkgs/provisioner/main.go\<close> follows, without its records and checks: a lease
  goes through phases, in memory and, as last saved, in the state file. Every event the server
  handles is a step of it. The requests may come in any order and the state file may fail to be
  written at any time.
\<close>

section \<open>Phases\<close>

text \<open>A phase names the host, the token of the claim and the time until which it is good.\<close>

datatype Phase =
    Idle
  | Waiting string gotime
  | Granted string string gotime
  | Working string string gotime
  | Finished string string gotime

fun host_of :: "Phase \<Rightarrow> string option" where
  "host_of Idle = None"
| "host_of (Waiting h until) = Some h"
| "host_of (Granted h token until) = Some h"
| "host_of (Working h token until) = Some h"
| "host_of (Finished h token until) = Some h"

fun claim_of :: "Phase \<Rightarrow> (string \<times> string \<times> gotime) option" where
  "claim_of Idle = None"
| "claim_of (Waiting h until) = None"
| "claim_of (Granted h token until) = Some (h, token, until)"
| "claim_of (Working h token until) = Some (h, token, until)"
| "claim_of (Finished h token until) = Some (h, token, until)"

text \<open>How far a lease has come.\<close>

datatype Stage = Unarmed | Armed | Held | Reported | Done

fun rank :: "Stage \<Rightarrow> nat" where
  "rank Unarmed = 0"
| "rank Armed = 1"
| "rank Held = 2"
| "rank Reported = 3"
| "rank Done = 4"

instantiation Stage :: linorder
begin

definition less_eq_Stage :: "Stage \<Rightarrow> Stage \<Rightarrow> bool" where
  "less_eq_Stage a b \<longleftrightarrow> rank a \<le> rank b"

definition less_Stage :: "Stage \<Rightarrow> Stage \<Rightarrow> bool" where
  "less_Stage a b \<longleftrightarrow> rank a < rank b"

instance
proof
  show "a = b" if "a \<le> b" "b \<le> a" for a b :: Stage
    using that by (cases a; cases b) (simp_all add: less_eq_Stage_def)
qed (auto simp: less_eq_Stage_def less_Stage_def)

end

fun stage :: "Phase \<Rightarrow> Stage" where
  "stage Idle = Unarmed"
| "stage (Waiting h until) = Armed"
| "stage (Granted h token until) = Held"
| "stage (Working h token until) = Reported"
| "stage (Finished h token until) = Done"

section \<open>The protocol\<close>

text \<open>
  The moves. Only a person starts or ends a lease. A machine claims one that is armed, and reports
  on the claim it holds, each in time; the report starts a preparation, whose end finishes the
  lease, or lets the machine report again.
\<close>

inductive moves :: "gotime \<Rightarrow> Req \<Rightarrow> Phase \<Rightarrow> Phase \<Rightarrow> bool" for now where
  arming: "moves now (Arm h) p (Waiting h (now + 5 * Minute))"
| disarming: "host_of p = Some h \<Longrightarrow> moves now (Disarm h) p Idle"
| claiming: "now < until \<Longrightarrow> length token = 64 \<Longrightarrow>
    moves now (Activate body) (Waiting h until) (Granted h token (now + 2 * Hour))"
| reporting: "now < until \<Longrightarrow> moves now (Complete token body) (Granted h token until) (Working h token until)"
| finishing: "moves now (Prepared token None) (Working h token until) (Finished h token until)"
| failing: "moves now (Prepared token err) (Working h token until) (Granted h token until)"

inductive_cases from_working: "moves now req (Working h token until) p"

text \<open>
  One event, on the phase in memory and the phase in the file: nothing, a move that is saved or
  not, or a restart, which goes on from the file.
\<close>

inductive follows :: "gotime \<Rightarrow> Req \<Rightarrow> Phase \<times> Phase \<Rightarrow> Phase \<times> Phase \<Rightarrow> bool" for now where
  idling: "follows now req (p, f) (p, f)"
| moving: "moves now req p p' \<Longrightarrow> f' \<in> {f, p'} \<Longrightarrow> follows now req (p, f) (p', f')"
| restarting: "follows now Restart (p, f) (f, f)"

text \<open>
  What an answer says of the phases: a claim that is handed out, and a report that is accepted,
  are in the file; an archive goes to the holder of a claim, in time.
\<close>

definition truthful :: "gotime \<Rightarrow> Req \<Rightarrow> Reply \<Rightarrow> Phase \<Rightarrow> Phase \<times> Phase \<Rightarrow> bool" where
  "truthful now req ans p after =
     (case ans of
        Claimed host profile token until \<Rightarrow> after = (Granted host token until, Granted host token until)
      | Preparing \<Rightarrow>
          (case req of
             Complete token body \<Rightarrow>
               (case p of
                  Granted h t until \<Rightarrow> t = token \<and> after = (Working h t until, Working h t until)
                | _ \<Rightarrow> False)
           | _ \<Rightarrow> False)
      | ServeArchive host \<Rightarrow>
          (case req of
             Bootstrap token \<Rightarrow> (case claim_of p of Some (h, t, until) \<Rightarrow> h = host \<and> t = token \<and> now < until | None \<Rightarrow> False)
           | _ \<Rightarrow> False)
      | _ \<Rightarrow> True)"

text \<open>A lease only advances, unless a person takes it back, a preparation fails or the server restarts.\<close>

definition advances :: "Req \<Rightarrow> Stage \<Rightarrow> Stage \<Rightarrow> bool" where
  "advances req before after =
     (case req of
        Arm host \<Rightarrow> after = Armed \<or> after = before
      | Disarm host \<Rightarrow> after = Unarmed \<or> after = before
      | Prepared token err \<Rightarrow> before \<le> after \<or> before = Reported \<and> after = Held
      | Restart \<Rightarrow> True
      | _ \<Rightarrow> before \<le> after)"

lemma moves_advances: "moves now req p p' \<Longrightarrow> advances req (stage p) (stage p')"
  by (cases rule: moves.cases) (auto simp: advances_def less_eq_Stage_def)

lemma follows_advances:
  assumes "follows now req a b"
  shows "advances req (stage (fst a)) (stage (fst b))"
  using assms
proof (cases rule: follows.cases)
  case (idling p f)
  then show ?thesis by (cases req) (simp_all add: advances_def)
next
  case (moving p p' f' f)
  then show ?thesis by (simp add: moves_advances)
qed (simp add: advances_def)

section \<open>The server\<close>

definition phase :: "Lease option \<Rightarrow> Phase" where
  "phase x =
     (case x of
        None \<Rightarrow> Idle
      | Some l \<Rightarrow>
          (case ClaimExpiresAt l of
             None \<Rightarrow> Waiting (LeaseHost l) (ExpiresAt l)
           | Some until \<Rightarrow>
               if CompletedAt l \<noteq> None then Finished (LeaseHost l) (ClaimToken l) until
               else if PreparingAt l \<noteq> None then Working (LeaseHost l) (ClaimToken l) until
               else Granted (LeaseHost l) (ClaimToken l) until))"

definition phases :: "Server \<Rightarrow> Phase \<times> Phase" where
  "phases s = (phase (lease s), phase (stateFile s))"

text \<open>
  The preparations that run: each has the token of a claim, and the lease with this claim waits
  for it.
\<close>

definition awaited :: "string list \<Rightarrow> Server \<Rightarrow> bool" where
  "awaited running s \<longleftrightarrow> distinct running \<and> (\<forall>t \<in> set running. length t = 64)
     \<and> (\<forall>l. lease s = Some l \<longrightarrow> ClaimToken l \<in> set running \<longrightarrow> PreparingAt l \<noteq> None \<and> CompletedAt l = None)"

text \<open>The random source does not repeat the token of a preparation that runs.\<close>

definition fresh_token :: "Event \<Rightarrow> string list \<Rightarrow> bool" where
  "fresh_token ev running \<longleftrightarrow> token_ok ev \<and> (case RandomToken ev of None \<Rightarrow> True | Some t \<Rightarrow> t \<notin> set running)"

inductive server_runs :: "Server \<Rightarrow> string list \<Rightarrow> Server \<Rightarrow> bool" for s0 where
  server_start: "server_runs s0 [] s0"
| server_step: "server_runs s0 running s \<Longrightarrow> fresh_token ev running \<Longrightarrow> may_happen running req
    \<Longrightarrow> handle ev req s = (s', ans) \<Longrightarrow> server_runs s0 (still_running req ans running) s'"

text \<open>What one event has to show.\<close>

definition simulated :: "string list \<Rightarrow> Event \<Rightarrow> Req \<Rightarrow> Server \<Rightarrow> Server \<times> Reply \<Rightarrow> bool" where
  "simulated running ev req s r \<longleftrightarrow>
     (case r of (s', ans) \<Rightarrow>
        awaited (still_running req ans running) s'
        \<and> follows (At ev) req (phases s) (phases s')
        \<and> truthful (At ev) req ans (phase (lease s)) (phases s'))"

section \<open>Every event is a step\<close>

lemma phase_claim_valid:
  assumes "lease_ok l" "claim_valid now token l"
  obtains until where "now < until" "ClaimExpiresAt l = Some until" "claim_of (phase (Some l)) = Some (LeaseHost l, token, until)"
  using assms by (auto simp: claim_valid_def phase_def split: option.splits)

lemma phase_granted:
  assumes "claim_valid now token l" "CompletedAt l = None" "PreparingAt l = None"
  obtains until where "now < until" "ClaimExpiresAt l = Some until" "phase (Some l) = Granted (LeaseHost l) token until"
  using assms by (auto simp: claim_valid_def phase_def split: option.splits)

lemma phase_unclaimed: "lease_ok l \<Longrightarrow> ClaimedAt l = None \<Longrightarrow> phase (Some l) = Waiting (LeaseHost l) (ExpiresAt l)"
  by (simp add: lease_ok_def phase_def)

lemma phase_reported [simp]: "phase (Some (l\<lparr>PrepareError := e\<rparr>)) = phase (Some l)"
  by (simp add: phase_def split: option.splits)

lemma saved_phase:
  "phases (snd (save_state ev (s\<lparr>lease := l\<rparr>))) = (phase l, if SaveError ev = None then phase l else phase (stateFile s))"
  by (simp add: phases_def save_state_def split: option.splits)

lemma follows_saved:
  assumes "moves now req (phase (lease s)) (phase l)"
  shows "follows now req (phases s) (phases (snd (save_state ev (s\<lparr>lease := l\<rparr>))))"
  unfolding saved_phase unfolding phases_def by (rule moving [OF assms]) simp

lemma lease_saved [simp]: "lease (snd (save_state ev s)) = lease s"
  by (simp add: save_state_def split: option.splits)

lemma simulated_same:
  assumes "awaited running s" "lease s' = lease s" "stateFile s' = stateFile s" "still_running req ans running = running"
    and "truthful (At ev) req ans (phase (lease s)) (phases s)"
  shows "simulated running ev req s (s', ans)"
  using assms by (simp add: simulated_def awaited_def phases_def idling)

lemma simulated_error:
  assumes "awaited running s" "lease s' = lease s" "stateFile s' = stateFile s"
    and "\<And>token err. req \<noteq> Prepared token err" "req \<noteq> Restart"
  shows "simulated running ev req s (s', HttpError code msg)"
  by (rule simulated_same) (use assms in \<open>auto simp: still_running_def truthful_def split: Req.splits\<close>)

lemma arm_simulated:
  assumes "awaited running s"
  shows "simulated running ev (Arm host) s (arm ev host s)"
proof (cases "human s ev True")
  case (Some x)
  then show ?thesis using assms by (cases x) (auto simp: arm_def intro!: simulated_error)
next
  case h: None
  show ?thesis
  proof (cases "find (\<lambda>t. TargetHost t = host) (targets s)")
    case None
    then show ?thesis using assms h by (auto simp: arm_def intro!: simulated_error)
  next
    case (Some t)
    define s1 where "s1 = s\<lparr>archives := removeAll (TargetHost t) (archives s), reports := AList.delete (TargetHost t) (reports s)\<rparr>"
    have "TargetHost t = host" using Some by (auto simp: find_Some_iff)
    then have "phase (Some (new_lease ev t)) = Waiting host (At ev + 5 * Minute)" by (simp add: phase_def new_lease_def)
    then have "moves (At ev) (Arm host) (phase (lease s1)) (phase (Some (new_lease ev t)))" by (simp only: arming)
    then have "follows (At ev) (Arm host) (phases s1) (phases (snd (save_state ev (s1\<lparr>lease := Some (new_lease ev t)\<rparr>))))"
      by (rule follows_saved)
    moreover have "phases s1 = phases s" by (simp add: s1_def phases_def)
    moreover have "awaited running (snd (save_state ev (s1\<lparr>lease := Some (new_lease ev t)\<rparr>)))"
      using assms by (auto simp: awaited_def new_lease_def)
    ultimately show ?thesis
      using arm_target [OF h Some s1_def] by (simp add: simulated_def still_running_def truthful_def split: option.splits)
  qed
qed

lemma disarm_simulated:
  assumes "awaited running s"
  shows "simulated running ev (Disarm host) s (disarm ev host s)"
proof (cases "human s ev True = None \<and> (\<exists>l. lease s = Some l \<and> LeaseHost l = host)")
  case True
  then obtain l where l: "human s ev True = None" "lease s = Some l" "LeaseHost l = host" by auto
  have "host_of (phase (lease s)) = Some host" by (simp add: l phase_def split: option.splits)
  then have "moves (At ev) (Disarm host) (phase (lease s)) (phase None)" by (simp add: phase_def disarming)
  then have "follows (At ev) (Disarm host) (phases s) (phases (snd (save_state ev (s\<lparr>lease := None\<rparr>))))" by (rule follows_saved)
  then show ?thesis using assms l
    by (simp add: simulated_def disarm_def still_running_def truthful_def awaited_def)
next
  case False
  then obtain ans where "disarm ev host s = (s, ans)" "truthful (At ev) (Disarm host) ans (phase (lease s)) (phases s)"
    by (cases "human s ev True"; cases "lease s") (auto simp: disarm_def truthful_def)
  then show ?thesis using simulated_same [of running s s "Disarm host" ans ev] assms
    by (simp add: still_running_def)
qed

lemma activate_simulated:
  assumes "awaited running s" "leases_ok s" "fresh_token ev running"
  shows "simulated running ev (Activate body) s (activate ev body s)"
proof -
  obtain s' ans where e: "activate ev body s = (s', ans)" by (rule prod.exhaust)
  have t: "truthful (At ev) (Activate body) ans p r" if "claims ans = 0" for p r
    using e that unfolding truthful_def activate_def
    by (auto simp: claims_def Let_def save_state_def split: option.splits if_splits)
  from e show ?thesis
  proof (cases rule: activate_outcome)
    case 1
    then show ?thesis using assms(1) t by (simp add: e simulated_same still_running_def)
  next
    case (2 l token)
    let ?l = "l\<lparr>ClaimedAt := Some (At ev), ClaimToken := token, ClaimExpiresAt := Some (At ev + 2 * Hour),
        DMIUUID := activation_uuid body\<rparr>"
    have ok: "lease_ok l" using assms(2) 2(1) by (rule leases_ok_lease)
    have g: "phase (Some ?l) = Granted (LeaseHost l) token (At ev + 2 * Hour)"
      using ok 2(3) by (simp add: phase_def lease_ok_def)
    have "moves (At ev) (Activate body) (phase (lease s)) (phase (Some ?l))"
      unfolding g 2(1) phase_unclaimed [OF ok 2(3)]
      by (rule claiming [OF 2(4)]) (use assms(3) 2(2) in \<open>simp add: fresh_token_def token_ok_def\<close>)
    then have "follows (At ev) (Activate body) (phases s) (phases s')" unfolding 2(5) by (rule follows_saved)
    moreover have "awaited running s'" using assms(1,3) 2(2) unfolding 2(5) by (auto simp: awaited_def fresh_token_def)
    moreover have "truthful (At ev) (Activate body) ans (phase (lease s)) (phases s')"
    proof (cases "SaveError ev")
      case None
      then have "claims ans = 1" using 2(6) by simp
      then have "ans = Claimed (LeaseHost l) (LeaseProfile l) token (At ev + 2 * Hour)"
        using e 2(1-4) None
        by (auto simp: activate_def Let_def save_state_def claims_def split: option.splits if_splits)
      then show ?thesis unfolding 2(5) saved_phase g using None by (simp add: truthful_def)
    qed (use 2(6) t in simp)
    ultimately show ?thesis by (simp add: simulated_def e still_running_def)
  qed
qed

lemma bootstrap_simulated:
  assumes "awaited running s" "leases_ok s"
  shows "simulated running ev (Bootstrap token) s (bootstrap ev token s)"
proof -
  obtain ans where e: "bootstrap ev token s = (s, ans)"
    using bootstrap_same [of ev token s] by (metis prod.collapse)
  have "truthful (At ev) (Bootstrap token) ans (phase (lease s)) (phases s)"
  proof (cases "\<exists>h. ans = ServeArchive h")
    case True
    then obtain h l where l: "ans = ServeArchive h" "lease s = Some l" "LeaseHost l = h" "claim_valid (At ev) token l"
      using e bootstrap_served [of ev token s] by auto
    obtain until where "At ev < until" "claim_of (phase (Some l)) = Some (LeaseHost l, token, until)"
      using phase_claim_valid [OF leases_ok_lease [OF assms(2) l(2)] l(4)] by blast
    then show ?thesis using l by (simp add: truthful_def)
  next
    case False
    then show ?thesis using e unfolding bootstrap_def
      by (auto simp: truthful_def split: option.splits if_splits)
  qed
  then show ?thesis unfolding e using assms(1) by (intro simulated_same) (simp_all add: still_running_def)
qed

lemma complete_simulated:
  assumes "awaited running s" "leases_ok s"
  shows "simulated running ev (Complete token body) s (complete ev token body s)"
proof -
  obtain s' ans where e: "complete ev token body s = (s', ans)" by (rule prod.exhaust)
  have t: "truthful (At ev) (Complete token body) ans p r" if "ans \<noteq> Preparing" for p r
    using e that unfolding complete_def truthful_def
    by (auto simp: Let_def save_state_def split: option.splits if_splits)
  from e show ?thesis
  proof (cases rule: complete_outcome)
    case 1
    then show ?thesis unfolding e using assms(1) t by (intro simulated_same) (simp_all add: still_running_def)
  next
    case (2 l r)
    then have "phases s' = phases s" by (simp add: phases_def)
    moreover have "awaited running s'" using assms(1) 2 by (auto simp: awaited_def)
    ultimately show ?thesis using t [OF 2(5)] 2(5)
      by (simp add: simulated_def e still_running_def idling phases_def)
  next
    case (3 l r)
    obtain until where u: "At ev < until" "ClaimExpiresAt l = Some until" "phase (Some l) = Granted (LeaseHost l) token until"
      using phase_granted [OF 3(2-4)] by blast
    have tok: "ClaimToken l = token" using 3(2) by (simp add: claim_valid_def)
    have p: "phases s' = (Working (LeaseHost l) token until, Working (LeaseHost l) token until)"
      using 3(3) u(2) tok by (simp add: 3(6) phases_def Let_def phase_def)
    have "follows (At ev) (Complete token body) (phases s) (phases s')"
      unfolding p by (simp only: phases_def 3(1) u(3)) (rule moving [OF reporting [OF u(1)]], simp)
    moreover have "token \<notin> set running" using assms(1) 3(1,4) tok by (auto simp: awaited_def)
    then have "awaited (token # running) s'"
      using assms 3(3) tok claim_token_64 [OF leases_ok_lease [OF assms(2) 3(1)] 3(2)]
      by (auto simp: awaited_def 3(6) Let_def)
    ultimately show ?thesis using u 3(1,5) p by (simp add: simulated_def e still_running_def truthful_def)
  qed
qed

lemma prepare_simulated:
  assumes "awaited running s" "leases_ok s" "token \<in> set running"
  shows "simulated running ev (Prepared token err) s (prepare ev token err s, NoReply)"
proof -
  have awaited: "awaited (remove1 token running) s'"
    if "\<And>l'. lease s' = Some l' \<Longrightarrow> ClaimToken l' = token \<or> lease s = Some l'" for s'
    using assms(1) that by (auto simp: awaited_def)
  show ?thesis
  proof (cases "\<exists>l. lease s = Some l \<and> ClaimToken l = token")
    case False
    then have "prepare ev token err s = s" by (auto simp: prepare_def Let_def split: option.splits)
    then show ?thesis using awaited [of s] by (simp add: simulated_def still_running_def truthful_def idling phases_def)
  next
    case True
    then obtain l where l: "lease s = Some l" "ClaimToken l = token" by blast
    define l' where "l' = (case (if \<not> prepareConfigured s then Some ''PREPARE_COMMAND is not configured''
            else map_option (\<lambda>e. ''prepare failed: '' @ e) err) of
         Some err \<Rightarrow> l\<lparr>PreparingAt := None, PrepareError := err\<rparr>
       | None \<Rightarrow> l\<lparr>PreparingAt := None, CompletedAt := Some (At ev), PrepareError := []\<rparr>)"
    have r: "prepare ev token err s = snd (save_state ev (s\<lparr>lease := Some l'\<rparr>))"
      using l by (simp add: prepare_def Let_def l'_def cong: option.case_cong)
    have busy: "PreparingAt l \<noteq> None" "CompletedAt l = None" using assms(1,3) l by (auto simp: awaited_def)
    have "lease_ok l" using assms(2) l(1) by (rule leases_ok_lease)
    then obtain until where u: "ClaimExpiresAt l = Some until"
      using busy by (auto simp: lease_ok_def split: option.splits)
    have w: "phase (lease s) = Working (LeaseHost l) token until" using l u busy by (simp add: phase_def)
    have "moves (At ev) (Prepared token err) (phase (lease s)) (phase (Some l'))"
    proof (cases "prepareConfigured s \<and> err = None")
      case True
      then have "phase (Some l') = Finished (LeaseHost l) token until" using l u by (simp add: l'_def phase_def)
      then show ?thesis using True by (simp only: w finishing)
    next
      case False
      then have "phase (Some l') = Granted (LeaseHost l) token until"
        using l u busy by (auto simp: l'_def phase_def)
      then show ?thesis by (simp only: w failing)
    qed
    then have "follows (At ev) (Prepared token err) (phases s) (phases (prepare ev token err s))"
      unfolding r by (rule follows_saved)
    moreover have "ClaimToken l' = token" using l by (simp add: l'_def split: option.splits)
    then have "awaited (remove1 token running) (prepare ev token err s)"
      by (intro awaited) (simp add: r)
    ultimately show ?thesis by (simp add: simulated_def still_running_def truthful_def)
  qed
qed

lemma handle_simulated:
  assumes "awaited running s" "leases_ok s" "fresh_token ev running" "may_happen running req"
  shows "simulated running ev req s (handle ev req s)"
proof (cases req)
  case (Archive host)
  then show ?thesis unfolding handle_def using assms(1)
    by (simp add: simulated_same still_running_def truthful_def)
next
  case Restart
  then show ?thesis
    by (simp add: simulated_def handle_def newServer_def still_running_def truthful_def awaited_def phases_def restarting)
qed (use assms in \<open>simp_all add: handle_def may_happen_def arm_simulated disarm_simulated activate_simulated
       bootstrap_simulated complete_simulated prepare_simulated\<close>)

lemma server_runs_ok:
  assumes "server_runs s0 running s" "leases_ok s0"
  shows "leases_ok s \<and> awaited running s"
  using assms(1)
proof (induction rule: server_runs.induct)
  case server_start
  then show ?case using assms(2) by (simp add: awaited_def)
next
  case (server_step running s ev req s' ans)
  then have "awaited (still_running req ans running) s'"
    using handle_simulated [of running s ev req] by (simp add: simulated_def)
  moreover have "leases_ok s'"
    using handle_ok [of s ev req s' ans running] server_step by (auto simp: fresh_token_def awaited_def)
  ultimately show ?case by blast
qed

section \<open>Properties\<close>

text \<open>
  C9: The server follows the lease protocol. In every state it can reach from a good one, and
  whichever writes of the state file fail, an event does nothing, or makes one move of the
  protocol, saved or not, or restarts the server from what was last saved. So a machine holds a
  lease only after a person armed it, a report counts only while the claim is held, a lease is
  finished only by the preparation its report started, and the lease does not go back but by a
  person, a failed preparation or a restart. The answers are truthful: a claim handed out and a
  report accepted are in the state file, and an archive goes to the holder of a claim, in time.
\<close>

theorem lease_protocol:
  assumes "server_runs s0 running s" "leases_ok s0"
    and "fresh_token ev running" "may_happen running req" "handle ev req s = (s', ans)"
  shows "follows (At ev) req (phases s) (phases s')
    \<and> truthful (At ev) req ans (phase (lease s)) (phases s')
    \<and> advances req (stage (phase (lease s))) (stage (phase (lease s')))"
proof -
  have "leases_ok s" "awaited running s" using server_runs_ok [OF assms(1,2)] by simp_all
  then have "simulated running ev req s (s', ans)" using handle_simulated assms(3-5) by metis
  then show ?thesis using follows_advances [of "At ev" req "phases s" "phases s'"]
    by (simp add: simulated_def phases_def)
qed

text \<open>
  A restart ends the preparations but leaves the lease waiting for one. The lease is then stuck:
  no event moves it, and no report of the machine is accepted, until a person arms or disarms.
\<close>

theorem stranded_preparation:
  assumes "leases_ok s" "awaited [] s" "phases s = (Working h token until, Working h token until)"
    and "fresh_token ev []" "may_happen [] req" "\<And>host. req \<noteq> Arm host \<and> req \<noteq> Disarm host"
    and "handle ev req s = (s', ans)"
  shows "phases s' = phases s \<and> still_running req ans [] = [] \<and> ans \<noteq> Preparing"
proof -
  have "simulated [] ev req s (s', ans)" using handle_simulated [OF assms(2,1,4,5)] assms(7) by simp
  then have f: "follows (At ev) req (phases s) (phases s')"
    and t: "truthful (At ev) req ans (Working h token until) (phases s')"
    using assms(3) by (simp_all add: simulated_def phases_def)
  have "\<not> moves (At ev) req (Working h token until) p" for p
  proof
    assume "moves (At ev) req (Working h token until) p"
    then show False by (cases rule: from_working) (use assms(5,6) in \<open>auto simp: may_happen_def\<close>)
  qed
  then have "phases s' = phases s" using f assms(3) by (auto elim: follows.cases)
  moreover have "ans \<noteq> Preparing" using t by (auto simp: truthful_def split: Req.splits)
  ultimately show ?thesis by (simp add: still_running_def split: Req.splits)
qed

section \<open>Witnesses\<close>

text \<open>A lease is armed, and then claimed.\<close>

theorem lease_protocol_witness:
  "follows Minute (Activate []) (Waiting ''joker'' (5 * Minute), Waiting ''joker'' (5 * Minute))
     (Granted ''joker'' (replicate 64 CHR ''a'') (Minute + 2 * Hour), Granted ''joker'' (replicate 64 CHR ''a'') (Minute + 2 * Hour))"
proof -
  have run: "server_runs demo_server (still_running (Arm ''joker'') (SeeOther ''/'') []) (demo_server\<lparr>lease := Some demo_lease, stateFile := Some demo_lease\<rparr>)"
    by (rule server_step [OF server_start _ _ demo_arm]) (simp_all add: fresh_token_def token_ok_def demo_event_def may_happen_def)
  have ok: "leases_ok demo_server" by (simp add: leases_ok_def demo_server_def)
  have p: "phase (Some demo_lease) = Waiting ''joker'' (5 * Minute)"
    by (simp add: phase_def demo_lease_def new_lease_def demo_event_def)
  have c: "phase (Some demo_claimed) = Granted ''joker'' (replicate 64 CHR ''a'') (Minute + 2 * Hour)"
    by (simp add: phase_def demo_claimed_def demo_lease_def new_lease_def demo_event_def)
  have "At (demo_event Minute ''Bearer fleet'') = Minute" by (simp add: demo_event_def)
  then show ?thesis using lease_protocol [OF run ok _ _ demo_activate]
    unfolding phases_def
    by (simp add: p c fresh_token_def token_ok_def demo_event_def may_happen_def still_running_def)
qed

end
