(* ===== verification/Identity_Proxy.thy ===== *)
theory Identity_Proxy
  imports Signed_Token
begin

text \<open>
  \<open>pkgs/identity-proxy/main.go\<close>: the sub-request nginx makes for every request to a
  protected site (\<open>handleValidate\<close>), which knows its user by the address on the VPN or by a
  signed cookie, and the OpenID Connect login that sets the cookie (\<open>handleLogin\<close>,
  \<open>handleCallback\<close>). The provider's answers, and those of the VPN daemon, are parameters.
\<close>

section \<open>The identity document\<close>

record User =
  HeadscaleID :: int
  Emails :: "string list"
  UserGroups :: slice

record resolvedUser =
  Name :: string
  Email :: string
  Groups :: slice

record IdentityDoc =
  byHeadscaleID :: "(int \<times> resolvedUser) list"
  byEmail :: "resolvedUser gomap"

definition resolve :: "string \<Rightarrow> User \<Rightarrow> resolvedUser" where
  "resolve name u = \<lparr>Name = name, Email = (case Emails u of [] \<Rightarrow> [] | e # _ \<Rightarrow> e), Groups = UserGroups u\<rparr>"

definition index_user :: "string \<times> User \<Rightarrow> IdentityDoc \<Rightarrow> IdentityDoc" where
  "index_user nu doc =
     (case nu of (name, u) \<Rightarrow>
        let ru = resolve name u in
        doc\<lparr>byHeadscaleID := AList.update (HeadscaleID u) ru (byHeadscaleID doc),
            byEmail := fold (\<lambda>email m. AList.update (ToLower email) ru m) (Emails u) (byEmail doc)\<rparr>)"

text \<open>\<open>loadIdentityDoc\<close> on the decoded document, in the order its map is ranged over.\<close>

definition loadIdentityDoc :: "User gomap \<Rightarrow> IdentityDoc" where
  "loadIdentityDoc raw = fold index_user raw \<lparr>byHeadscaleID = [], byEmail = []\<rparr>"

section \<open>Sessions\<close>

record SessionPayload =
  SessionSub :: string
  SessionEmail :: string
  SessionGroups :: slice
  Exp :: int

definition session_json :: "SessionPayload \<Rightarrow> string" where
  "session_json p = json_print (JObj
     [(''sub'', JStr (SessionSub p)), (''email'', JStr (SessionEmail p)), (''groups'', slice_json (SessionGroups p)),
      (''exp'', JNum (Itoa (Exp p)))])"

definition session_fields :: "(string \<times> json) list \<Rightarrow> SessionPayload option" where
  "session_fields ms =
     Option.bind (dec_field ''sub'' dec_string [] ms) (\<lambda>sub.
     Option.bind (dec_field ''email'' dec_string [] ms) (\<lambda>email.
     Option.bind (dec_field ''groups'' dec_slice None ms) (\<lambda>groups.
     Option.bind (dec_field ''exp'' dec_int 0 ms) (\<lambda>e.
       Some \<lparr>SessionSub = sub, SessionEmail = email, SessionGroups = groups, Exp = e\<rparr>))))"

definition session_of :: "string \<Rightarrow> SessionPayload option" where
  "session_of = unmarshal_struct session_fields"

definition new_session :: "resolvedUser \<Rightarrow> int \<Rightarrow> gotime \<Rightarrow> SessionPayload" where
  "new_session user maxAge now =
     \<lparr>SessionSub = Name user, SessionEmail = Email user, SessionGroups = Groups user, Exp = toUnix (now + maxAge)\<rparr>"

definition createSession ::
  "(string \<Rightarrow> string \<Rightarrow> string) \<Rightarrow> resolvedUser \<Rightarrow> int \<Rightarrow> gotime \<Rightarrow> string \<Rightarrow> string" where
  "createSession hmac user maxAge now key = seal hmac key (session_json (new_session user maxAge now))"

definition validateSession ::
  "(string \<Rightarrow> string \<Rightarrow> string) \<Rightarrow> gotime \<Rightarrow> string \<Rightarrow> string \<Rightarrow> string + SessionPayload" where
  "validateSession hmac now value key =
     (case checked_part hmac key value of
        Inl err \<Rightarrow> Inl err
      | Inr encoded \<Rightarrow>
          (case RawURLEncoding_DecodeString encoded of
             None \<Rightarrow> Inl ''decode payload''
           | Some data \<Rightarrow>
               (case session_of data of
                  None \<Rightarrow> Inl ''unmarshal payload''
                | Some payload \<Rightarrow>
                    if toUnix now > Exp payload then Inl ''session expired'' else Inr payload)))"

section \<open>Who is at an address\<close>

text \<open>
  What \<open>tailscaleWhois\<close> meets: the daemon cannot be reached, the request fails, or a status
  and a body. The daemon is a function of the URL it is asked.
\<close>

datatype WhoisReply = DialFailed string | RequestFailed string | WhoisResponse nat string

record Profile =
  ProfileID :: int
  LoginName :: string

definition profile_fields :: "json \<Rightarrow> Profile \<Rightarrow> Profile option" where
  "profile_fields v old =
     (case v of
        JNull \<Rightarrow> Some old
      | JObj ms \<Rightarrow>
          Option.bind (dec_field ''ID'' dec_int (ProfileID old) ms) (\<lambda>i.
          Option.bind (dec_field ''LoginName'' dec_string (LoginName old) ms) (\<lambda>n.
            Some \<lparr>ProfileID = i, LoginName = n\<rparr>))
      | _ \<Rightarrow> None)"

definition whois_profile :: "string \<Rightarrow> Profile option" where
  "whois_profile body =
     Option.bind (raw_value body) (\<lambda>vr.
       unmarshal_struct (dec_field ''UserProfile'' profile_fields \<lparr>ProfileID = 0, LoginName = []\<rparr>) (fst vr))"

text \<open>\<open>url.QueryEscape\<close>.\<close>

definition query_plain :: "char \<Rightarrow> bool" where
  "query_plain c \<longleftrightarrow> is_digit c \<or> (65 \<le> byte c \<and> byte c \<le> 90) \<or> (97 \<le> byte c \<and> byte c \<le> 122) \<or> c \<in> set ''-_.~''"

definition upper_hex :: "nat \<Rightarrow> char" where
  "upper_hex n = (if n < 10 then char_of (48 + n) else char_of (55 + n))"

definition QueryEscape :: "string \<Rightarrow> string" where
  "QueryEscape s = concat (map (\<lambda>c. if query_plain c then [c] else if c = CHR '' '' then ''+''
     else [CHR ''%'', upper_hex (byte c div 16), upper_hex (byte c mod 16)]) s)"

definition whois_url :: "string \<Rightarrow> string" where
  "whois_url ip = ''http://local-tailscaled.sock/localapi/v0/whois?addr='' @ QueryEscape ip @ '':1''"

definition tailscaleWhois :: "IdentityDoc \<Rightarrow> string \<Rightarrow> (string \<Rightarrow> WhoisReply) \<Rightarrow> string + resolvedUser" where
  "tailscaleWhois doc ip daemon =
     (case daemon (whois_url ip) of
        DialFailed err \<Rightarrow> Inl (''connect tailscaled: '' @ err)
      | RequestFailed err \<Rightarrow> Inl (''whois request: '' @ err)
      | WhoisResponse code body \<Rightarrow>
          if code \<noteq> 200 then Inl (''whois status '' @ Itoa (int code))
          else
            (case whois_profile body of
               None \<Rightarrow> Inl ''decode whois''
             | Some p \<Rightarrow>
                 (case map_of (byHeadscaleID doc) (ProfileID p) of
                    None \<Rightarrow> Inl (''headscale user '' @ Itoa (ProfileID p) @ '' ('' @ LoginName p @ '') not in identity doc'')
                  | Some user \<Rightarrow> Inr user)))"

definition isTailscaleIP :: "string \<Rightarrow> bool" where
  "isTailscaleIP ip = HasPrefix ip ''100.''"

record whoisEntry =
  entryResult :: "string + resolvedUser"
  fetchedAt :: gotime

abbreviation cache_ttl :: int where "cache_ttl \<equiv> 5 * Minute"

text \<open>\<open>Lookup\<close>: its read of the cache, and its write after the daemon's answer.\<close>

definition cached :: "whoisEntry gomap \<Rightarrow> string \<Rightarrow> gotime \<Rightarrow> (string + resolvedUser) option" where
  "cached cache ip now =
     (case map_of cache ip of
        None \<Rightarrow> None
      | Some e \<Rightarrow> if Sub now (fetchedAt e) < cache_ttl then Some (entryResult e) else None)"

definition store_whois :: "string \<Rightarrow> string + resolvedUser \<Rightarrow> gotime \<Rightarrow> whoisEntry gomap \<Rightarrow> whoisEntry gomap" where
  "store_whois ip result now cache = AList.update ip \<lparr>entryResult = result, fetchedAt = now\<rparr> cache"

definition Lookup ::
  "IdentityDoc \<Rightarrow> string \<Rightarrow> gotime \<Rightarrow> (string \<Rightarrow> WhoisReply) \<Rightarrow> gotime \<Rightarrow> whoisEntry gomap
     \<Rightarrow> whoisEntry gomap \<times> (string + resolvedUser)" where
  "Lookup doc ip now reply later cache =
     (case cached cache ip now of
        Some result \<Rightarrow> (cache, result)
      | None \<Rightarrow> (let result = tailscaleWhois doc ip reply in (store_whois ip result later cache, result)))"

section \<open>Groups\<close>

definition parseGroups :: "string \<Rightarrow> string list" where
  "parseGroups header =
     (if header = [] then [] else filter (\<lambda>g. g \<noteq> []) (map TrimSpace (Split CHR '','' header)))"

definition checkGroups :: "string list \<Rightarrow> string list \<Rightarrow> bool" where
  "checkGroups userGroups requiredGroups \<longleftrightarrow>
     requiredGroups = [] \<or> list_ex (\<lambda>req. list_ex (\<lambda>have. req = have) userGroups) requiredGroups"

section \<open>Handlers\<close>

record Config =
  CookieSigningKey :: string
  CookieDomain :: string
  SessionMaxAge :: int

definition session_max_age :: "string \<Rightarrow> int" where
  "session_max_age env =
     (case ParseDuration ((if env = [] then ''86400'' else env) @ ''s'') of None \<Rightarrow> 24 * Hour | Some d \<Rightarrow> d)"

record ValidateRequest =
  RequiredGroups :: string
  RealIP :: string
  Cookie :: "string option"      \<comment> \<open>the value of the first \<open>_fort_identity\<close>\<close>

datatype ValidateAnswer =
    Refused nat
  | Identified string string string      \<comment> \<open>the headers for the user, the email, the groups\<close>

definition setIdentityHeaders :: "resolvedUser \<Rightarrow> ValidateAnswer" where
  "setIdentityHeaders user = Identified (Name user) (Email user) (Join (elems (Groups user)) '','')"

definition handleValidate ::
  "(string \<Rightarrow> string \<Rightarrow> string) \<Rightarrow> Config \<Rightarrow> IdentityDoc \<Rightarrow> gotime \<Rightarrow> (string \<Rightarrow> WhoisReply) \<Rightarrow> gotime
     \<Rightarrow> ValidateRequest \<Rightarrow> whoisEntry gomap \<Rightarrow> whoisEntry gomap \<times> ValidateAnswer" where
  "handleValidate hmac cfg doc now reply later r cache =
     (let requiredGroups = parseGroups (RequiredGroups r) in
      if isTailscaleIP (RealIP r) then
        (case Lookup doc (RealIP r) now reply later cache of
           (cache', Inl err) \<Rightarrow> (cache', Refused 401)
         | (cache', Inr user) \<Rightarrow>
             (cache', if \<not> checkGroups (elems (Groups user)) requiredGroups then Refused 403
                      else setIdentityHeaders user))
      else
        (cache,
         case Cookie r of
           None \<Rightarrow> Refused 401
         | Some value \<Rightarrow>
             (case validateSession hmac now value (CookieSigningKey cfg) of
                Inl err \<Rightarrow> Refused 401
              | Inr payload \<Rightarrow>
                  if \<not> checkGroups (elems (SessionGroups payload)) requiredGroups then Refused 403
                  else setIdentityHeaders
                         \<lparr>Name = SessionSub payload, Email = SessionEmail payload, Groups = SessionGroups payload\<rparr>)))"

text \<open>
  The login: the callback of the host asked for, and as OAuth state the page to come back to.
\<close>

record LoginRequest =
  Rd :: string               \<comment> \<open>the query parameter rd\<close>
  OriginalHost :: string     \<comment> \<open>X-Original-Host\<close>
  LoginHost :: string        \<comment> \<open>the Host header\<close>

definition callback_url :: "string \<Rightarrow> string" where
  "callback_url host = ''https://'' @ host @ ''/_identity/callback''"

definition handleLogin :: "LoginRequest \<Rightarrow> string \<times> string" where
  "handleLogin r =
     (let rd = (if Rd r = [] then ''https://'' @ OriginalHost r @ ''/'' else Rd r);
          host = (if OriginalHost r = [] then LoginHost r else OriginalHost r)
      in (callback_url host, rd))"

text \<open>
  The OAuth and OpenID libraries: \<open>Exchange\<close> of a code and a callback for a token with or
  without an \<open>id_token\<close>, and \<open>Verify\<close> of that for its claims.
\<close>

record OidcLib =
  Exchange :: "string \<Rightarrow> string \<Rightarrow> string + string option"
  Verify :: "string \<Rightarrow> string + string"

record CallbackRequest =
  Code :: string
  OAuthState :: string
  CallbackHost :: string

datatype CallbackAnswer =
    LoginFailed nat string
  | LoggedIn string string int string     \<comment> \<open>cookie value, its domain and MaxAge; the page to go to\<close>

definition claims_email :: "string \<Rightarrow> string option" where
  "claims_email claims =
     unmarshal_struct (\<lambda>ms.
       Option.bind (dec_field ''email'' dec_string [] ms) (\<lambda>email.
       Option.bind (dec_field ''preferred_username'' dec_string [] ms) (\<lambda>_. Some email))) claims"

definition max_age_seconds :: "int \<Rightarrow> int" where
  "max_age_seconds d = (if 0 \<le> d then d div Second else - (- d div Second))"

definition handleOidcCallback ::
  "(string \<Rightarrow> string \<Rightarrow> string) \<Rightarrow> Config \<Rightarrow> IdentityDoc \<Rightarrow> OidcLib \<Rightarrow> gotime \<Rightarrow> CallbackRequest \<Rightarrow> CallbackAnswer" where
  "handleOidcCallback hmac cfg doc lib now r =
     (if Code r = [] then LoginFailed 400 ''missing code''
      else
        (case Exchange lib (Code r) (callback_url (CallbackHost r)) of
           Inl err \<Rightarrow> LoginFailed 500 ''authentication failed''
         | Inr None \<Rightarrow> LoginFailed 500 ''missing id_token''
         | Inr (Some rawIDToken) \<Rightarrow>
             (case Verify lib rawIDToken of
                Inl err \<Rightarrow> LoginFailed 500 ''token verification failed''
              | Inr claims \<Rightarrow>
                  (case claims_email claims of
                     None \<Rightarrow> LoginFailed 500 ''claims extraction failed''
                   | Some email \<Rightarrow>
                       (case map_of (byEmail doc) (ToLower email) of
                          None \<Rightarrow> LoginFailed 403 ''user not authorized''
                        | Some user \<Rightarrow>
                            LoggedIn (createSession hmac user (SessionMaxAge cfg) now (CookieSigningKey cfg))
                              (CookieDomain cfg) (max_age_seconds (SessionMaxAge cfg))
                              (if OAuthState r = [] then ''https://'' @ CallbackHost r @ ''/'' else OAuthState r))))))"

section \<open>Lemmas\<close>

lemma session_in_range:
  "int64_ok (Exp p) \<Longrightarrow> session_of (session_json p) = Some p"
proof -
  assume e: "int64_ok (Exp p)"
  let ?ms = "[(''sub'', JStr (SessionSub p)), (''email'', JStr (SessionEmail p)), (''groups'', slice_json (SessionGroups p)),
      (''exp'', JNum (Itoa (Exp p)))]"
  have ne: "\<not> fold_eq ''email'' ''sub''" "\<not> fold_eq ''groups'' ''sub''" "\<not> fold_eq ''exp'' ''sub''"
    "\<not> fold_eq ''sub'' ''email''" "\<not> fold_eq ''groups'' ''email''" "\<not> fold_eq ''exp'' ''email''"
    "\<not> fold_eq ''sub'' ''groups''" "\<not> fold_eq ''email'' ''groups''" "\<not> fold_eq ''exp'' ''groups''"
    "\<not> fold_eq ''sub'' ''exp''" "\<not> fold_eq ''email'' ''exp''" "\<not> fold_eq ''groups'' ''exp''"
    by code_simp+
  have "json_ints (JObj ?ms)" by auto
  then have "session_of (session_json p) = session_fields ?ms"
    unfolding session_of_def session_json_def by (rule unmarshal_printed)
  also have "\<dots> = Some p"
    using e by (simp add: session_fields_def dec_field_def ne dec_string_def dec_int_def ParseInt_Itoa)
  finally show ?thesis .
qed

interpretation session_codec: json_codec session_json session_of "\<lambda>p. int64_ok (Exp p)"
  by unfold_locales (rule session_in_range)

lemma validate_created:
  assumes "int64_ok (toUnix (now + maxAge))"
  shows "validateSession hmac later (createSession hmac user maxAge now key) key =
    (if toUnix later \<le> toUnix (now + maxAge) then Inr (new_session user maxAge now) else Inl ''session expired'')"
proof -
  have "session_of (session_json (new_session user maxAge now)) = Some (new_session user maxAge now)"
    using assms by (intro session_in_range) (simp add: new_session_def)
  then show ?thesis by (simp add: validateSession_def createSession_def) (simp add: new_session_def)
qed

lemma validate_checked:
  "validateSession hmac now value key = Inr p \<longleftrightarrow>
     (\<exists>encoded. checked_part hmac key value = Inr encoded
        \<and> Option.bind (RawURLEncoding_DecodeString encoded) session_of = Some p \<and> toUnix now \<le> Exp p)"
  by (cases "checked_part hmac key value")
     (auto simp: validateSession_def bind_eq_Some_conv split: option.splits)

lemma validate_iff:
  "validateSession hmac now value key = Inr p \<longleftrightarrow>
     (\<exists>encoded. value = encoded @ ''.'' @ signHMAC hmac encoded key \<and> CHR ''.'' \<notin> set encoded
        \<and> Option.bind (RawURLEncoding_DecodeString encoded) session_of = Some p \<and> toUnix now \<le> Exp p)"
  unfolding validate_checked checked_part_iff by blast

subsection \<open>The identity document\<close>

definition identity_indexed :: "User gomap \<Rightarrow> IdentityDoc \<Rightarrow> bool" where
  "identity_indexed raw doc \<longleftrightarrow>
     (\<forall>e ru. map_of (byEmail doc) e = Some ru \<longrightarrow> (\<exists>(name, u) \<in> set raw. ru = resolve name u \<and> e \<in> ToLower ` set (Emails u)))
   \<and> (\<forall>i ru. map_of (byHeadscaleID doc) i = Some ru \<longrightarrow> (\<exists>(name, u) \<in> set raw. ru = resolve name u \<and> i = HeadscaleID u))
   \<and> (\<forall>(name, u) \<in> set raw. map_of (byHeadscaleID doc) (HeadscaleID u) \<noteq> None
        \<and> (\<forall>e \<in> set (Emails u). map_of (byEmail doc) (ToLower e) \<noteq> None))"

lemma map_of_fold_emails:
  "map_of (fold (\<lambda>email m. AList.update (f email) ru m) es m) e = (if e \<in> f ` set es then Some ru else map_of m e)"
  by (induction es arbitrary: m) (auto simp: map_of_update)

lemma map_of_update_any: "map_of (AList.update k v m) k' = (if k' = k then Some v else map_of m k')"
  by (simp add: AList.update_conv')

lemma index_user_indexed:
  assumes "identity_indexed raw doc"
  shows "identity_indexed (raw @ [(name, u)]) (index_user (name, u) doc)"
  using assms
  by (auto simp: identity_indexed_def index_user_def Let_def map_of_fold_emails map_of_update_any split: if_splits)

lemma loadIdentityDoc_indexed: "identity_indexed raw (loadIdentityDoc raw)"
proof (induction raw rule: rev_induct)
  case Nil
  then show ?case by (simp add: identity_indexed_def loadIdentityDoc_def)
next
  case (snoc nu raw)
  then show ?case using index_user_indexed [of raw "loadIdentityDoc raw" "fst nu" "snd nu"] by (simp add: loadIdentityDoc_def)
qed

lemma identity_indexedD:
  "identity_indexed raw doc \<Longrightarrow> map_of (byEmail doc) e = Some ru
     \<Longrightarrow> \<exists>(name, u) \<in> set raw. ru = resolve name u \<and> e \<in> ToLower ` set (Emails u)"
  "identity_indexed raw doc \<Longrightarrow> map_of (byHeadscaleID doc) i = Some ru
     \<Longrightarrow> \<exists>(name, u) \<in> set raw. ru = resolve name u \<and> i = HeadscaleID u"
  by (auto simp: identity_indexed_def)

text \<open>
  A whois answer without a profile counts as the user with number 0, which is everyone the
  document gives no \<open>headscale_id\<close>.
\<close>

lemma whois_without_profile: "tailscaleWhois doc ip (\<lambda>_. WhoisResponse 200 ''{}'') =
    (case map_of (byHeadscaleID doc) 0 of
       None \<Rightarrow> Inl (''headscale user 0 () not in identity doc'') | Some u \<Rightarrow> Inr u)"
proof -
  have "whois_profile ''{}'' = Some \<lparr>ProfileID = 0, LoginName = []\<rparr>" by code_simp
  moreover have "Itoa 0 = ''0''" by code_simp
  ultimately show ?thesis by (simp add: tailscaleWhois_def split: option.splits)
qed

subsection \<open>The cache\<close>

text \<open>
  Handlers run side by side, so that the write of one lookup may come any time after its read;
  \<open>whois_runs\<close> knows the writes alone: the answers of the daemon, latest first, with the
  address and the time, on a clock that does not run backwards.
\<close>

inductive whois_runs :: "IdentityDoc \<Rightarrow> whoisEntry gomap \<Rightarrow> (string \<times> gotime \<times> (string \<Rightarrow> WhoisReply)) list \<Rightarrow> bool" for doc where
  whois_start: "whois_runs doc [] []"
| whois_store: "whois_runs doc cache hist \<Longrightarrow> (\<forall>(ip', t, reply') \<in> set hist. t \<le> now)
    \<Longrightarrow> whois_runs doc (store_whois ip (tailscaleWhois doc ip reply) now cache) ((ip, now, reply) # hist)"

inductive_cases whois_stored: "whois_runs doc cache (h # hist)"

lemma whois_runs_entry:
  "whois_runs doc cache hist \<Longrightarrow> map_of cache ip = Some e
     \<Longrightarrow> \<exists>reply. (ip, fetchedAt e, reply) \<in> set hist \<and> entryResult e = tailscaleWhois doc ip reply
          \<and> (\<forall>t reply'. (ip, t, reply') \<in> set hist \<longrightarrow> t \<le> fetchedAt e)"
proof (induction arbitrary: e rule: whois_runs.induct)
  case (whois_store cache hist now ip' reply)
  show ?case
  proof (cases "ip = ip'")
    case True
    then have "e = \<lparr>entryResult = tailscaleWhois doc ip reply, fetchedAt = now\<rparr>"
      using whois_store.prems by (simp add: store_whois_def map_of_update)
    then show ?thesis using whois_store.hyps(2) True by (intro exI [of _ reply]) auto
  next
    case False
    then have "map_of cache ip = Some e" using whois_store.prems by (simp add: store_whois_def map_of_update)
    from whois_store.IH [OF this] False show ?thesis by auto
  qed
qed simp

lemma Sub_less: "0 < d \<Longrightarrow> d < maxDuration \<Longrightarrow> Sub t u < d \<longleftrightarrow> t - u < d"
  by (auto simp: Sub_def)

lemma cached_recent:
  assumes "whois_runs doc cache hist" "cached cache ip now = Some result"
  shows "\<exists>t reply. (ip, t, reply) \<in> set hist \<and> now - t < cache_ttl \<and> result = tailscaleWhois doc ip reply"
proof -
  obtain e where e: "map_of cache ip = Some e" "now - fetchedAt e < cache_ttl" "result = entryResult e"
    using assms(2) by (auto simp: cached_def Sub_less split: option.splits if_splits)
  then show ?thesis using whois_runs_entry [OF assms(1) e(1)] by metis
qed

lemma Lookup_answer:
  assumes "whois_runs doc cache hist" "Lookup doc ip now reply later cache = (cache', result)"
  obtains t reply' where "(ip, t, reply') \<in> set ((ip, later, reply) # hist)" "result = tailscaleWhois doc ip reply'"
    "reply' = reply \<or> now - t < cache_ttl"
proof (cases "cached cache ip now")
  case None
  then have "result = tailscaleWhois doc ip reply" using assms(2) by (simp add: Lookup_def Let_def)
  then show thesis by (intro that [of later reply]) auto
next
  case (Some r)
  then have "result = r" using assms(2) by (simp add: Lookup_def)
  then show thesis using cached_recent [OF assms(1) Some] that by auto
qed

lemma tailscaleWhois_user:
  assumes "tailscaleWhois doc ip daemon = Inr u"
  obtains body p where "daemon (whois_url ip) = WhoisResponse 200 body" "whois_profile body = Some p"
    "map_of (byHeadscaleID doc) (ProfileID p) = Some u"
  using assms by (auto simp: tailscaleWhois_def split: WhoisReply.splits if_splits option.splits)

lemma identified_cases:
  assumes "handleValidate hmac cfg doc now reply later r cache = (cache', Identified user email groups)"
  obtains u where "isTailscaleIP (RealIP r)" "Lookup doc (RealIP r) now reply later cache = (cache', Inr u)"
      "checkGroups (elems (Groups u)) (parseGroups (RequiredGroups r))" "Identified user email groups = setIdentityHeaders u"
  | v p where "\<not> isTailscaleIP (RealIP r)" "Cookie r = Some v" "cache' = cache"
      "validateSession hmac now v (CookieSigningKey cfg) = Inr p"
      "checkGroups (elems (SessionGroups p)) (parseGroups (RequiredGroups r))"
      "Identified user email groups = setIdentityHeaders \<lparr>Name = SessionSub p, Email = SessionEmail p, Groups = SessionGroups p\<rparr>"
proof (cases "isTailscaleIP (RealIP r)")
  case True
  then show thesis using assms that(1)
    by (auto simp: handleValidate_def Let_def split: prod.splits sum.splits if_splits)
next
  case False
  then show thesis using assms that(2)
    by (auto simp: handleValidate_def Let_def split: option.splits sum.splits if_splits)
qed

lemma logged_in:
  assumes "handleOidcCallback hmac cfg doc lib now c = LoggedIn cookie domain age page"
  obtains tok claims email u where "Exchange lib (Code c) (callback_url (CallbackHost c)) = Inr (Some tok)"
    "Verify lib tok = Inr claims" "claims_email claims = Some email" "map_of (byEmail doc) (ToLower email) = Some u"
    "cookie = createSession hmac u (SessionMaxAge cfg) now (CookieSigningKey cfg)"
  using assms by (auto simp: handleOidcCallback_def split: if_splits sum.splits option.splits)

lemma validate_cookie:
  assumes "\<not> isTailscaleIP (RealIP r)" "Cookie r = Some v"
  shows "handleValidate hmac cfg doc now reply later r cache = (cache,
    case validateSession hmac now v (CookieSigningKey cfg) of
      Inl err \<Rightarrow> Refused 401
    | Inr p \<Rightarrow> if \<not> checkGroups (elems (SessionGroups p)) (parseGroups (RequiredGroups r)) then Refused 403
               else Identified (SessionSub p) (SessionEmail p) (Join (elems (SessionGroups p)) '',''))"
  using assms by (auto simp: handleValidate_def Let_def setIdentityHeaders_def split: sum.splits)

lemma ToLower_idem [simp]: "ToLower (ToLower s) = ToLower s"
  by (auto simp: ToLower_def to_lower_def)

definition dotted :: "nat \<Rightarrow> nat \<Rightarrow> nat \<Rightarrow> nat \<Rightarrow> string" where
  "dotted a b c d = nat_digits a @ ''.'' @ nat_digits b @ ''.'' @ nat_digits c @ ''.'' @ nat_digits d"

lemma dotted_tailscale: "isTailscaleIP (dotted a b c d) \<longleftrightarrow> a = 100"
proof
  assume "isTailscaleIP (dotted a b c d)"
  then obtain t where t: "dotted a b c d = ''100'' @ CHR ''.'' # t" by (auto simp: isTailscaleIP_def HasPrefix_iff)
  obtain r where r: "dotted a b c d = nat_digits a @ CHR ''.'' # r" by (simp add: dotted_def)
  have n: "CHR ''.'' \<notin> set (nat_digits a)" using nat_digits_all [of a] by (auto simp: list_all_iff is_digit_def)
  have "SplitN2 CHR ''.'' (dotted a b c d) = (''100'', Some t)" unfolding t by (intro SplitN2_append) auto
  moreover have "SplitN2 CHR ''.'' (dotted a b c d) = (nat_digits a, Some r)" unfolding r by (rule SplitN2_append [OF n])
  ultimately have "nat_digits a = ''100''" by simp
  then show "a = 100" using digits_val_nat_digits [of a] by (simp add: digits_val_def digit_val_def)
next
  have "nat_digits 100 = ''100''" by code_simp
  moreover assume "a = 100"
  ultimately show "isTailscaleIP (dotted a b c d)" by (simp add: isTailscaleIP_def dotted_def HasPrefix_def)
qed

section \<open>Properties\<close>

text \<open>
  C7: Only known users pass. When nginx is told a user, either the request came from an address
  the program takes for one of the VPN, and the daemon, asked about that address now or less than
  five minutes ago, named a user of the document with one of the required groups; or its cookie is a
  payload signed with the cookie key that has not expired and holds one of those groups. The
  headers are those of that user or payload.
\<close>

theorem identity_sound:
  assumes "whois_runs (loadIdentityDoc raw) cache hist"
    and "handleValidate hmac cfg (loadIdentityDoc raw) now reply later r cache = (cache', Identified user email groups)"
  shows "(isTailscaleIP (RealIP r) \<and> (\<exists>t reply' name u. (RealIP r, t, reply') \<in> set ((RealIP r, later, reply) # hist)
            \<and> (reply' = reply \<or> now - t < 5 * Minute)
            \<and> (\<exists>body p. reply' (''http://local-tailscaled.sock/localapi/v0/whois?addr='' @ QueryEscape (RealIP r) @ '':1'')
                   = WhoisResponse 200 body \<and> whois_profile body = Some p \<and> HeadscaleID u = ProfileID p)
            \<and> (name, u) \<in> set raw \<and> tailscaleWhois (loadIdentityDoc raw) (RealIP r) reply' = Inr (resolve name u)
            \<and> checkGroups (elems (UserGroups u)) (parseGroups (RequiredGroups r))
            \<and> Identified user email groups = setIdentityHeaders (resolve name u)))
      \<or> (\<not> isTailscaleIP (RealIP r) \<and> (\<exists>encoded p. Cookie r = Some (encoded @ ''.'' @ signHMAC hmac encoded (CookieSigningKey cfg))
            \<and> Option.bind (RawURLEncoding_DecodeString encoded) session_of = Some p \<and> toUnix now \<le> Exp p
            \<and> checkGroups (elems (SessionGroups p)) (parseGroups (RequiredGroups r))
            \<and> Identified user email groups = Identified (SessionSub p) (SessionEmail p) (Join (elems (SessionGroups p)) '','')))"
  using assms(2)
proof (cases rule: identified_cases)
  case (1 u)
  obtain t reply' where l: "(RealIP r, t, reply') \<in> set ((RealIP r, later, reply) # hist)"
      "Inr u = tailscaleWhois (loadIdentityDoc raw) (RealIP r) reply'" "reply' = reply \<or> now - t < cache_ttl"
    using Lookup_answer [OF assms(1) 1(2)] by metis
  obtain body p where d: "reply' (whois_url (RealIP r)) = WhoisResponse 200 body" "whois_profile body = Some p"
      "map_of (byHeadscaleID (loadIdentityDoc raw)) (ProfileID p) = Some u"
    using tailscaleWhois_user [OF l(2) [symmetric]] .
  then obtain name v where v: "(name, v) \<in> set raw" "u = resolve name v" "ProfileID p = HeadscaleID v"
    using identity_indexedD(2) [OF loadIdentityDoc_indexed] by fast
  have "\<exists>body p. reply' (''http://local-tailscaled.sock/localapi/v0/whois?addr='' @ QueryEscape (RealIP r) @ '':1'')
      = WhoisResponse 200 body \<and> whois_profile body = Some p \<and> HeadscaleID v = ProfileID p"
    using d(1,2) v(3) by (simp add: whois_url_def)
  moreover have "checkGroups (elems (UserGroups v)) (parseGroups (RequiredGroups r))"
    using 1(3) by (simp add: v(2) resolve_def)
  ultimately show ?thesis using 1(1,4) l v(1) unfolding v(2) by (intro disjI1) metis
next
  case (2 v p)
  then show ?thesis unfolding validate_iff by (intro disjI2) (auto simp: setIdentityHeaders_def)
qed

text \<open>
  C21: A login lasts its time, for its user. A callback that sets a cookie has a verified token
  whose email, in any case, belongs to a user of the document; from an address outside the VPN
  the cookie then identifies that user, with the primary email and the groups of the document at
  the time of the login, to the pages whose groups the user has, until the session's end, and is
  refused afterwards.
\<close>

theorem login_then_validate:
  assumes "handleOidcCallback hmac cfg (loadIdentityDoc raw) lib now c = LoggedIn cookie domain age page"
    and "int64_ok (toUnix (now + SessionMaxAge cfg))"
    and "\<not> isTailscaleIP (RealIP r)" and "Cookie r = Some cookie"
  shows "\<exists>tok claims email name u.
      Exchange lib (Code c) (callback_url (CallbackHost c)) = Inr (Some tok)
    \<and> Verify lib tok = Inr claims \<and> claims_email claims = Some email
    \<and> (name, u) \<in> set raw \<and> (\<exists>e \<in> set (Emails u). ToLower e = ToLower email)
    \<and> handleValidate hmac cfg doc' later reply later' r cache = (cache,
        if toUnix (now + SessionMaxAge cfg) < toUnix later then Refused 401
        else if \<not> checkGroups (elems (UserGroups u)) (parseGroups (RequiredGroups r)) then Refused 403
        else Identified name (case Emails u of [] \<Rightarrow> [] | e # _ \<Rightarrow> e) (Join (elems (UserGroups u)) '',''))"
proof -
  obtain tok claims email ru where l: "Exchange lib (Code c) (callback_url (CallbackHost c)) = Inr (Some tok)"
      "Verify lib tok = Inr claims" "claims_email claims = Some email"
      "map_of (byEmail (loadIdentityDoc raw)) (ToLower email) = Some ru"
      "cookie = createSession hmac ru (SessionMaxAge cfg) now (CookieSigningKey cfg)"
    using logged_in [OF assms(1)] .
  obtain name u where u: "(name, u) \<in> set raw" "ru = resolve name u" "ToLower email \<in> ToLower ` set (Emails u)"
    using identity_indexedD(1) [OF loadIdentityDoc_indexed l(4)] by fast
  have payload_answer: "(if \<not> checkGroups (elems (SessionGroups p)) gs then Refused 403
      else Identified (SessionSub p) (SessionEmail p) (Join (elems (SessionGroups p)) '',''))
    = (if \<not> checkGroups (elems (UserGroups u)) gs then Refused 403
       else Identified name (case Emails u of [] \<Rightarrow> [] | e # _ \<Rightarrow> e) (Join (elems (UserGroups u)) '',''))"
    if "p = new_session (resolve name u) a b" for p gs a b
    using that by (simp add: new_session_def resolve_def)
  note vs = validate_created [OF assms(2), of hmac later ru "CookieSigningKey cfg", folded l(5)]
  have "handleValidate hmac cfg doc' later reply later' r cache = (cache,
        if toUnix (now + SessionMaxAge cfg) < toUnix later then Refused 401
        else if \<not> checkGroups (elems (UserGroups u)) (parseGroups (RequiredGroups r)) then Refused 403
        else Identified name (case Emails u of [] \<Rightarrow> [] | e # _ \<Rightarrow> e) (Join (elems (UserGroups u)) '',''))"
  proof (cases "toUnix later \<le> toUnix (now + SessionMaxAge cfg)")
    case True
    then have "\<not> toUnix (now + SessionMaxAge cfg) < toUnix later" by simp
    with True show ?thesis
      unfolding validate_cookie [OF assms(3,4)] vs u(2) by (simp only: if_True if_False sum.case payload_answer [OF refl])
  next
    case False
    then have "toUnix (now + SessionMaxAge cfg) < toUnix later" by simp
    with False show ?thesis unfolding validate_cookie [OF assms(3,4)] vs by (simp only: if_True if_False sum.case)
  qed
  moreover have "\<exists>e \<in> set (Emails u). ToLower e = ToLower email" using u(3) by force
  ultimately show ?thesis using l(1-3) u(1) by blast
qed

text \<open>
  The VPN range is taken too wide. Every address whose first number is 100 counts as one of
  the VPN, though Tailscale's range is 100.64.0.0/10 alone; so a browser at a public address such
  as 100.1.2.3, which the daemon does not know, is refused with 401 whatever cookie it shows.
\<close>

theorem vpn_range:
  "(isTailscaleIP (dotted a b c d) \<longleftrightarrow> a = 100)
   \<and> (a = 100 \<and> cached cache (dotted a b c d) now = None \<and> tailscaleWhois doc (dotted a b c d) reply = Inl err
        \<longrightarrow> snd (handleValidate hmac cfg doc now reply later
              \<lparr>RequiredGroups = groups, RealIP = dotted a b c d, Cookie = cookie\<rparr> cache) = Refused 401)"
  by (auto simp: dotted_tailscale handleValidate_def Lookup_def Let_def)

section \<open>Witnesses\<close>

definition demo_raw :: "User gomap" where
  "demo_raw = [(''kevin'', \<lparr>HeadscaleID = 7, Emails = [''Kevin@x.org'', ''k@y.org''], UserGroups = Some [''admins'', ''media'']\<rparr>),
               (''guest'', \<lparr>HeadscaleID = 0, Emails = [], UserGroups = None\<rparr>)]"

definition demo_cfg :: Config where
  "demo_cfg = \<lparr>CookieSigningKey = ''key'', CookieDomain = ''.x.org'', SessionMaxAge = 24 * Hour\<rparr>"

definition demo_oidc :: OidcLib where
  "demo_oidc = \<lparr>Exchange = (\<lambda>code url. if code = ''ok'' then Inr (Some ''tok'') else Inl ''bad code''),
     Verify = (\<lambda>t. Inr (js ''{~email~:~K@Y.org~,~preferred_username~:~kev~}''))\<rparr>"

text \<open>A code of one byte stands for the message authentication code.\<close>

definition demo_mac :: "string \<Rightarrow> string \<Rightarrow> string" where
  "demo_mac key data = [char_of (length key + length data)]"

definition demo_reply :: "string \<Rightarrow> WhoisReply" where
  "demo_reply url =
     (if url = ''http://local-tailscaled.sock/localapi/v0/whois?addr=100.64.0.9:1''
      then WhoisResponse 200 (js ''{~UserProfile~:{~ID~:7,~LoginName~:~kevin~}}'') else WhoisResponse 404 [])"

lemma demo_whois: "tailscaleWhois (loadIdentityDoc demo_raw) ''100.64.0.9'' demo_reply
    = Inr (resolve ''kevin'' \<lparr>HeadscaleID = 7, Emails = [''Kevin@x.org'', ''k@y.org''], UserGroups = Some [''admins'', ''media'']\<rparr>)"
  by code_simp

lemma demo_vpn: "handleValidate demo_mac demo_cfg (loadIdentityDoc demo_raw) 0 demo_reply 1
    \<lparr>RequiredGroups = ''admins, ops'', RealIP = ''100.64.0.9'', Cookie = None\<rparr> []
   = (store_whois ''100.64.0.9'' (tailscaleWhois (loadIdentityDoc demo_raw) ''100.64.0.9'' demo_reply) 1 [],
      Identified ''kevin'' ''Kevin@x.org'' ''admins,media'')"
  by (simp add: handleValidate_def Lookup_def cached_def Let_def demo_whois isTailscaleIP_def HasPrefix_def resolve_def
      setIdentityHeaders_def elems_def checkGroups_def parseGroups_def TrimSpace_def is_space_def)

theorem identity_sound_witness:
  "\<exists>name u. (name, u) \<in> set demo_raw \<and> tailscaleWhois (loadIdentityDoc demo_raw) ''100.64.0.9'' demo_reply = Inr (resolve name u)"
proof -
  have "isTailscaleIP ''100.64.0.9''" by (simp add: isTailscaleIP_def HasPrefix_def)
  with identity_sound [OF whois_start demo_vpn] show ?thesis by auto
qed

theorem login_then_validate_witness:
  "\<exists>cookie. handleOidcCallback demo_mac demo_cfg (loadIdentityDoc demo_raw) demo_oidc 0
       \<lparr>Code = ''ok'', OAuthState = [], CallbackHost = ''x.org''\<rparr> = LoggedIn cookie ''.x.org'' 86400 ''https://x.org/''
   \<and> snd (handleValidate demo_mac demo_cfg (loadIdentityDoc []) Hour demo_reply Hour
       \<lparr>RequiredGroups = ''media'', RealIP = ''192.0.2.1'', Cookie = Some cookie\<rparr> []) = Identified ''kevin'' ''Kevin@x.org'' ''admins,media''"
proof -
  let ?c = "\<lparr>Code = ''ok'', OAuthState = [], CallbackHost = ''x.org''\<rparr>"
  have em: "claims_email (js ''{~email~:~K@Y.org~,~preferred_username~:~kev~}'') = Some ''K@Y.org''" by code_simp
  have by_email: "map_of (byEmail (loadIdentityDoc demo_raw)) (ToLower ''K@Y.org'') = Some (resolve ''kevin'' (snd (hd demo_raw)))"
    by code_simp
  then obtain cookie where c: "handleOidcCallback demo_mac demo_cfg (loadIdentityDoc demo_raw) demo_oidc 0 ?c
      = LoggedIn cookie ''.x.org'' 86400 ''https://x.org/''"
    by (auto simp: handleOidcCallback_def demo_oidc_def em demo_cfg_def max_age_seconds_def)
  let ?r = "\<lparr>RequiredGroups = ''media'', RealIP = ''192.0.2.1'', Cookie = Some cookie\<rparr>"
  have "int64_ok (toUnix (0 + SessionMaxAge demo_cfg))" by (simp add: demo_cfg_def toUnix_def int64_ok_def)
  moreover have "\<not> isTailscaleIP (RealIP ?r)" by (simp add: isTailscaleIP_def HasPrefix_def)
  moreover have "Cookie ?r = Some cookie" by simp
  ultimately have "\<exists>tok claims email name u. Exchange demo_oidc (Code ?c) (callback_url (CallbackHost ?c)) = Inr (Some tok)
     \<and> Verify demo_oidc tok = Inr claims \<and> claims_email claims = Some email
     \<and> (name, u) \<in> set demo_raw \<and> (\<exists>e \<in> set (Emails u). ToLower e = ToLower email)
     \<and> handleValidate demo_mac demo_cfg (loadIdentityDoc []) Hour demo_reply Hour ?r [] = ([],
        if toUnix (0 + SessionMaxAge demo_cfg) < toUnix Hour then Refused 401
        else if \<not> checkGroups (elems (UserGroups u)) (parseGroups (RequiredGroups ?r)) then Refused 403
        else Identified name (case Emails u of [] \<Rightarrow> [] | e # _ \<Rightarrow> e) (Join (elems (UserGroups u)) '',''))"
    by (rule login_then_validate [OF c])
  then obtain tok claims email name u where
    p: "Exchange demo_oidc (Code ?c) (callback_url (CallbackHost ?c)) = Inr (Some tok)"
       "Verify demo_oidc tok = Inr claims" "claims_email claims = Some email"
       "(name, u) \<in> set demo_raw" "\<exists>e \<in> set (Emails u). ToLower e = ToLower email"
       "handleValidate demo_mac demo_cfg (loadIdentityDoc []) Hour demo_reply Hour ?r [] = ([],
        if toUnix (0 + SessionMaxAge demo_cfg) < toUnix Hour then Refused 401
        else if \<not> checkGroups (elems (UserGroups u)) (parseGroups (RequiredGroups ?r)) then Refused 403
        else Identified name (case Emails u of [] \<Rightarrow> [] | e # _ \<Rightarrow> e) (Join (elems (UserGroups u)) '',''))"
    by (elim exE conjE) (rule that)
  have "name = ''kevin''" "u = snd (hd demo_raw)" using p(4,5) by (auto simp: demo_raw_def)
  then have "snd (handleValidate demo_mac demo_cfg (loadIdentityDoc []) Hour demo_reply Hour ?r [])
      = Identified ''kevin'' ''Kevin@x.org'' ''admins,media''"
    using p(6) by (simp add: demo_raw_def demo_cfg_def toUnix_def elems_def checkGroups_def parseGroups_def TrimSpace_def is_space_def)
  with c show ?thesis by blast
qed

theorem vpn_range_witness:
  "snd (handleValidate demo_mac demo_cfg (loadIdentityDoc demo_raw) 0 (\<lambda>_. WhoisResponse 404 [])
     0 \<lparr>RequiredGroups = [], RealIP = dotted 100 1 2 3, Cookie = Some ''any''\<rparr> []) = Refused 401"
proof -
  have "Itoa 404 = ''404''" by code_simp
  then have "tailscaleWhois (loadIdentityDoc demo_raw) ip (\<lambda>_. WhoisResponse 404 []) = Inl ''whois status 404''" for ip
    by (simp add: tailscaleWhois_def)
  then show ?thesis
    using vpn_range [of 100 1 2 3 "[]" 0 "loadIdentityDoc demo_raw" "\<lambda>_. WhoisResponse 404 []" "''whois status 404''" demo_mac demo_cfg 0 "[]"
        "Some ''any''"]
    by (simp add: cached_def)
qed

end
