(* ===== verification/Identity_Main.thy ===== *)
theory Identity_Main
  imports Identity_Proxy
begin

text \<open>
  \<open>loadConfig\<close> of \<open>pkgs/identity-proxy/main.go\<close>: the environment and the files it names, and the
  key the sessions are signed with.
\<close>

record ProxyConfig = Config +
  ListenSocket :: string
  DocPath :: string
  Issuer :: string
  OIDCClientID :: string
  OIDCClientSecret :: string

definition envOr :: "(string \<Rightarrow> string) \<Rightarrow> string \<Rightarrow> string \<Rightarrow> string" where
  "envOr env key fallback = (if env key \<noteq> [] then env key else fallback)"

text \<open>The message of \<open>log.Fatalf\<close>, or the value.\<close>

definition envRequired :: "(string \<Rightarrow> string) \<Rightarrow> string \<Rightarrow> string + string" where
  "envRequired env key = (if env key = [] then Inl (''required env var '' @ key @ '' not set'') else Inr (env key))"

text \<open>The contents of the file that a required variable names.\<close>

definition named_file :: "(string \<Rightarrow> string) \<Rightarrow> (string \<Rightarrow> string + string) \<Rightarrow> string \<Rightarrow> (string \<Rightarrow> string) \<Rightarrow> string + string" where
  "named_file env files key label =
     (case envRequired env key of
        Inl err \<Rightarrow> Inl err
      | Inr path \<Rightarrow> (case files path of Inl err \<Rightarrow> Inl (label path @ '': '' @ err) | Inr b \<Rightarrow> Inr b))"

definition loadConfig :: "(string \<Rightarrow> string) \<Rightarrow> (string \<Rightarrow> string + string) \<Rightarrow> string + ProxyConfig" where
  "loadConfig env files =
     (case envRequired env ''IDENTITY_DOC'' of
        Inl err \<Rightarrow> Inl err
      | Inr identityDoc \<Rightarrow>
          (case named_file env files ''COOKIE_SIGNING_KEY'' (\<lambda>path. ''read cookie signing key '' @ path) of
             Inl err \<Rightarrow> Inl err
           | Inr keyBytes \<Rightarrow>
               (case named_file env files ''OIDC_CLIENT_ID_FILE'' (\<lambda>path. ''read client id'') of
                  Inl err \<Rightarrow> Inl err
                | Inr clientID \<Rightarrow>
                    (case named_file env files ''OIDC_CLIENT_SECRET_FILE'' (\<lambda>path. ''read client secret'') of
                       Inl err \<Rightarrow> Inl err
                     | Inr clientSecret \<Rightarrow>
                         Inr \<lparr>CookieSigningKey = keyBytes, CookieDomain = envOr env ''COOKIE_DOMAIN'' ''.gisi.network'',
                           SessionMaxAge = session_max_age (env ''SESSION_MAX_AGE''),
                           ListenSocket = envOr env ''LISTEN_SOCKET'' ''/run/identity-proxy/identity-proxy.sock'',
                           DocPath = identityDoc, Issuer = envOr env ''OIDC_ISSUER'' ''https://id.gisi.network'',
                           OIDCClientID = TrimSpace clientID, OIDCClientSecret = TrimSpace clientSecret\<rparr>))))"

text \<open>
  An empty key file is taken as it is: the program starts, and anyone, without knowing anything of
  the host, can make a cookie that it accepts for a name and groups of their choice.
\<close>

lemma blank_key_open:
  assumes "loadConfig env files = Inr cfg" and "files (env ''COOKIE_SIGNING_KEY'') = Inr []"
    and "\<not> isTailscaleIP (RealIP r)" and "Cookie r = Some (createSession hmac anyone Hour now [])"
    and "int64_ok (toUnix (now + Hour))" and "toUnix later \<le> toUnix (now + Hour)"
    and "checkGroups (elems (Groups anyone)) (parseGroups (RequiredGroups r))"
  shows "handleValidate hmac (Config.truncate cfg) doc later reply later' r cache
    = (cache, Identified (Name anyone) (Email anyone) (Join (elems (Groups anyone)) '',''))"
proof -
  have key: "CookieSigningKey (Config.truncate cfg) = []"
    using assms(1,2) by (auto simp: loadConfig_def named_file_def envRequired_def Config.defs split: sum.splits if_splits)
  show ?thesis
    using assms(3-7) validate_created [OF assms(5), of hmac later anyone "[]"]
    by (simp add: validate_cookie key new_session_def)
qed

end
