(* ===== verification/Json_Number.thy ===== *)
theory Json_Number
  imports Json_Text
begin

text \<open>
  Integers as float64: below \<open>2 ^ 53\<close> they keep their value, in a JSON text and in a
  conversion.
\<close>

text \<open>The conversion of a non-negative float64 to an integer type drops its fraction.\<close>

definition f64_trunc :: "nat \<times> int \<Rightarrow> nat" where
  "f64_trunc x = (case x of (m, e) \<Rightarrow> if 0 \<le> e then m * 2 ^ nat e else m div 2 ^ nat (- e))"

lemma ilog2_bounds: "0 < n \<Longrightarrow> 2 ^ ilog2 n \<le> n \<and> n < 2 ^ Suc (ilog2 n)"
proof (induction n rule: ilog2.induct)
  case (1 n)
  show ?case
  proof (cases "n < 2")
    case True
    then have "n = 1" using 1(2) by simp
    then show ?thesis by (simp add: ilog2.simps)
  next
    case False
    then have h: "2 ^ ilog2 (n div 2) \<le> n div 2 \<and> n div 2 < 2 ^ Suc (ilog2 (n div 2))" using 1(1) by simp
    then show ?thesis using False by (simp add: ilog2.simps [of n]) linarith
  qed
qed

lemma f64_round_exact:
  assumes "0 < n" "n < 2 ^ 53"
  shows "ilog2 n \<le> 52 \<and> f64_round n 1 = Some (n * 2 ^ (52 - ilog2 n), int (ilog2 n) - 52)"
proof -
  let ?k = "ilog2 n"
  have b: "2 ^ ?k \<le> n" "n < 2 ^ Suc ?k" using ilog2_bounds [OF assms(1)] by simp_all
  have "(2::nat) ^ ?k < 2 ^ 53" using b(1) assms(2) by linarith
  then have k: "?k \<le> 52" using power_less_imp_less_exp [of "2::nat" ?k 53] by simp
  have lt: "n * 2 ^ (52 - ?k) < 2 ^ 53"
  proof -
    have "n * 2 ^ (52 - ?k) < 2 ^ Suc ?k * 2 ^ (52 - ?k)" using b(2) by simp
    also have "\<dots> = 2 ^ 53" using k by (simp flip: power_add)
    finally show ?thesis .
  qed
  have one: "ilog2 1 = 0" by (simp add: ilog2.simps)
  show ?thesis
  proof (cases "?k = 52")
    case True
    then show ?thesis using assms b one by (simp add: f64_round_def Let_def)
  next
    case False
    then have e: "max (int ?k - 52) (- 1074) = int ?k - 52" "\<not> 0 \<le> int ?k - 52" "nat (52 - int ?k) = 52 - ?k" using k by auto
    show ?thesis using assms b lt k unfolding f64_round_def Let_def one by (simp add: e)
  qed
qed

lemma num_f64_Itoa: "num_f64 (Itoa (int n)) = map_option (Pair False) (f64_round n 1)"
proof -
  obtain c ds where d: "nat_digits n = c # ds" by (cases "nat_digits n") auto
  then have "c \<noteq> CHR ''-''" using nat_digits_all [of n] by (auto simp: is_digit_def)
  moreover have t: "is_digit c" "takeWhile is_digit ds = ds" "dropWhile is_digit ds = []"
    using nat_digits_all [of n] d by (simp_all add: list_all_iff)
  moreover have "digits_val [] = 0" by (simp add: digits_val_def)
  ultimately show ?thesis using digits_val_nat_digits [of n]
    by (simp add: num_f64_def Itoa_def Let_def d t del: takeWhile_eq_all_conv dropWhile_eq_Nil_conv)
qed

lemma f64_trunc_exact:
  assumes "n < 2 ^ 53"
  shows "\<exists>x. f64_round n 1 = Some x \<and> f64_trunc x = n"
proof (cases "n = 0")
  case True
  then show ?thesis by (simp add: f64_round_def f64_trunc_def)
next
  case False
  then have r: "ilog2 n \<le> 52" "f64_round n 1 = Some (n * 2 ^ (52 - ilog2 n), int (ilog2 n) - 52)"
    using f64_round_exact assms by auto
  show ?thesis
  proof (cases "ilog2 n = 52")
    case True
    with r(2) show ?thesis by (simp add: f64_trunc_def)
  next
    case False
    with r(1) have "\<not> 0 \<le> int (ilog2 n) - 52" "nat (- (int (ilog2 n) - 52)) = 52 - ilog2 n" by auto
    with r(2) show ?thesis by (simp add: f64_trunc_def)
  qed
qed

end
