(* ===== verification/Fort_Tokens.thy ===== *)
theory Fort_Tokens
  imports Signed_Token Json_Number
begin

text \<open>
  \<open>pkgs/fort-tokens/main.go\<close>: the page that issues, lists and deletes bearer tokens, over a
  table of tokens; and \<open>common/fort/token-validator.js\<close>, which nginx asks whether a request
  bears a valid one. The two share the secret and the form of a token.
\<close>

section \<open>The payload\<close>

record TokenPayload =
  TokenSub :: string
  TokenExp :: int
  JTI :: string
  TokenLabel :: string

definition payload_members :: "TokenPayload \<Rightarrow> (string \<times> json) list" where
  "payload_members p =
     [(''sub'', JStr (TokenSub p)), (''exp'', JNum (Itoa (TokenExp p))), (''jti'', JStr (JTI p)), (''label'', JStr (TokenLabel p))]"

definition payload_json :: "TokenPayload \<Rightarrow> string" where
  "payload_json p = json_print (JObj (payload_members p))"

section \<open>The table\<close>

record TokenRow =
  RowID :: int
  Label :: string
  RowJti :: string
  CreatedBy :: string
  CreatedAt :: gotime
  ExpiresAt :: gotime

text \<open>
  The table, in the order of its insertions, and the largest id it ever gave
  (\<open>AUTOINCREMENT\<close>). \<open>DbError\<close> is an error of the database itself.
\<close>

record TokenDb =
  rows :: "TokenRow list"
  lastID :: int

definition insert_token ::
  "string option \<Rightarrow> string \<Rightarrow> string \<Rightarrow> string \<Rightarrow> gotime \<Rightarrow> gotime \<Rightarrow> TokenDb \<Rightarrow> string + TokenDb" where
  "insert_token dbError label jti user created expires db =
     (case dbError of
        Some err \<Rightarrow> Inl err
      | None \<Rightarrow>
          if jti \<in> RowJti ` set (rows db) then Inl ''UNIQUE constraint failed: tokens.jti''
          else Inr \<lparr>rows = rows db @ [\<lparr>RowID = lastID db + 1, Label = label, RowJti = jti, CreatedBy = user,
                                CreatedAt = created, ExpiresAt = expires\<rparr>],
                    lastID = lastID db + 1\<rparr>)"

definition delete_token :: "string option \<Rightarrow> int \<Rightarrow> TokenDb \<Rightarrow> string + TokenDb" where
  "delete_token dbError i db =
     (case dbError of
        Some err \<Rightarrow> Inl err
      | None \<Rightarrow> Inr (db\<lparr>rows := filter (\<lambda>r. RowID r \<noteq> i) (rows db)\<rparr>))"

section \<open>Handlers\<close>

text \<open>The headers, the form, and what the clock and the database do during a request.\<close>

record TokenRequest =
  ReqMethod :: string
  ReqPath :: string
  ForwardedUser :: string
  AuthRequestUser :: string
  FormLabel :: string
  FormDays :: string

record TokenEnv =
  JtiTime :: gotime      \<comment> \<open>the three readings of the clock, in order\<close>
  ExpiryTime :: gotime
  InsertTime :: gotime
  DbError :: "string option"

datatype TokenAnswer =
    TokenError nat string
  | TokenCreated string string gotime     \<comment> \<open>label, token, expiry\<close>
  | TokenRedirect string
  | TokenList "(TokenRow \<times> bool) list" string     \<comment> \<open>each with its flag Expired; the user\<close>

definition getUser :: "TokenRequest \<Rightarrow> string" where
  "getUser r =
     (if ForwardedUser r \<noteq> [] then ForwardedUser r
      else if AuthRequestUser r \<noteq> [] then AuthRequestUser r else ''unknown'')"

text \<open>The verb \<open>%x\<close> of an integer.\<close>

fun hex_digits :: "nat \<Rightarrow> string" where
  "hex_digits n = (if n < 16 then [hex_digit n] else hex_digits (n div 16) @ [hex_digit (n mod 16)])"

declare hex_digits.simps [simp del]

definition hex_int :: "int \<Rightarrow> string" where
  "hex_int i = (if i < 0 then CHR ''-'' # hex_digits (nat (- i)) else hex_digits (nat i))"

definition token_days :: "string \<Rightarrow> int" where
  "token_days daysStr =
     (case ParseInt daysStr of None \<Rightarrow> 90 | Some days \<Rightarrow> if days < 1 \<or> days > 365 then 90 else days)"

definition handleIndex :: "TokenEnv \<Rightarrow> TokenRequest \<Rightarrow> TokenDb \<Rightarrow> TokenAnswer" where
  "handleIndex env r db =
     (if ReqPath r \<noteq> ''/'' then TokenError 404 ''404 page not found''
      else
        (case DbError env of
           Some err \<Rightarrow> TokenError 500 err
         | None \<Rightarrow> TokenList (map (\<lambda>t. (t, ExpiresAt t < ExpiryTime env)) (sort_key (\<lambda>t. - CreatedAt t) (rows db))) (getUser r)))"

definition handleTokens ::
  "(string \<Rightarrow> string \<Rightarrow> string) \<Rightarrow> string \<Rightarrow> TokenEnv \<Rightarrow> TokenRequest \<Rightarrow> TokenDb \<Rightarrow> TokenDb \<times> TokenAnswer" where
  "handleTokens hmac hmacSecret env r db =
     (if ReqMethod r \<noteq> ''POST'' then (db, TokenError 405 ''method not allowed'')
      else
        (let label = TrimSpace (FormLabel r) in
         if label = [] then (db, TokenError 400 ''label required'')
         else
           (let user = getUser r;
                jti = hex_int (JtiTime env);
                expiresAt = ExpiryTime env + mul_duration (mul_duration (token_days (FormDays r)) 24) Hour;
                token = seal hmac hmacSecret (payload_json
                  \<lparr>TokenSub = user, TokenExp = toUnix expiresAt, JTI = jti, TokenLabel = label\<rparr>)
            in case insert_token (DbError env) label jti user (InsertTime env) expiresAt db of
                 Inl err \<Rightarrow> (db, TokenError 500 err)
               | Inr db' \<Rightarrow> (db', TokenCreated label token expiresAt))))"

definition handleTokenDelete :: "TokenEnv \<Rightarrow> TokenRequest \<Rightarrow> TokenDb \<Rightarrow> TokenDb \<times> TokenAnswer" where
  "handleTokenDelete env r db =
     (if ReqMethod r \<noteq> ''POST'' then (db, TokenError 405 ''method not allowed'')
      else
        (case ParseInt (TrimSuffix (TrimPrefix (ReqPath r) ''/tokens/'') ''/delete'') of
           None \<Rightarrow> (db, TokenError 400 ''invalid id'')
         | Some i \<Rightarrow>
             (case delete_token (DbError env) i db of
                Inl err \<Rightarrow> (db, TokenError 500 err)
              | Inr db' \<Rightarrow> (db', TokenRedirect ''/''))))"

text \<open>\<open>main\<close> trims the secret; so does the validator.\<close>

definition token_secret :: "string \<Rightarrow> string" where
  "token_secret file = TrimSpace file"

section \<open>The validator\<close>

text \<open>
  The comparison \<open>payload.exp && payload.exp < now\<close> of JavaScript. A number is a double; the
  conversion of a text, an array or an object to a number is a parameter.
\<close>

definition f64_less :: "bool \<times> nat \<times> int \<Rightarrow> int \<Rightarrow> bool" where
  "f64_less x now =
     (case x of (neg, m, e) \<Rightarrow>
        let i = (if neg then - int m else int m)
        in if 0 \<le> e then i * 2 ^ nat e < now else i < now * 2 ^ nat (- e))"

definition js_expired :: "(json \<Rightarrow> int \<Rightarrow> bool) \<Rightarrow> json \<Rightarrow> int \<Rightarrow> bool" where
  "js_expired js_less v now =
     (case v of
        JNull \<Rightarrow> False
      | JBool b \<Rightarrow> b \<and> 1 < now
      | JNum s \<Rightarrow>
          (case num_f64 s of
             Some (neg, m, e) \<Rightarrow> m \<noteq> 0 \<and> f64_less (neg, m, e) now
           | None \<Rightarrow> hd s = CHR ''-'')
      | JStr t \<Rightarrow> t \<noteq> [] \<and> js_less v now
      | _ \<Rightarrow> js_less v now)"

text \<open>
  What nginx knows of a request: is it from the VPN or the LAN, and do these bypass the check.
  \<open>fromBase64\<close> is \<open>Buffer.from(s, 'base64url').toString()\<close>; the secret is what the file
  holds, and what the module has kept of it (empty while there is none).
\<close>

record BearerRequest =
  VpnBypass :: bool
  LanBypass :: bool
  AuthHeader :: string

definition secret_in_use :: "string option \<Rightarrow> string \<Rightarrow> string" where
  "secret_in_use file kept = (if kept \<noteq> [] then kept else case file of None \<Rightarrow> [] | Some s \<Rightarrow> TrimSpace s)"

definition validate_token ::
  "(string \<Rightarrow> string \<Rightarrow> string) \<Rightarrow> (string \<Rightarrow> string) \<Rightarrow> (json \<Rightarrow> int \<Rightarrow> bool) \<Rightarrow> string option \<Rightarrow> gotime
     \<Rightarrow> BearerRequest \<Rightarrow> string \<Rightarrow> string \<times> nat" where
  "validate_token hmac fromBase64 js_less file now r kept =
     (if VpnBypass r \<or> LanBypass r then (kept, 200)
      else if \<not> HasPrefix (AuthHeader r) ''Bearer '' then (kept, 401)
      else
        (case Split CHR ''.'' (drop 7 (AuthHeader r)) of
           [payloadB64, signatureB64] \<Rightarrow>
             (let secret = secret_in_use file kept in
              (secret,
               if secret = [] then 500
               else if signHMAC hmac payloadB64 secret \<noteq> signatureB64 then 401
               else
                 (case json_parse (fromBase64 payloadB64) of
                    None \<Rightarrow> 401
                  | Some JNull \<Rightarrow> 500
                  | Some (JObj ms) \<Rightarrow>
                      (case map_of (rev ms) ''exp'' of
                         None \<Rightarrow> 200
                       | Some e \<Rightarrow> if js_expired js_less e (toUnix now) then 401 else 200)
                  | Some _ \<Rightarrow> 200)))
         | _ \<Rightarrow> (kept, 401)))"

section \<open>Lemmas\<close>

subsection \<open>Expiry\<close>

lemma js_expired_int:
  assumes "0 \<le> e" "e < 2 ^ 53"
  shows "js_expired js_less (JNum (Itoa e)) now \<longleftrightarrow> e \<noteq> 0 \<and> e < now"
proof (cases "e = 0")
  case True
  have "num_f64 (Itoa 0) = Some (False, 0, -1074)" using num_f64_Itoa [of 0] by (simp add: f64_round_def)
  then show ?thesis by (simp add: js_expired_def True)
next
  case False
  obtain n where n: "e = int n" "0 < n" "n < 2 ^ 53" using assms False by (metis nat_0_le of_nat_0_less_iff of_nat_less_numeral_power_cancel_iff order_le_less)
  note f = f64_round_exact [OF n(2,3)]
  have "f64_less (False, n * 2 ^ (52 - ilog2 n), int (ilog2 n) - 52) now \<longleftrightarrow> int n < now"
  proof (cases "ilog2 n = 52")
    case True
    then show ?thesis by (simp add: f64_less_def)
  next
    case F: False
    then have "\<not> 0 \<le> int (ilog2 n) - 52" "nat (- (int (ilog2 n) - 52)) = 52 - ilog2 n" using f by auto
    then show ?thesis by (simp add: f64_less_def Let_def)
  qed
  then show ?thesis using f n False by (simp add: js_expired_def num_f64_Itoa)
qed

subsection \<open>Tokens\<close>

lemma Split_seal:
  "Split CHR ''.'' (seal hmac key p) = [RawURLEncoding_EncodeToString p, signHMAC hmac (RawURLEncoding_EncodeToString p) key]"
  using encoded_no_dot by (simp add: seal_def Let_def Split_two signHMAC_def)

lemma payload_parse: "json_parse (payload_json p) = Some (JObj (payload_members p))"
proof -
  have "json_ints (JObj (payload_members p))" by (auto simp: payload_members_def)
  then show ?thesis unfolding payload_json_def by (rule json_parse_print)
qed

lemma payload_exp: "map_of (rev (payload_members p)) ''exp'' = Some (JNum (Itoa (TokenExp p)))"
  by (simp add: payload_members_def)

text \<open>The validator on a token that was issued under the secret it uses.\<close>

lemma validate_sealed:
  assumes "\<And>p. fromBase64 (RawURLEncoding_EncodeToString (payload_json p)) = payload_json p"
    and "secret_in_use file kept = key" "key \<noteq> []" "0 \<le> TokenExp p" "TokenExp p < 2 ^ 53"
    and "\<not> VpnBypass r" "\<not> LanBypass r" "AuthHeader r = ''Bearer '' @ seal hmac key (payload_json p)"
  shows "validate_token hmac fromBase64 js_less file now r kept
    = (key, if TokenExp p \<noteq> 0 \<and> TokenExp p < toUnix now then 401 else 200)"
proof -
  have "drop 7 (AuthHeader r) = seal hmac key (payload_json p)" "HasPrefix (AuthHeader r) ''Bearer ''"
    using assms(8) by (simp_all add: HasPrefix_def)
  then show ?thesis
    using assms(2-7) by (simp add: validate_token_def Split_seal Let_def assms(1) payload_parse payload_exp js_expired_int)
qed

lemma token_days_range: "1 \<le> token_days s \<and> token_days s \<le> 365"
  by (auto simp: token_days_def split: option.splits)

lemma token_lifetime: "mul_duration (mul_duration (token_days s) 24) Hour = token_days s * (24 * Hour)"
  using token_days_range [of s] unfolding mul_duration_def by (subst (1 2) wrap64_id) (auto simp: int64_ok_def)

lemma token_created:
  assumes "handleTokens hmac key env r db = (db', TokenCreated label token expires)"
  shows "label = TrimSpace (FormLabel r) \<and> label \<noteq> [] \<and> expires = ExpiryTime env + token_days (FormDays r) * (24 * Hour)
    \<and> token = seal hmac key (payload_json \<lparr>TokenSub = getUser r, TokenExp = toUnix expires, JTI = hex_int (JtiTime env), TokenLabel = label\<rparr>)
    \<and> hex_int (JtiTime env) \<notin> RowJti ` set (rows db)
    \<and> db' = \<lparr>rows = rows db @ [\<lparr>RowID = lastID db + 1, Label = label, RowJti = hex_int (JtiTime env), CreatedBy = getUser r,
                 CreatedAt = InsertTime env, ExpiresAt = expires\<rparr>], lastID = lastID db + 1\<rparr>"
  using assms
  by (auto simp: handleTokens_def Let_def token_lifetime insert_token_def split: if_splits sum.splits option.splits)

lemma expires_range:
  assumes "0 \<le> t" "t < 2 ^ 62"
  shows "0 < toUnix (t + token_days s * (24 * Hour)) \<and> toUnix (t + token_days s * (24 * Hour)) < 2 ^ 53"
proof -
  have "86400 * Second \<le> t + token_days s * (24 * Hour)" "t + token_days s * (24 * Hour) < 2 ^ 62 + 365 * 24 * Hour"
    using assms token_days_range [of s] by auto
  then show ?thesis by (auto simp: toUnix_def div_less_iff_less_mult intro: less_le_trans [OF _ zdiv_mono1])
qed

section \<open>Properties\<close>

text \<open>
  C22: Tokens work for their time. A token the page issues is accepted by the validator under the
  same secret file until its expiry, and refused from the next second on; the expiry is one to
  365 days after the request, and the table gains a row for it.
\<close>

theorem token_accepted:
  assumes "handleTokens hmac (token_secret file) env r db = (db', TokenCreated label token expires)"
    and "token_secret file \<noteq> []" and "kept = [] \<or> kept = token_secret file"
    and "\<And>p. fromBase64 (RawURLEncoding_EncodeToString (payload_json p)) = payload_json p"
    and "0 \<le> ExpiryTime env" and "ExpiryTime env < 2 ^ 62"
  shows "snd (validate_token hmac fromBase64 js_less (Some file) now
        \<lparr>VpnBypass = False, LanBypass = False, AuthHeader = ''Bearer '' @ token\<rparr> kept)
      = (if toUnix expires < toUnix now then 401 else 200)
    \<and> ExpiryTime env + 24 * Hour \<le> expires \<and> expires \<le> ExpiryTime env + 365 * (24 * Hour)
    \<and> rows db' = rows db @ [\<lparr>RowID = lastID db + 1, Label = label, RowJti = hex_int (JtiTime env), CreatedBy = getUser r,
                 CreatedAt = InsertTime env, ExpiresAt = expires\<rparr>]"
proof -
  note c = token_created [OF assms(1)]
  then have e: "0 < toUnix expires" "toUnix expires < 2 ^ 53" using expires_range [OF assms(5,6)] by auto
  have k: "secret_in_use (Some file) kept = token_secret file"
    using assms(2,3) by (auto simp: secret_in_use_def token_secret_def)
  have "validate_token hmac fromBase64 js_less (Some file) now
      \<lparr>VpnBypass = False, LanBypass = False, AuthHeader = ''Bearer '' @ token\<rparr> kept
    = (token_secret file, if toUnix expires \<noteq> 0 \<and> toUnix expires < toUnix now then 401 else 200)"
    using validate_sealed [OF assms(4) k assms(2), of "\<lparr>TokenSub = getUser r, TokenExp = toUnix expires, JTI = hex_int (JtiTime env), TokenLabel = label\<rparr>"
        "\<lparr>VpnBypass = False, LanBypass = False, AuthHeader = ''Bearer '' @ token\<rparr>" hmac js_less now] c e by simp
  then show ?thesis using c e token_days_range [of "FormDays r"] by auto
qed

text \<open>
  Deleting a token does not revoke it. After the page has deleted the row of a token it
  issued, no row has its id, and the validator, which knows the secret alone, still accepts the
  token until it expires.
\<close>

theorem deleted_token_accepted:
  assumes "handleTokens hmac (token_secret file) env r db = (db1, TokenCreated label token expires)"
    and "ReqMethod d = ''POST''" and "ReqPath d = ''/tokens/'' @ Itoa (lastID db + 1) @ ''/delete''"
    and "DbError env' = None" and "int64_ok (lastID db + 1)"
    and "token_secret file \<noteq> []" and "\<And>p. fromBase64 (RawURLEncoding_EncodeToString (payload_json p)) = payload_json p"
    and "0 \<le> ExpiryTime env" and "ExpiryTime env < 2 ^ 62" and "toUnix now \<le> toUnix expires"
  shows "\<exists>db2. handleTokenDelete env' d db1 = (db2, TokenRedirect ''/'') \<and> lastID db + 1 \<notin> RowID ` set (rows db2)
    \<and> snd (validate_token hmac fromBase64 js_less (Some file) now
        \<lparr>VpnBypass = False, LanBypass = False, AuthHeader = ''Bearer '' @ token\<rparr> []) = 200"
proof -
  note c = token_created [OF assms(1)]
  then have e: "0 < toUnix expires" "toUnix expires < 2 ^ 53" using expires_range [OF assms(8,9)] by auto
  have k: "secret_in_use (Some file) [] = token_secret file" by (simp add: secret_in_use_def token_secret_def)
  have p: "ParseInt (TrimSuffix (TrimPrefix (ReqPath d) ''/tokens/'') ''/delete'') = Some (lastID db + 1)"
    unfolding assms(3) by (simp only: TrimPrefix_append TrimSuffix_append ParseInt_Itoa [OF assms(5)])
  have "handleTokenDelete env' d db1 = (db1\<lparr>rows := filter (\<lambda>r. RowID r \<noteq> lastID db + 1) (rows db1)\<rparr>, TokenRedirect ''/'')"
    by (simp add: handleTokenDelete_def assms(2,4) p delete_token_def)
  moreover have "snd (validate_token hmac fromBase64 js_less (Some file) now
      \<lparr>VpnBypass = False, LanBypass = False, AuthHeader = ''Bearer '' @ token\<rparr> []) = 200"
    using validate_sealed [OF assms(7) k assms(6), of "\<lparr>TokenSub = getUser r, TokenExp = toUnix expires, JTI = hex_int (JtiTime env), TokenLabel = label\<rparr>"
        "\<lparr>VpnBypass = False, LanBypass = False, AuthHeader = ''Bearer '' @ token\<rparr>" hmac js_less now] c e assms(10) by simp
  ultimately show ?thesis by auto
qed

section \<open>Witnesses\<close>

definition demo_env :: TokenEnv where
  "demo_env = \<lparr>JtiTime = 10, ExpiryTime = 20, InsertTime = 30, DbError = None\<rparr>"

definition demo_request :: TokenRequest where
  "demo_request = \<lparr>ReqMethod = ''POST'', ReqPath = ''/tokens'', ForwardedUser = ''kevin'', AuthRequestUser = [],
     FormLabel = '' laptop '', FormDays = ''30''\<rparr>"

definition demo_db :: TokenDb where
  "demo_db = \<lparr>rows = [], lastID = 4\<rparr>"

definition demo_decode :: "string \<Rightarrow> string" where
  "demo_decode s = (case RawURLEncoding_DecodeString s of None \<Rightarrow> [] | Some x \<Rightarrow> x)"

definition demo_hmac :: "string \<Rightarrow> string \<Rightarrow> string" where
  "demo_hmac key data = [char_of (length key + length data)]"

lemma demo_decode: "demo_decode (RawURLEncoding_EncodeToString s) = s"
  by (simp add: demo_decode_def)

lemma demo_issue: "\<exists>token db'. handleTokens demo_hmac (token_secret ''secret'') demo_env demo_request demo_db
    = (db', TokenCreated ''laptop'' token (20 + 30 * (24 * Hour)))"
proof -
  have "ParseInt ''30'' = Some 30" by code_simp
  moreover have "TrimSpace '' laptop '' = ''laptop''" by code_simp
  moreover have "mul_duration (mul_duration 30 24) Hour = 30 * (24 * Hour)" by code_simp
  ultimately show ?thesis
    by (simp add: handleTokens_def demo_request_def demo_env_def demo_db_def Let_def insert_token_def token_days_def)
qed

lemma demo_secret: "token_secret ''secret'' = ''secret''"
  by code_simp

theorem token_accepted_witness:
  "\<exists>token db'. handleTokens demo_hmac (token_secret ''secret'') demo_env demo_request demo_db
      = (db', TokenCreated ''laptop'' token (20 + 30 * (24 * Hour)))
    \<and> snd (validate_token demo_hmac demo_decode (\<lambda>_ _. False) (Some ''secret'') (29 * (24 * Hour))
        \<lparr>VpnBypass = False, LanBypass = False, AuthHeader = ''Bearer '' @ token\<rparr> []) = 200
    \<and> snd (validate_token demo_hmac demo_decode (\<lambda>_ _. False) (Some ''secret'') (31 * (24 * Hour))
        \<lparr>VpnBypass = False, LanBypass = False, AuthHeader = ''Bearer '' @ token\<rparr> []) = 401"
proof -
  obtain token db' where t: "handleTokens demo_hmac (token_secret ''secret'') demo_env demo_request demo_db
    = (db', TokenCreated ''laptop'' token (20 + 30 * (24 * Hour)))" using demo_issue by blast
  have "token_secret ''secret'' \<noteq> []" "0 \<le> ExpiryTime demo_env" "ExpiryTime demo_env < 2 ^ 62"
    by (simp_all add: demo_secret demo_env_def)
  then have "snd (validate_token demo_hmac demo_decode (\<lambda>_ _. False) (Some ''secret'') now
        \<lparr>VpnBypass = False, LanBypass = False, AuthHeader = ''Bearer '' @ token\<rparr> [])
      = (if toUnix (20 + 30 * (24 * Hour)) < toUnix now then 401 else 200)" for now
    using token_accepted [OF t, of "[]" demo_decode "\<lambda>_ _. False" now] demo_decode by simp
  from this [of "29 * (24 * Hour)"] this [of "31 * (24 * Hour)"] t show ?thesis by (intro exI conjI) (simp_all add: toUnix_def)
qed

theorem deleted_token_accepted_witness:
  "\<exists>token db1 db2. handleTokens demo_hmac (token_secret ''secret'') demo_env demo_request demo_db
      = (db1, TokenCreated ''laptop'' token (20 + 30 * (24 * Hour)))
    \<and> handleTokenDelete demo_env (demo_request\<lparr>ReqPath := ''/tokens/5/delete''\<rparr>) db1 = (db2, TokenRedirect ''/'')
    \<and> snd (validate_token demo_hmac demo_decode (\<lambda>_ _. False) (Some ''secret'') Hour
        \<lparr>VpnBypass = False, LanBypass = False, AuthHeader = ''Bearer '' @ token\<rparr> []) = 200"
proof -
  obtain token db1 where t: "handleTokens demo_hmac (token_secret ''secret'') demo_env demo_request demo_db
    = (db1, TokenCreated ''laptop'' token (20 + 30 * (24 * Hour)))" using demo_issue by blast
  let ?d = "demo_request\<lparr>ReqPath := ''/tokens/5/delete''\<rparr>"
  have "Itoa 5 = ''5''" by code_simp
  then have "ReqMethod ?d = ''POST''" "ReqPath ?d = ''/tokens/'' @ Itoa (lastID demo_db + 1) @ ''/delete''" "DbError demo_env = None"
    "int64_ok (lastID demo_db + 1)" "token_secret ''secret'' \<noteq> []" "0 \<le> ExpiryTime demo_env" "ExpiryTime demo_env < 2 ^ 62"
    "toUnix Hour \<le> toUnix (20 + 30 * (24 * Hour))"
    by (simp_all add: demo_secret demo_env_def demo_request_def demo_db_def int64_ok_def toUnix_def)
  from deleted_token_accepted [OF t this(1-5) demo_decode this(6-8), of "\<lambda>_ _. False"] t show ?thesis by blast
qed

end
