(* ===== verification/Emergency_Reboot.thy ===== *)
theory Emergency_Reboot
  imports Json_Number Go_Time
begin

text \<open>
  \<open>aspects/emergency-reboot\<close>: the daemon that restarts a host when a UDP packet
  \<open><timestamp>.<hmac of the timestamp>\<close> arrives whose timestamp is at most 30 seconds off.
  The message authentication code is a parameter.
\<close>

definition maxDrift :: int where
  "maxDrift = 30 * Second"

text \<open>
  \<open>time.Duration(math.Abs(float64(now-ts))) * time.Second\<close>: the difference wraps, is
  rounded to a float64 and back (the one value out of range becomes the smallest int64, as on
  amd64), and the product wraps.
\<close>

definition drift_of :: "int \<Rightarrow> int \<Rightarrow> int" where
  "drift_of now ts =
     (let n = (case f64_round (nat \<bar>wrap64 (now - ts)\<bar>) 1 of None \<Rightarrow> 0 | Some x \<Rightarrow> f64_trunc x)
      in mul_duration (if int n < 2 ^ 63 then int n else - (2 ^ 63)) Second)"

datatype Verdict =
    BadFormat
  | BadTimestamp
  | DriftTooLarge
  | BadHMAC
  | Accepted

definition expected_mac :: "(string \<Rightarrow> string \<Rightarrow> string) \<Rightarrow> string \<Rightarrow> string \<Rightarrow> string" where
  "expected_mac hmac secret tsStr = hex_encode (hmac secret tsStr)"

text \<open>What the loop does with one packet that was read; the buffer holds 256 bytes of it.\<close>

definition handle_packet :: "(string \<Rightarrow> string \<Rightarrow> string) \<Rightarrow> string \<Rightarrow> int \<Rightarrow> string \<Rightarrow> Verdict" where
  "handle_packet hmac secret now packet =
     (case SplitN2 CHR ''.'' (TrimSpace (take 256 packet)) of
        (_, None) \<Rightarrow> BadFormat
      | (tsStr, Some gotMAC) \<Rightarrow>
          (case ParseInt tsStr of
             None \<Rightarrow> BadTimestamp
           | Some ts \<Rightarrow>
               if drift_of now ts > maxDrift then DriftTooLarge
               else if gotMAC \<noteq> expected_mac hmac secret tsStr then BadHMAC
               else Accepted))"

text \<open>
  The loop over what \<open>ReadFromUDP\<close> returns (\<open>None\<close> an error), with the clock's seconds
  and whether a restart now would succeed: the verdicts, and whether the host restarts.
\<close>

fun listen :: "(string \<Rightarrow> string \<Rightarrow> string) \<Rightarrow> string \<Rightarrow> (string option \<times> int \<times> bool) list \<Rightarrow> Verdict list \<times> bool" where
  "listen hmac secret [] = ([], False)"
| "listen hmac secret ((None, _, _) # events) = listen hmac secret events"
| "listen hmac secret ((Some packet, now, works) # events) =
     (let v = handle_packet hmac secret now packet in
      if v = Accepted \<and> works then ([v], True)
      else (case listen hmac secret events of (vs, b) \<Rightarrow> (v # vs, b)))"

text \<open>\<open>main\<close>: the secret file's contents, if it could be read, and the socket, if it opened.\<close>

record RebootEnv =
  SECRET_FILE :: string
  SecretFile :: "string option"
  ResolveError :: "string option"
  ListenError :: "string option"

definition reboot_main ::
  "(string \<Rightarrow> string \<Rightarrow> string) \<Rightarrow> RebootEnv \<Rightarrow> (string option \<times> int \<times> bool) list \<Rightarrow> string + Verdict list \<times> bool" where
  "reboot_main hmac env events =
     (if SECRET_FILE env = [] then Inl ''SECRET_FILE not set''
      else case SecretFile env of
        None \<Rightarrow> Inl ''failed to read secret''
      | Some secret \<Rightarrow>
          (case ResolveError env of
             Some err \<Rightarrow> Inl (''invalid listen addr: '' @ err)
           | None \<Rightarrow>
               (case ListenError env of
                  Some err \<Rightarrow> Inl (''listen: '' @ err)
                | None \<Rightarrow> Inr (listen hmac (TrimSpace secret) events))))"

text \<open>The packet of the client in the comments: \<open>echo "${TS}.${MAC}"\<close>.\<close>

definition client_packet :: "(string \<Rightarrow> string \<Rightarrow> string) \<Rightarrow> string \<Rightarrow> int \<Rightarrow> string" where
  "client_packet hmac secret ts = Itoa ts @ ''.'' @ expected_mac hmac secret (Itoa ts) @ [CHR 0x0A]"

section \<open>Lemmas\<close>

lemma drift_exact:
  assumes "\<bar>now - ts\<bar> < 9223372036"
  shows "drift_of now ts = \<bar>now - ts\<bar> * Second"
proof -
  have "int64_ok (now - ts)" using assms unfolding int64_ok_def by (simp add: abs_less_iff)
  moreover have "nat \<bar>now - ts\<bar> < 2 ^ 53" using assms by simp
  then obtain x where "f64_round (nat \<bar>now - ts\<bar>) 1 = Some x" "f64_trunc x = nat \<bar>now - ts\<bar>"
    using f64_trunc_exact by blast
  moreover have "int64_ok (d * Second)" if "0 \<le> d" "d < 9223372036" for d using that by (simp add: int64_ok_def)
  then have "wrap64 (\<bar>now - ts\<bar> * Second) = \<bar>now - ts\<bar> * Second" using assms by (intro wrap64_id) simp
  moreover have "nat \<bar>now - ts\<bar> < 2 ^ 63" using assms by simp
  ultimately show ?thesis using assms by (simp add: drift_of_def mul_duration_def Let_def)
qed

lemma drift_wraps: "drift_of now (now + 9223372037) < 0"
proof -
  obtain x where "f64_round 9223372037 1 = Some x" "f64_trunc x = 9223372037"
    using f64_trunc_exact [of 9223372037] by auto
  moreover have "wrap64 (now - (now + 9223372037)) = - 9223372037" by (simp add: int64_ok_def)
  moreover have "mul_duration 9223372037 Second < 0" by (simp add: mul_duration_def wrap64_def)
  ultimately show ?thesis by (simp add: drift_of_def)
qed

lemma length_nat_digits: "n < 10 ^ Suc k \<Longrightarrow> length (nat_digits n) \<le> Suc k"
proof (induction k arbitrary: n)
  case 0
  then show ?case by (simp add: nat_digits.simps)
next
  case (Suc k)
  have "n div 10 < 10 ^ Suc k" using Suc.prems by (simp add: less_mult_imp_div_less)
  then show ?case using Suc.IH [of "n div 10"] by (subst nat_digits.simps) simp
qed

lemma length_Itoa: "int64_ok i \<Longrightarrow> length (Itoa i) \<le> 20"
proof -
  assume "int64_ok i"
  then have "nat i < 10 ^ Suc 18" "nat (- i) < 10 ^ Suc 18" by (auto simp: int64_ok_def)
  from length_nat_digits [OF this(1)] length_nat_digits [OF this(2)] show ?thesis by (simp add: Itoa_def)
qed

lemma Itoa_chars: "c \<in> set (Itoa i) \<Longrightarrow> is_digit c \<or> c = CHR ''-''"
  using nat_digits_all [of "nat i"] nat_digits_all [of "nat (- i)"]
  by (auto simp: Itoa_def list_all_iff split: if_splits)

lemma is_digit_plain: "is_digit c \<Longrightarrow> \<not> is_space c \<and> c \<noteq> CHR ''.''"
  by (auto simp: is_digit_def is_space_def)

lemma is_hex_plain: "is_hex c \<Longrightarrow> \<not> is_space c"
  by (auto simp: is_hex_def is_space_def)

text \<open>The client's packet fits the buffer and is read as it was written.\<close>

lemma client_packet_read:
  assumes "int64_ok ts" "length (hmac secret (Itoa ts)) = 32"
  shows "SplitN2 CHR ''.'' (TrimSpace (take 256 (client_packet hmac secret ts)))
    = (Itoa ts, Some (expected_mac hmac secret (Itoa ts)))"
proof -
  let ?t = "Itoa ts @ ''.'' @ expected_mac hmac secret (Itoa ts)"
  have "length (hex_encode s) = 2 * length s" for s by (induction s) simp_all
  then have "length (client_packet hmac secret ts) \<le> 256"
    using length_Itoa [OF assms(1)] assms(2) by (simp add: client_packet_def expected_mac_def)
  moreover have "is_space (CHR 0x0A)" by (simp add: is_space_def)
  moreover have "TrimSpace ?t = ?t"
  proof (rule TrimSpace_id)
    fix c
    assume "c \<in> set ?t"
    then show "\<not> is_space c"
      using Itoa_chars [of c ts] is_digit_plain [of c] is_hex_plain [of c] hex_encode_chars [of c "hmac secret (Itoa ts)"]
      by (auto simp: expected_mac_def is_space_def)
  qed
  ultimately have "TrimSpace (take 256 (client_packet hmac secret ts)) = ?t"
    using TrimSpace_snoc [of "CHR 0x0A" ?t] by (simp add: client_packet_def)
  moreover have "CHR ''.'' \<notin> set (Itoa ts)" using Itoa_chars [of "CHR ''.''" ts] is_digit_plain by auto
  ultimately show ?thesis by (simp add: SplitN2_append)
qed

lemma packet_accepted:
  "handle_packet hmac secret now packet = Accepted \<longleftrightarrow>
     (\<exists>tsStr ts. TrimSpace (take 256 packet) = tsStr @ ''.'' @ expected_mac hmac secret tsStr
        \<and> ParseInt tsStr = Some ts \<and> drift_of now ts \<le> maxDrift)"
proof
  assume "handle_packet hmac secret now packet = Accepted"
  then obtain tsStr ts where "SplitN2 CHR ''.'' (TrimSpace (take 256 packet)) = (tsStr, Some (expected_mac hmac secret tsStr))"
    "ParseInt tsStr = Some ts" "drift_of now ts \<le> maxDrift"
    by (auto simp: handle_packet_def split: prod.splits option.splits if_splits)
  then show "\<exists>tsStr ts. TrimSpace (take 256 packet) = tsStr @ ''.'' @ expected_mac hmac secret tsStr
        \<and> ParseInt tsStr = Some ts \<and> drift_of now ts \<le> maxDrift" by (auto dest: SplitN2_SomeD)
next
  assume "\<exists>tsStr ts. TrimSpace (take 256 packet) = tsStr @ ''.'' @ expected_mac hmac secret tsStr
        \<and> ParseInt tsStr = Some ts \<and> drift_of now ts \<le> maxDrift"
  then obtain tsStr ts where t: "TrimSpace (take 256 packet) = tsStr @ ''.'' @ expected_mac hmac secret tsStr"
    "ParseInt tsStr = Some ts" "drift_of now ts \<le> maxDrift" by blast
  have "CHR ''.'' \<notin> set tsStr" using ParseInt_chars [OF t(2), of "CHR ''.''"] is_digit_plain by auto
  then show "handle_packet hmac secret now packet = Accepted"
    using t by (simp add: handle_packet_def SplitN2_append)
qed

lemma listen_reboots:
  "snd (listen hmac secret events) \<longleftrightarrow>
     (\<exists>packet now. (Some packet, now, True) \<in> set events \<and> handle_packet hmac secret now packet = Accepted)"
proof (induction hmac secret events rule: listen.induct)
  case (3 hmac secret packet now works events)
  show ?case
  proof (cases "handle_packet hmac secret now packet = Accepted \<and> works")
    case False
    then have "snd (listen hmac secret ((Some packet, now, works) # events)) = snd (listen hmac secret events)"
      by (auto simp: Let_def split: prod.split)
    with 3 False show ?thesis by (auto simp: Let_def)
  qed (auto simp: Let_def)
qed auto

section \<open>Properties\<close>

text \<open>
  C37: A host restarts only for who knows the secret, and soon. If the daemon restarts the host, some
  packet it read holds the authentication code, under the trimmed secret, of a timestamp, and the
  timestamp was at most 30 seconds off the clock when the packet was read, unless it was more than
  292 years off. The packet that the client of the comments makes is accepted exactly within 30
  seconds of its timestamp.
\<close>

theorem reboot_authentic:
  assumes "reboot_main hmac env events = Inr (vs, True)" and "SecretFile env = Some file"
  shows "(\<exists>packet now tsStr ts. (Some packet, now, True) \<in> set events
       \<and> TrimSpace (take 256 packet) = tsStr @ ''.'' @ hex_encode (hmac (TrimSpace file) tsStr)
       \<and> ParseInt tsStr = Some ts \<and> (\<bar>now - ts\<bar> < 9223372036 \<longrightarrow> \<bar>now - ts\<bar> \<le> 30))
    \<and> (\<forall>ts now. int64_ok ts \<and> length (hmac (TrimSpace file) (Itoa ts)) = 32 \<and> \<bar>now - ts\<bar> < 9223372036 \<longrightarrow>
         (handle_packet hmac (TrimSpace file) now (client_packet hmac (TrimSpace file) ts) = Accepted
          \<longleftrightarrow> \<bar>now - ts\<bar> \<le> 30))"
proof -
  let ?s = "TrimSpace file"
  have b: "drift_of now ts \<le> maxDrift \<longleftrightarrow> \<bar>now - ts\<bar> \<le> 30" if "\<bar>now - ts\<bar> < 9223372036" for now ts
    using that by (simp add: drift_exact maxDrift_def)
  have "snd (listen hmac ?s events)"
    using assms by (auto simp: reboot_main_def split: if_splits option.splits)
  then obtain packet now where p: "(Some packet, now, True) \<in> set events" "handle_packet hmac ?s now packet = Accepted"
    unfolding listen_reboots by blast
  from p(2) obtain tsStr ts where t: "TrimSpace (take 256 packet) = tsStr @ ''.'' @ expected_mac hmac ?s tsStr"
    "ParseInt tsStr = Some ts" "drift_of now ts \<le> maxDrift" unfolding packet_accepted by blast
  have "\<bar>now - ts\<bar> < 9223372036 \<longrightarrow> \<bar>now - ts\<bar> \<le> 30" using b t(3) by blast
  moreover have "handle_packet hmac ?s now (client_packet hmac ?s ts) = Accepted \<longleftrightarrow> \<bar>now - ts\<bar> \<le> 30"
    if "int64_ok ts" "length (hmac ?s (Itoa ts)) = 32" "\<bar>now - ts\<bar> < 9223372036" for ts now
    unfolding handle_packet_def client_packet_read [where hmac = hmac and secret = ?s, OF that(1,2)]
    using that b [OF that(3)] by (auto simp: ParseInt_Itoa)
  ultimately show ?thesis using p(1) t(1,2) unfolding expected_mac_def by blast
qed

text \<open>
  Beyond that the product wraps: a packet whose timestamp is 292 years ahead is accepted.
\<close>

lemma distant_timestamp_accepted:
  assumes "int64_ok (now + 9223372037)" "length (hmac secret (Itoa (now + 9223372037))) = 32"
  shows "handle_packet hmac secret now (client_packet hmac secret (now + 9223372037)) = Accepted"
proof -
  have "drift_of now (now + 9223372037) \<le> maxDrift" using drift_wraps [of now] by (simp add: maxDrift_def)
  then show ?thesis
    unfolding handle_packet_def client_packet_read [where hmac = hmac and secret = secret, OF assms]
    by (simp add: ParseInt_Itoa [OF assms(1)])
qed

text \<open>The witness's authentication code is no real one; only its length matters.\<close>

definition demo_mac :: "string \<Rightarrow> string \<Rightarrow> string" where
  "demo_mac key data = take 32 (data @ key @ replicate 32 CHR ''x'')"

definition demo_reboot_env :: RebootEnv where
  "demo_reboot_env = \<lparr>SECRET_FILE = ''/key'', SecretFile = Some ''key '', ResolveError = None, ListenError = None\<rparr>"

theorem reboot_authentic_witness:
  "let events = [(Some ''hello'', 1000, True), (None, 1010, True), (Some (client_packet demo_mac ''key'' 1000), 1020, True)]
   in reboot_main demo_mac demo_reboot_env events = Inr ([BadFormat, Accepted], True)
     \<and> handle_packet demo_mac ''key'' 1030 (client_packet demo_mac ''key'' 1000) = Accepted
     \<and> handle_packet demo_mac ''key'' 1031 (client_packet demo_mac ''key'' 1000) \<noteq> Accepted"
proof -
  let ?ev = "[(Some ''hello'', 1000, True), (None, 1010, True), (Some (client_packet demo_mac ''key'' 1000), 1020, True)]"
  have r: "reboot_main demo_mac demo_reboot_env ?ev = Inr ([BadFormat, Accepted], True)" by code_simp
  have f: "SecretFile demo_reboot_env = Some ''key ''" by (simp add: demo_reboot_env_def)
  have t: "TrimSpace ''key '' = ''key''" by code_simp
  have l: "int64_ok 1000" "length (demo_mac ''key'' (Itoa 1000)) = 32" by code_simp+
  have "\<forall>ts now. int64_ok ts \<and> length (demo_mac ''key'' (Itoa ts)) = 32 \<and> \<bar>now - ts\<bar> < 9223372036 \<longrightarrow>
         (handle_packet demo_mac ''key'' now (client_packet demo_mac ''key'' ts) = Accepted \<longleftrightarrow> \<bar>now - ts\<bar> \<le> 30)"
    using reboot_authentic [OF r f, unfolded t] by (rule conjunct2)
  from this [rule_format, of 1000 1030] this [rule_format, of 1000 1031] l r show ?thesis by simp
qed

end
