(* ===== verification/Sse_Probe.thy ===== *)
theory Sse_Probe
  imports Json_Number Go_Time
begin

text \<open>
  \<open>pkgs/sse-probe\<close>: a server that broadcasts numbered heartbeats to its clients, each
  behind a channel of eight messages that drops what does not fit, and a monitor that connects to
  such servers again and again, reports gaps in the numbers, and keeps statistics. The two are put
  together: what a monitor reports of a stream the server wrote.
\<close>

abbreviation newline :: char where "newline \<equiv> CHR 0x0A"

section \<open>serve\<close>

text \<open>The JSON of a map is written with its keys in order.\<close>

definition heartbeat_data :: "string \<Rightarrow> nat \<times> string \<Rightarrow> json" where
  "heartbeat_data host m =
     JObj [(''host'', JStr host), (''seq'', JNum (Itoa (int (fst m)))), (''ts'', JStr (snd m))]"

definition heartbeat :: "string \<Rightarrow> nat \<times> string \<Rightarrow> string" where
  "heartbeat host m = ''event: heartbeat'' @ [newline] @ ''data: '' @ json_print (heartbeat_data host m) @ [newline, newline]"

definition connected_event :: "string \<Rightarrow> string" where
  "connected_event host = ''event: connected'' @ [newline] @ js ''data: {~host~:'' @ go_quote host @ ''}'' @ [newline, newline]"

text \<open>A client: the channel between the broadcaster and its handler, and what the handler has written.\<close>

record SseClient =
  channel :: "string list"
  written :: string

record SseServer =
  seq :: nat
  clients :: "SseClient gomap"

definition channel_size :: nat where
  "channel_size = 8"

definition send :: "string \<Rightarrow> SseClient \<Rightarrow> SseClient" where
  "send msg c = (if length (channel c) < channel_size then c\<lparr>channel := channel c @ [msg]\<rparr> else c)"

definition broadcast :: "string \<Rightarrow> string \<Rightarrow> SseServer \<Rightarrow> SseServer" where
  "broadcast host ts s =
     (let n = (seq s + 1) mod 2 ^ 64; msg = heartbeat host (n, ts)
      in s\<lparr>seq := n, clients := map (\<lambda>(i, c). (i, send msg c)) (clients s)\<rparr>)"

definition join_client :: "string \<Rightarrow> string \<Rightarrow> SseServer \<Rightarrow> SseServer" where
  "join_client host i s = s\<lparr>clients := AList.update i \<lparr>channel = [], written = connected_event host\<rparr> (clients s)\<rparr>"

definition deliver :: "string \<Rightarrow> SseServer \<Rightarrow> SseServer" where
  "deliver i s =
     (case map_of (clients s) i of
        Some c \<Rightarrow>
          (case channel c of
             [] \<Rightarrow> s
           | msg # rest \<Rightarrow> s\<lparr>clients := AList.update i \<lparr>channel = rest, written = written c @ msg\<rparr> (clients s)\<rparr>)
      | None \<Rightarrow> s)"

definition leave :: "string \<Rightarrow> SseServer \<Rightarrow> SseServer" where
  "leave i s = s\<lparr>clients := AList.delete i (clients s)\<rparr>"

text \<open>
  The broadcaster and the handlers interleave in any way. \<open>serves host n full s\<close>: after
  \<open>n\<close> broadcasts the server may be in state \<open>s\<close>, and \<open>full\<close> are the clients whose
  channel was full at some broadcast.
\<close>

inductive serves :: "string \<Rightarrow> nat \<Rightarrow> string set \<Rightarrow> SseServer \<Rightarrow> bool" for host where
  start: "serves host 0 {} \<lparr>seq = 0, clients = []\<rparr>"
| beat: "serves host n full s \<Longrightarrow>
    serves host (Suc n) (full \<union> {i. \<exists>c. map_of (clients s) i = Some c \<and> \<not> length (channel c) < channel_size})
      (broadcast host ts s)"
| join: "serves host n full s \<Longrightarrow> i \<notin> keys (clients s) \<Longrightarrow> serves host n (full - {i}) (join_client host i s)"
| delivery: "serves host n full s \<Longrightarrow> serves host n full (deliver i s)"
| gone: "serves host n full s \<Longrightarrow> serves host n full (leave i s)"

section \<open>monitor\<close>

text \<open>
  \<open>bufio.Scanner\<close> over what a response body gave: the lines, each without a carriage return
  at its end, up to the first that does not fit the scanner's buffer.
\<close>

definition scan_lines :: "string \<Rightarrow> string list \<times> bool" where
  "scan_lines text =
     (let parts = Split newline text;
          ls = (if last parts = [] then butlast parts else parts);
          ok = takeWhile (\<lambda>l. length l < 65536) ls
      in (map (\<lambda>l. TrimSuffix l [CHR 0x0D]) ok, ok \<noteq> ls))"

record Scan =
  lastSeq :: nat
  prevSeq :: nat
  gaps :: "(nat \<times> nat) list"

text \<open>
  \<open>uint64(seq)\<close>; what the conversion gives out of the range of the type is a parameter.
\<close>

definition seq_number :: "(bool \<times> nat \<times> int \<Rightarrow> nat) \<Rightarrow> bool \<times> nat \<times> int \<Rightarrow> nat" where
  "seq_number outside x =
     (case x of (neg, m, e) \<Rightarrow>
        let n = f64_trunc (m, e) in if n < 2 ^ 64 \<and> (neg \<longrightarrow> n = 0) then n else outside x)"

definition scan_line :: "(bool \<times> nat \<times> int \<Rightarrow> nat) \<Rightarrow> string \<Rightarrow> Scan \<Rightarrow> Scan" where
  "scan_line outside line st =
     (if \<not> HasPrefix line ''data: '' then st
      else case unmarshal_map (TrimPrefix line ''data: '') of
        None \<Rightarrow> st
      | Some msg \<Rightarrow>
          (case map_of msg ''seq'' of
             Some (IFloat x) \<Rightarrow>
               (let n = seq_number outside x;
                    expected = (prevSeq st + 1) mod 2 ^ 64
                in \<lparr>lastSeq = n, prevSeq = n,
                    gaps = gaps st @ (if prevSeq st > 0 \<and> n \<noteq> expected then [(expected, n)] else [])\<rparr>)
           | _ \<Rightarrow> st))"

text \<open>What the connection gave: the error of the request, or a status and a body that ended.\<close>

record Stream =
  GetError :: "string option"
  StatusCode :: nat
  Body :: string
  ReadError :: "string option"

definition streamSSE :: "(bool \<times> nat \<times> int \<Rightarrow> nat) \<Rightarrow> Stream \<Rightarrow> (nat \<times> string) \<times> (nat \<times> nat) list" where
  "streamSSE outside r =
     (case GetError r of
        Some err \<Rightarrow> ((0, ''connect: '' @ err), [])
      | None \<Rightarrow>
          if StatusCode r \<noteq> 200 then ((0, ''status '' @ Itoa (int (StatusCode r))), [])
          else
            (case scan_lines (Body r) of (ls, too_long) \<Rightarrow>
               (let st = fold (scan_line outside) ls \<lparr>lastSeq = 0, prevSeq = 0, gaps = []\<rparr> in
                ((lastSeq st,
                  if too_long then ''read: bufio.Scanner: token too long''
                  else case ReadError r of Some err \<Rightarrow> ''read: '' @ err | None \<Rightarrow> ''stream ended''),
                 gaps st))))"

record statsEntry =
  target :: string
  drops :: int
  connects :: int
  lastConnect :: "gotime option"
  lastDrop :: "gotime option"
  totalUptime :: int
  currentStart :: "gotime option"
  connected :: bool

datatype LogEvent =
    ConnectEvent string gotime int
  | GapEvent string nat nat
  | DropEvent string gotime int nat string

record Monitor =
  attempt :: int
  backoff :: int
  stats :: statsEntry
  events :: "LogEvent list"
  slept :: "int list"

definition new_monitor :: "string \<Rightarrow> Monitor" where
  "new_monitor name =
     \<lparr>attempt = 0, backoff = Second,
      stats = \<lparr>target = name, drops = 0, connects = 0, lastConnect = None, lastDrop = None, totalUptime = 0,
               currentStart = None, connected = False\<rparr>,
      events = [], slept = []\<rparr>"

text \<open>The two halves of a turn of \<open>monitorTarget\<close>'s loop, before and after the stream.\<close>

definition monitor_connect :: "string \<Rightarrow> gotime \<Rightarrow> Monitor \<Rightarrow> Monitor" where
  "monitor_connect name connectTime m =
     m\<lparr>attempt := wrap64 (attempt m + 1),
       stats := (stats m)\<lparr>connects := wrap64 (connects (stats m) + 1), lastConnect := Some connectTime,
                          currentStart := Some connectTime, connected := True\<rparr>,
       events := events m @ [ConnectEvent name connectTime (wrap64 (attempt m + 1))]\<rparr>"

definition next_backoff :: "int \<Rightarrow> int \<Rightarrow> int" where
  "next_backoff old connDuration =
     (if connDuration > 30 * Second then Second else min (wrap64 (old * 2)) (30 * Second))"

definition monitor_drop ::
  "(bool \<times> nat \<times> int \<Rightarrow> nat) \<Rightarrow> string \<Rightarrow> gotime \<Rightarrow> Stream \<Rightarrow> gotime \<Rightarrow> Monitor \<Rightarrow> Monitor" where
  "monitor_drop outside name connectTime r dropTime m =
     (case streamSSE outside r of ((lastn, err), gs) \<Rightarrow>
        let connDuration = Sub dropTime connectTime;
            b = next_backoff (backoff m) connDuration
        in m\<lparr>backoff := b,
             stats := (stats m)\<lparr>drops := wrap64 (drops (stats m) + 1), lastDrop := Some dropTime,
                                totalUptime := wrap64 (totalUptime (stats m) + connDuration), connected := False\<rparr>,
             events := events m @ map (\<lambda>(e, g). GapEvent name e g) gs @ [DropEvent name dropTime connDuration lastn err],
             slept := slept m @ [b]\<rparr>)"

definition monitor_turn ::
  "(bool \<times> nat \<times> int \<Rightarrow> nat) \<Rightarrow> string \<Rightarrow> gotime \<times> Stream \<times> gotime \<Rightarrow> Monitor \<Rightarrow> Monitor" where
  "monitor_turn outside name turn m =
     (case turn of (connectTime, r, dropTime) \<Rightarrow>
        monitor_drop outside name connectTime r dropTime (monitor_connect name connectTime m))"

definition monitorTarget ::
  "(bool \<times> nat \<times> int \<Rightarrow> nat) \<Rightarrow> string \<Rightarrow> (gotime \<times> Stream \<times> gotime) list \<Rightarrow> Monitor" where
  "monitorTarget outside name turns = fold (monitor_turn outside name) turns (new_monitor name)"

text \<open>The targets of the command line, and the uptime of the summary that is logged at intervals.\<close>

definition parse_targets :: "string list \<Rightarrow> string + (string \<times> string) list" where
  "parse_targets targets =
     (if targets = [] then Inl ''at least one --target required''
      else case find (\<lambda>t. snd (SplitN2 CHR ''='' t) = None) targets of
        Some t \<Rightarrow> Inl (''invalid target format '' @ go_quote t @ '' (want name=url)'')
      | None \<Rightarrow> Inr (map (\<lambda>t. case SplitN2 CHR ''='' t of (n, u) \<Rightarrow> (n, the u)) targets))"

definition summary_uptime :: "gotime \<Rightarrow> statsEntry \<Rightarrow> int" where
  "summary_uptime now s =
     (if connected s then wrap64 (totalUptime s + (case currentStart s of None \<Rightarrow> 0 | Some t \<Rightarrow> Sub now t))
      else totalUptime s)"

section \<open>Lemmas\<close>

subsection \<open>Lines\<close>

lemma u00_no_newline: "newline \<notin> set (u00 c)"
  using hex_encode_no_newline [of "[c]"] by (simp add: u00_def del: hex_encode_no_newline)

lemma html_escape_no_newline: "newline \<notin> set s \<Longrightarrow> newline \<notin> set (html_escape s)"
proof (induction s rule: html_escape.induct)
  case (2 c r)
  have "newline \<notin> set (drop 2 r)" using 2(4) by (auto dest: in_set_dropD)
  then show ?case using 2 u00_no_newline [of c] by auto
qed simp

lemma quote_byte_no_newline: "newline \<notin> set (quote_byte c)"
  using u00_no_newline [of c] by (auto simp: quote_byte_def)

lemma json_quote_no_newline: "newline \<notin> set (json_quote s)"
  using html_escape_no_newline [of "concat (map quote_byte s)"] quote_byte_no_newline by (auto simp: json_quote_def)

definition data_line :: "string \<Rightarrow> nat \<times> string \<Rightarrow> string" where
  "data_line host m = ''data: '' @ json_print (heartbeat_data host m)"

lemma data_line_no_newline: "newline \<notin> set (data_line host m)"
proof -
  have "newline \<notin> set (Itoa (int (fst m)))" using nat_digits_all [of "fst m"] by (auto simp: Itoa_def list_all_iff is_digit_def)
  then show ?thesis using json_quote_no_newline by (simp add: data_line_def heartbeat_data_def)
qed

definition hello_line :: "string \<Rightarrow> string" where
  "hello_line host = js ''data: {~host~:'' @ go_quote host @ ''}''"

text \<open>A host name: letters, digits, dots and hyphens.\<close>

definition host_char :: "char \<Rightarrow> bool" where
  "host_char c \<longleftrightarrow> is_digit c \<or> c = CHR ''-'' \<or> c = CHR ''.'' \<or> 65 \<le> byte c \<and> byte c \<le> 90 \<or> 97 \<le> byte c \<and> byte c \<le> 122"

definition hostname :: "string \<Rightarrow> bool" where
  "hostname host \<longleftrightarrow> list_all host_char host"

lemma host_char_range: "host_char c \<Longrightarrow> 45 \<le> byte c \<and> byte c \<le> 122 \<and> byte c \<noteq> 60 \<and> byte c \<noteq> 62 \<and> byte c \<noteq> 92"
  by (auto simp: host_char_def is_digit_def)

lemma host_char_plain: "host_char c \<Longrightarrow> go_quote_byte c = [c] \<and> quote_byte c = [c] \<and> \<not> special c"
proof -
  assume "host_char c"
  from host_char_range [OF this] have "c \<noteq> d" if "byte d < 45 \<or> 122 < byte d \<or> byte d \<in> {60, 62, 92}" for d
    using that by auto
  from this [of "CHR 0x22"] this [of "CHR 0x5C"] this [of "CHR 0x07"] this [of "CHR 0x08"] this [of "CHR 0x0C"] this [of "CHR 0x0A"]
    this [of "CHR 0x0D"] this [of "CHR 0x09"] this [of "CHR 0x0B"] this [of "CHR ''<''"] this [of "CHR ''>''"] this [of "CHR ''&''"]
    this [of "CHR 0xE2"] host_char_range [OF \<open>host_char c\<close>]
  show ?thesis by (simp add: go_quote_byte_def quote_byte_def special_def Let_def)
qed

lemma hostname_plain: "hostname host \<Longrightarrow> c \<in> set host \<Longrightarrow> go_quote_byte c = [c] \<and> quote_byte c = [c] \<and> \<not> special c"
  by (rule host_char_plain) (simp add: hostname_def list_all_iff)

lemma hostname_quote: "hostname host \<Longrightarrow> go_quote host = json_quote host"
proof -
  assume h: "hostname host"
  have "concat (map go_quote_byte host) = host" "concat (map quote_byte host) = host"
    using hostname_plain [OF h] by (induction host) auto
  moreover have "html_escape (host @ []) = host @ html_escape []"
    by (rule html_escape_keep) (use hostname_plain [OF h] in blast)
  ultimately show ?thesis by (simp add: go_quote_def json_quote_def)
qed

lemma hello_line_json: "hostname host \<Longrightarrow> hello_line host = ''data: '' @ json_print (JObj [(''host'', JStr host)])"
proof -
  assume "hostname host"
  moreover have "js ''data: {~host~:'' = ''data: '' @ ''{'' @ json_quote ''host'' @ '':''" by code_simp
  ultimately show ?thesis by (simp add: hello_line_def hostname_quote)
qed

lemma connected_lines: "connected_event host = ''event: connected'' @ newline # hello_line host @ [newline, newline]"
  by (simp add: connected_event_def hello_line_def js_def)

lemma heartbeat_lines: "heartbeat host m = ''event: heartbeat'' @ newline # data_line host m @ [newline, newline]"
  by (simp add: heartbeat_def data_line_def)

lemma Split_event:
  assumes "newline \<notin> set a" "newline \<notin> set b"
  shows "Split newline ((a @ newline # b @ [newline, newline]) @ rest) = [a, b, []] @ Split newline rest"
proof -
  have e: "(a @ newline # b @ [newline, newline]) @ rest = a @ newline # b @ newline # newline # rest" by simp
  show ?thesis unfolding e Split_append [OF assms(1)] Split_append [OF assms(2)] by simp
qed

definition stream_lines :: "string \<Rightarrow> (nat \<times> string) list \<Rightarrow> string list" where
  "stream_lines host ms = [''event: connected'', hello_line host, []] @ concat (map (\<lambda>m. [''event: heartbeat'', data_line host m, []]) ms)"

lemma Split_heartbeats:
  "Split newline (concat (map (heartbeat host) ms)) = concat (map (\<lambda>m. [''event: heartbeat'', data_line host m, []]) ms) @ [[]]"
proof (induction ms)
  case (Cons m ms)
  have "Split newline (heartbeat host m @ concat (map (heartbeat host) ms))
    = [''event: heartbeat'', data_line host m, []] @ Split newline (concat (map (heartbeat host) ms))"
    unfolding heartbeat_lines [of host m] by (rule Split_event [OF _ data_line_no_newline]) simp
  then show ?case using Cons by simp
qed simp

lemma Split_stream:
  assumes "hostname host"
  shows "Split newline (connected_event host @ concat (map (heartbeat host) ms)) = stream_lines host ms @ [[]]"
proof -
  have "newline \<notin> set (hello_line host)"
    using json_quote_no_newline by (simp add: hello_line_json [OF assms])
  from Split_event [OF _ this, of "''event: connected''" "concat (map (heartbeat host) ms)"]
  show ?thesis by (simp add: connected_lines stream_lines_def Split_heartbeats)
qed

text \<open>No line ends in a carriage return.\<close>

lemma TrimSuffix_other: "s = [] \<or> last s \<noteq> c \<Longrightarrow> TrimSuffix s [c] = s"
  by (cases s rule: rev_cases) (auto simp: TrimSuffix_def HasSuffix_def)

lemma stream_lines_plain: "hostname host \<Longrightarrow> l \<in> set (stream_lines host ms) \<Longrightarrow> TrimSuffix l [CHR 0x0D] = l"
proof (rule TrimSuffix_other)
  assume h: "hostname host" and "l \<in> set (stream_lines host ms)"
  then consider "l = ''event: connected''" | "l = hello_line host" | "l = []" | "l = ''event: heartbeat''" | m where "l = data_line host m"
    by (fastforce simp: stream_lines_def split: if_splits)
  then show "l = [] \<or> last l \<noteq> CHR 0x0D"
    by cases (simp_all add: hello_line_json [OF h] data_line_def heartbeat_data_def)
qed

lemma scan_stream:
  assumes "hostname host" "\<forall>l \<in> set (stream_lines host ms). length l < 65536"
  shows "scan_lines (connected_event host @ concat (map (heartbeat host) ms)) = (stream_lines host ms, False)"
proof -
  have "takeWhile (\<lambda>l. length l < 65536) (stream_lines host ms) = stream_lines host ms"
    using assms(2) by (simp add: takeWhile_eq_all_conv)
  moreover have "map (\<lambda>l. TrimSuffix l [CHR 0x0D]) (stream_lines host ms) = stream_lines host ms"
    using stream_lines_plain [OF assms(1)] by (simp add: map_idI)
  ultimately show ?thesis
    by (simp add: scan_lines_def Let_def Split_stream [OF assms(1)] del: takeWhile_eq_all_conv)
qed

subsection \<open>What the monitor reads\<close>

fun gaps_of :: "nat list \<Rightarrow> (nat \<times> nat) list" where
  "gaps_of (a # b # ns) = (if b \<noteq> a + 1 then [(a + 1, b)] else []) @ gaps_of (b # ns)"
| "gaps_of _ = []"

lemma scan_event_line: "\<not> HasPrefix l ''data: '' \<Longrightarrow> scan_line outside l st = st"
  by (simp add: scan_line_def)

lemma scan_data:
  "scan_line outside (''data: '' @ t) st =
     (case unmarshal_map t of
        None \<Rightarrow> st
      | Some msg \<Rightarrow>
          (case map_of msg ''seq'' of
             Some (IFloat x) \<Rightarrow>
               (let n = seq_number outside x;
                    expected = (prevSeq st + 1) mod 2 ^ 64
                in \<lparr>lastSeq = n, prevSeq = n,
                    gaps = gaps st @ (if prevSeq st > 0 \<and> n \<noteq> expected then [(expected, n)] else [])\<rparr>)
           | _ \<Rightarrow> st))"
  by (simp only: scan_line_def HasPrefix_append TrimPrefix_append not_True_eq_False if_False)

lemma scan_hello: "hostname host \<Longrightarrow> scan_line outside (hello_line host) st = st"
proof -
  assume h: "hostname host"
  have "json_parse (json_print (JObj [(''host'', JStr host)])) = Some (JObj [(''host'', JStr host)])"
    by (rule json_parse_print) simp
  then have "unmarshal_map (json_print (JObj [(''host'', JStr host)])) = Some [(''host'', IString host)]"
    by (simp add: unmarshal_map_def unmarshal_iface_def sort_members_def del: json_print.simps)
  then show ?thesis unfolding hello_line_json [OF h] scan_data by (simp del: json_print.simps)
qed

lemma scan_heartbeat:
  assumes "0 < fst m" "fst m < 2 ^ 53" "prevSeq st < 2 ^ 53"
  shows "scan_line outside (data_line host m) st =
    \<lparr>lastSeq = fst m, prevSeq = fst m,
      gaps = gaps st @ (if prevSeq st > 0 \<and> fst m \<noteq> prevSeq st + 1 then [(prevSeq st + 1, fst m)] else [])\<rparr>"
proof -
  obtain x where x: "f64_round (fst m) 1 = Some x" "f64_trunc x = fst m" using f64_trunc_exact [OF assms(2)] by blast
  have "json_parse (json_print (heartbeat_data host m)) = Some (heartbeat_data host m)"
    by (rule json_parse_print) (auto simp: heartbeat_data_def)
  then obtain vs where v: "unmarshal_map (json_print (heartbeat_data host m)) = Some vs"
    "map_of vs ''seq'' = Some (IFloat (False, x))"
    using x(1) by (simp add: unmarshal_map_def unmarshal_iface_def heartbeat_data_def num_f64_Itoa sort_members_map_of del: json_print.simps)
  have "seq_number outside (False, x) = fst m"
    using x(2) assms(2) by (cases x) (simp add: seq_number_def Let_def)
  moreover have "(prevSeq st + 1) mod 2 ^ 64 = prevSeq st + 1" using assms(3) by simp
  ultimately show ?thesis unfolding data_line_def scan_data
    using v by (simp add: Let_def)
qed

lemma scan_heartbeats:
  assumes "\<forall>m \<in> set ms. 0 < fst m \<and> fst m < 2 ^ 53" "prevSeq st < 2 ^ 53"
  shows "fold (scan_line outside) (concat (map (\<lambda>m. [''event: heartbeat'', data_line host m, []]) ms)) st =
    (if ms = [] then st
     else \<lparr>lastSeq = fst (last ms), prevSeq = fst (last ms),
       gaps = gaps st @ gaps_of ((if prevSeq st > 0 then [prevSeq st] else []) @ map fst ms)\<rparr>)"
  using assms
proof (induction ms arbitrary: st)
  case (Cons m ms)
  let ?st = "scan_line outside (data_line host m) st"
  have e: "\<not> HasPrefix ''event: heartbeat'' ''data: ''" "\<not> HasPrefix [] ''data: ''" by code_simp+
  note h = scan_heartbeat [of m st outside host]
  have "fold (scan_line outside) (concat (map (\<lambda>m. [''event: heartbeat'', data_line host m, []]) (m # ms))) st
    = fold (scan_line outside) (concat (map (\<lambda>m. [''event: heartbeat'', data_line host m, []]) ms)) ?st"
    by (simp add: scan_event_line e)
  also have "\<dots> = (if ms = [] then ?st else \<lparr>lastSeq = fst (last ms), prevSeq = fst (last ms),
       gaps = gaps ?st @ gaps_of ((if prevSeq ?st > 0 then [prevSeq ?st] else []) @ map fst ms)\<rparr>)"
    by (rule Cons.IH) (use Cons.prems h in simp_all)
  finally show ?case using h Cons.prems by (cases ms) simp_all
qed simp

subsection \<open>What the server wrote\<close>

text \<open>
  The state of one client after \<open>n\<close> broadcasts: it was sent \<open>sent\<close> and waits for
  \<open>waiting\<close>, in the order of their numbers; without a loss, all numbers since it joined.
\<close>

definition client_history :: "string \<Rightarrow> nat \<Rightarrow> bool \<Rightarrow> SseClient \<Rightarrow> (nat \<times> string) list \<Rightarrow> (nat \<times> string) list \<Rightarrow> bool" where
  "client_history host n lost c sent waiting \<longleftrightarrow>
     written c = connected_event host @ concat (map (heartbeat host) sent)
     \<and> channel c = map (heartbeat host) waiting \<and> length waiting \<le> channel_size
     \<and> sorted_wrt (<) (map fst (sent @ waiting)) \<and> (\<forall>m \<in> set (sent @ waiting). 0 < fst m \<and> fst m \<le> n)
     \<and> (\<not> lost \<longrightarrow> (\<exists>k \<le> Suc n. map fst (sent @ waiting) = [k..<Suc n]))"

definition client_ok :: "string \<Rightarrow> nat \<Rightarrow> bool \<Rightarrow> SseClient \<Rightarrow> bool" where
  "client_ok host n lost c \<longleftrightarrow> (\<exists>sent waiting. client_history host n lost c sent waiting)"

lemma history_unlost:
  "client_history host n lost c sent waiting \<Longrightarrow> \<not> lost \<Longrightarrow> \<exists>k \<le> Suc n. map fst (sent @ waiting) = [k..<Suc n]"
  by (simp only: client_history_def) simp

lemma client_joins: "client_ok host n lost \<lparr>channel = [], written = connected_event host\<rparr>"
  unfolding client_ok_def by (rule exI [of _ "[]"], rule exI [of _ "[]"]) (auto simp: client_history_def intro: exI [of _ "Suc n"])

lemma history_sent:
  assumes h: "client_history host n lost c sent waiting" and room: "length (channel c) < channel_size"
  shows "client_history host (Suc n) lost (send (heartbeat host (Suc n, ts)) c) sent (waiting @ [(Suc n, ts)])"
proof -
  have "\<exists>k \<le> Suc (Suc n). map fst (sent @ waiting @ [(Suc n, ts)]) = [k..<Suc (Suc n)]" if nl: "\<not> lost"
  proof -
    obtain k where "k \<le> Suc n" "map fst (sent @ waiting) = [k..<Suc n]"
      using history_unlost [OF h nl] by blast
    then have "map fst (sent @ waiting @ [(Suc n, ts)]) = [k..<Suc (Suc n)]" by simp
    then show ?thesis using \<open>k \<le> Suc n\<close> by (intro exI [of _ k]) simp
  qed
  moreover have "sorted_wrt (<) (map fst (sent @ waiting @ [(Suc n, ts)]))"
  proof -
    have "sorted_wrt (<) (map fst (sent @ waiting))" "\<forall>x \<in> set (map fst (sent @ waiting)). x < Suc n"
      using h unfolding client_history_def by (blast, auto simp: less_Suc_eq_le)
    then have "sorted_wrt (<) (map fst (sent @ waiting) @ [Suc n])"
      unfolding sorted_wrt_append [of _ "map fst (sent @ waiting)"] by simp
    then show ?thesis by simp
  qed
  moreover have "0 < fst m \<and> fst m \<le> Suc n" if "m \<in> set (sent @ waiting @ [(Suc n, ts)])" for m
  proof (cases "m = (Suc n, ts)")
    case False
    then have "m \<in> set (sent @ waiting)" using that by simp
    then have "0 < fst m \<and> fst m \<le> n" using h unfolding client_history_def by blast
    then show ?thesis by simp
  qed simp
  moreover have "channel (send (heartbeat host (Suc n, ts)) c) = map (heartbeat host) (waiting @ [(Suc n, ts)])"
    "written (send (heartbeat host (Suc n, ts)) c) = connected_event host @ concat (map (heartbeat host) sent)"
    "length (waiting @ [(Suc n, ts)]) \<le> channel_size"
    using h room by (simp_all add: client_history_def send_def)
  ultimately show ?thesis unfolding client_history_def by blast
qed

lemma client_sent:
  assumes "client_ok host n lost c"
  shows "client_ok host (Suc n) (lost \<or> \<not> length (channel c) < channel_size) (send (heartbeat host (Suc n, ts)) c)"
proof -
  obtain sent waiting where h: "client_history host n lost c sent waiting" using assms by (auto simp: client_ok_def)
  show ?thesis
  proof (cases "length (channel c) < channel_size")
    case True
    then show ?thesis using history_sent [OF h True] by (auto simp: client_ok_def)
  next
    case False
    then have "send (heartbeat host (Suc n, ts)) c = c" by (simp add: send_def)
    moreover have "client_history host (Suc n) True c sent waiting"
      using h le_SucI unfolding client_history_def by blast
    ultimately have "client_history host (Suc n) True (send (heartbeat host (Suc n, ts)) c) sent waiting" by (simp only:)
    then show ?thesis using False by (auto simp: client_ok_def)
  qed
qed

lemma client_delivered:
  assumes "client_ok host n lost c" "channel c = msg # rest"
  shows "client_ok host n lost \<lparr>channel = rest, written = written c @ msg\<rparr>"
proof -
  obtain sent waiting where h: "client_history host n lost c sent waiting" using assms by (auto simp: client_ok_def)
  then obtain m ws where w: "waiting = m # ws" "heartbeat host m = msg" "map (heartbeat host) ws = rest"
    using assms(2) by (auto simp: client_history_def map_eq_Cons_conv)
  then have "client_history host n lost \<lparr>channel = rest, written = written c @ msg\<rparr> (sent @ [m]) ws"
    using h by (auto simp: client_history_def)
  then show ?thesis by (auto simp: client_ok_def)
qed

lemma server_invariant:
  assumes "serves host n full s" "n < 2 ^ 53"
  shows "seq s = n \<and> (\<forall>i c. map_of (clients s) i = Some c \<longrightarrow> client_ok host n (i \<in> full) c)"
  using assms
proof (induction rule: serves.induct)
  case (beat n full s ts)
  let ?full = "full \<union> {i. \<exists>c. map_of (clients s) i = Some c \<and> \<not> length (channel c) < channel_size}"
  have n: "seq s = n" and ok: "\<And>i c. map_of (clients s) i = Some c \<Longrightarrow> client_ok host n (i \<in> full) c"
    using beat by auto
  have b: "broadcast host ts s = s\<lparr>seq := Suc n, clients := map (\<lambda>(i, c). (i, send (heartbeat host (Suc n, ts)) c)) (clients s)\<rparr>"
    using n beat.prems by (simp add: broadcast_def Let_def)
  have "client_ok host (Suc n) (i \<in> ?full) c'" if m: "map_of (clients (broadcast host ts s)) i = Some c'" for i c'
  proof -
    obtain c where c: "map_of (clients s) i = Some c" "c' = send (heartbeat host (Suc n, ts)) c"
      using m by (auto simp: b map_of_map_val)
    have "(i \<in> ?full) = (i \<in> full \<or> \<not> length (channel c) < channel_size)" using c(1) by simp
    then show ?thesis using client_sent [OF ok [OF c(1)], of ts] by (simp only: c(2))
  qed
  then show ?case by (auto simp: b)
next
  case (join n full s i)
  then show ?case by (auto simp: join_client_def map_of_update client_joins)
next
  case (delivery n full s i)
  show ?case
  proof (cases "\<exists>c msg rest. map_of (clients s) i = Some c \<and> channel c = msg # rest")
    case True
    then obtain c msg rest where "map_of (clients s) i = Some c" "channel c = msg # rest" by blast
    then show ?thesis using delivery client_delivered by (auto simp: deliver_def map_of_update)
  next
    case False
    then have "deliver i s = s" by (auto simp: deliver_def split: option.splits list.splits)
    then show ?thesis using delivery by simp
  qed
next
  case (gone n full s i)
  then show ?case by (auto simp: leave_def map_of_delete split: if_splits)
qed simp

lemma gaps_of_upt: "gaps_of [k..<m] = []"
proof (induction "m - k" arbitrary: k)
  case (Suc d)
  show ?case
  proof (cases "Suc k < m")
    case True
    then have "[k..<m] = k # Suc k # [Suc (Suc k)..<m]" by (simp add: upt_rec)
    moreover have "gaps_of (Suc k # [Suc (Suc k)..<m]) = []" using Suc.hyps(1) [of "Suc k"] Suc.hyps(2) True by (simp add: upt_conv_Cons)
    ultimately show ?thesis by simp
  next
    case False
    then have "[k..<m] = [k]" using Suc.hyps(2) by (simp add: upt_rec)
    then show ?thesis by simp
  qed
qed simp

lemma gaps_of_prefix: "gaps_of (ns @ ms) = [] \<Longrightarrow> gaps_of ns = []"
  by (induction ns rule: gaps_of.induct) (auto split: if_splits)

text \<open>The heartbeats that a strictly increasing sequence jumps over.\<close>

lemma gaps_of_real:
  "sorted_wrt (<) ns \<Longrightarrow> (e, g) \<in> set (gaps_of ns) \<Longrightarrow> hd ns < e \<and> e < g \<and> g \<in> set ns \<and> (\<forall>x \<in> set ns. x < e \<or> g \<le> x)"
proof (induction ns rule: gaps_of.induct)
  case (1 a b ns)
  then show ?case by (auto split: if_splits)
qed auto

subsection \<open>Pauses\<close>

lemma monitor_turn_effect:
  "backoff (monitor_turn outside name (ct, r, dt) m) = next_backoff (backoff m) (Sub dt ct)"
  "slept (monitor_turn outside name (ct, r, dt) m) = slept m @ [next_backoff (backoff m) (Sub dt ct)]"
  by (simp_all add: monitor_turn_def monitor_drop_def monitor_connect_def Let_def split: prod.split)

lemma next_backoff_range:
  "Second \<le> b \<Longrightarrow> b \<le> 30 * Second \<Longrightarrow> Second \<le> next_backoff b d \<and> next_backoff b d \<le> 30 * Second"
  by (simp add: next_backoff_def int64_ok_def)

lemma pauses:
  "(\<forall>b \<in> set (slept (monitorTarget outside name turns)). Second \<le> b \<and> b \<le> 30 * Second)
   \<and> length (slept (monitorTarget outside name turns)) = length turns
   \<and> Second \<le> backoff (monitorTarget outside name turns) \<and> backoff (monitorTarget outside name turns) \<le> 30 * Second"
proof (induction turns rule: rev_induct)
  case (snoc t turns)
  obtain ct r dt where "t = (ct, r, dt)" by (cases t)
  with snoc next_backoff_range show ?case by (auto simp: monitorTarget_def monitor_turn_effect)
qed (simp add: monitorTarget_def new_monitor_def)

lemma backoff_doubles:
  assumes "\<forall>(ct, r, dt) \<in> set short. Sub dt ct \<le> 30 * Second" "backoff m = Second"
  shows "backoff (fold (monitor_turn outside name) short m) = min (2 ^ length short * Second) (30 * Second)"
  using assms(1)
proof (induction short rule: rev_induct)
  case (snoc t short)
  obtain ct r dt where t: "t = (ct, r, dt)" by (cases t)
  let ?b = "min (2 ^ length short * Second) (30 * Second) :: int"
  have "int64_ok (min a (30 * Second) * 2)" if "0 \<le> a" for a using that by (auto simp: int64_ok_def min_def)
  then have "int64_ok (?b * 2)" by simp
  then have "next_backoff ?b (Sub dt ct) = min (?b * 2) (30 * Second)"
    using snoc.prems t by (simp add: next_backoff_def)
  then show ?case using snoc t by (auto simp: monitor_turn_effect min_def)
qed (simp add: assms(2))

section \<open>Properties\<close>

text \<open>
  C36: The monitor's gaps are the server's losses. Let the server run in any interleaving, with fewer
  than \<open>2 ^ 53\<close> broadcasts, and let the monitor read what it wrote to one client. The stream
  is that of heartbeats with increasing numbers; the monitor ends with the number of the last one,
  and reports exactly the places where the numbers jump. Each report names a heartbeat that was
  broadcast and never written to this client; there is none if the client's channel was never
  full.
\<close>

theorem gaps_are_losses:
  assumes "serves host n full s" "n < 2 ^ 53" "hostname host"
    and "map_of (clients s) i = Some c"
    and "\<forall>l \<in> set (Split newline (written c)). length l < 65536"
  shows "\<exists>sent. written c = connected_event host @ concat (map (heartbeat host) sent)
    \<and> sorted_wrt (<) (map fst sent)
    \<and> streamSSE outside \<lparr>GetError = None, StatusCode = 200, Body = written c, ReadError = err\<rparr>
        = ((if sent = [] then 0 else fst (last sent), case err of Some e \<Rightarrow> ''read: '' @ e | None \<Rightarrow> ''stream ended''),
           gaps_of (map fst sent))
    \<and> (\<forall>(e, g) \<in> set (gaps_of (map fst sent)). 0 < e \<and> e < n \<and> e \<notin> fst ` set sent \<and> g \<in> fst ` set sent)
    \<and> (i \<notin> full \<longrightarrow> gaps_of (map fst sent) = [])"
proof -
  have "client_ok host n (i \<in> full) c" using server_invariant [OF assms(1,2)] assms(4) by blast
  then obtain sent waiting where h: "client_history host n (i \<in> full) c sent waiting" by (auto simp: client_ok_def)
  have w: "written c = connected_event host @ concat (map (heartbeat host) sent)"
    and srt: "sorted_wrt (<) (map fst sent)"
    and range: "\<forall>m \<in> set sent. 0 < fst m \<and> fst m \<le> n"
    using h by (auto simp: client_history_def sorted_wrt_append)
  have bound: "\<forall>m \<in> set sent. 0 < fst m \<and> fst m < 2 ^ 53" using range assms(2) by fastforce
  have "\<forall>l \<in> set (stream_lines host sent). length l < 65536"
    using assms(5) by (simp add: w Split_stream [OF assms(3)])
  note scan = scan_stream [OF assms(3) this]
  have hello: "fold (scan_line outside) [''event: connected'', hello_line host, []] st = st" for st
    using scan_hello [OF assms(3)] scan_event_line [of "''event: connected''"] scan_event_line [of "[]"]
    by (simp add: HasPrefix_def)
  have "fold (scan_line outside) (stream_lines host sent) \<lparr>lastSeq = 0, prevSeq = 0, gaps = []\<rparr>
    = (if sent = [] then \<lparr>lastSeq = 0, prevSeq = 0, gaps = []\<rparr>
       else \<lparr>lastSeq = fst (last sent), prevSeq = fst (last sent), gaps = gaps_of (map fst sent)\<rparr>)"
    unfolding stream_lines_def fold_append comp_apply hello using scan_heartbeats [OF bound] by simp
  then have stream: "streamSSE outside \<lparr>GetError = None, StatusCode = 200, Body = written c, ReadError = err\<rparr>
        = ((if sent = [] then 0 else fst (last sent), case err of Some e \<Rightarrow> ''read: '' @ e | None \<Rightarrow> ''stream ended''),
           gaps_of (map fst sent))"
    by (simp add: streamSSE_def w scan Let_def)
  have real: "0 < e \<and> e < n \<and> e \<notin> fst ` set sent \<and> g \<in> fst ` set sent" if eg: "(e, g) \<in> set (gaps_of (map fst sent))" for e g
  proof -
    have r: "hd (map fst sent) < e \<and> e < g \<and> g \<in> set (map fst sent) \<and> (\<forall>x \<in> set (map fst sent). x < e \<or> g \<le> x)"
      by (rule gaps_of_real [OF srt eg])
    then have "e \<notin> set (map fst sent)" using leD by blast
    moreover have "g \<le> n" using r range by auto
    ultimately show ?thesis using r by auto
  qed
  have "gaps_of (map fst sent) = []" if nl: "i \<notin> full"
  proof -
    obtain k where "map fst sent @ map fst waiting = [k..<Suc n]"
      using history_unlost [OF h nl] unfolding map_append by blast
    then show ?thesis using gaps_of_upt [of k "Suc n"] gaps_of_prefix [of "map fst sent" "map fst waiting"] by simp
  qed
  with w srt stream real show ?thesis by (intro exI [of _ sent]) blast
qed

text \<open>
  The monitor keeps trying, and not too often. Every pause between two connections is between one
  and thirty seconds. After a connection of more than thirty seconds it is one second, and after
  \<open>k\<close> shorter ones in a row, from then or from the start, it is \<open>2 ^ k\<close> seconds, at most
  thirty.
\<close>

theorem backoff_bounds:
  assumes "\<forall>(ct, r, dt) \<in> set short. Sub dt ct \<le> 30 * Second"
    and "turns = [] \<or> (case last turns of (ct, r, dt) \<Rightarrow> Sub dt ct > 30 * Second)"
  shows "(\<forall>b \<in> set (slept (monitorTarget outside name (turns @ short))). Second \<le> b \<and> b \<le> 30 * Second)
    \<and> length (slept (monitorTarget outside name (turns @ short))) = length turns + length short
    \<and> backoff (monitorTarget outside name (turns @ short)) = min (2 ^ length short * Second) (30 * Second)"
proof -
  have "backoff (monitorTarget outside name turns) = Second"
  proof (cases turns rule: rev_cases)
    case (snoc ts t)
    then show ?thesis using assms(2) by (cases t) (simp add: monitorTarget_def monitor_turn_effect next_backoff_def)
  qed (simp add: monitorTarget_def new_monitor_def)
  then have "backoff (fold (monitor_turn outside name) short (monitorTarget outside name turns))
    = min (2 ^ length short * Second) (30 * Second)"
    by (rule backoff_doubles [OF assms(1)])
  then show ?thesis using pauses [of outside name "turns @ short"] by (simp add: monitorTarget_def)
qed

section \<open>Witnesses\<close>

text \<open>A client joins, two heartbeats are broadcast, and the first is written to it.\<close>

definition demo_joined :: SseServer where
  "demo_joined = join_client ''h'' ''a'' \<lparr>seq = 0, clients = []\<rparr>"

definition demo_server :: SseServer where
  "demo_server = deliver ''a'' (broadcast ''h'' ''t'' (broadcast ''h'' ''t'' demo_joined))"

lemma demo_clients:
  "clients demo_joined = [(''a'', \<lparr>channel = [], written = connected_event ''h''\<rparr>)]"
  "clients (broadcast ''h'' ''t'' demo_joined) = [(''a'', \<lparr>channel = [heartbeat ''h'' (1, ''t'')], written = connected_event ''h''\<rparr>)]"
  "clients demo_server = [(''a'', \<lparr>channel = [heartbeat ''h'' (2, ''t'')], written = connected_event ''h'' @ heartbeat ''h'' (1, ''t'')\<rparr>)]"
  by (simp_all add: demo_server_def demo_joined_def join_client_def broadcast_def send_def deliver_def channel_size_def Let_def
      flip: numeral_2_eq_2)

lemma demo_server_reached: "serves ''h'' 2 {} demo_server"
proof -
  have "serves ''h'' 0 ({} - {''a''}) demo_joined"
    unfolding demo_joined_def by (rule serves.join [OF serves.start]) simp
  then have b: "serves ''h'' (Suc (Suc 0)) ({} - {''a''}
      \<union> {i. \<exists>c. map_of (clients demo_joined) i = Some c \<and> \<not> length (channel c) < channel_size}
      \<union> {i. \<exists>c. map_of (clients (broadcast ''h'' ''t'' demo_joined)) i = Some c \<and> \<not> length (channel c) < channel_size})
     (broadcast ''h'' ''t'' (broadcast ''h'' ''t'' demo_joined))" by (intro serves.beat)
  have room: "{i. \<exists>c. map_of (clients demo_joined) i = Some c \<and> \<not> length (channel c) < channel_size} = {}"
    "{i. \<exists>c. map_of (clients (broadcast ''h'' ''t'' demo_joined)) i = Some c \<and> \<not> length (channel c) < channel_size} = {}"
    by (auto simp: demo_clients channel_size_def split: if_splits)
  have "serves ''h'' 2 {} (broadcast ''h'' ''t'' (broadcast ''h'' ''t'' demo_joined))"
    using b unfolding room numeral_2_eq_2 by simp
  then show ?thesis unfolding demo_server_def by (rule serves.delivery)
qed

theorem gaps_are_losses_witness:
  "\<exists>sent. connected_event ''h'' @ heartbeat ''h'' (1, ''t'') = connected_event ''h'' @ concat (map (heartbeat ''h'') sent)
     \<and> snd (streamSSE (\<lambda>_. 0) \<lparr>GetError = None, StatusCode = 200,
          Body = connected_event ''h'' @ heartbeat ''h'' (1, ''t''), ReadError = None\<rparr>) = []"
proof -
  let ?c = "\<lparr>channel = [heartbeat ''h'' (2, ''t'')], written = connected_event ''h'' @ heartbeat ''h'' (1, ''t'')\<rparr>"
  have "(2::nat) < 2 ^ 53" "hostname ''h''" by code_simp+
  moreover have "map_of (clients demo_server) ''a'' = Some ?c" by (simp add: demo_clients)
  moreover have "list_all (\<lambda>l. length l < 65536) (Split newline (written ?c))" by code_simp
  then have "\<forall>l \<in> set (Split newline (written ?c)). length l < 65536" by (simp only: list_all_iff)
  ultimately obtain sent where "written ?c = connected_event ''h'' @ concat (map (heartbeat ''h'') sent)"
    "streamSSE (\<lambda>_. 0) \<lparr>GetError = None, StatusCode = 200, Body = written ?c, ReadError = None\<rparr>
        = ((if sent = [] then 0 else fst (last sent), case None of Some e \<Rightarrow> ''read: '' @ e | None \<Rightarrow> ''stream ended''),
           gaps_of (map fst sent))" "gaps_of (map fst sent) = []"
    using gaps_are_losses [OF demo_server_reached _ _, of "''a''" ?c "\<lambda>_. 0" None] by blast
  then show ?thesis by auto
qed

definition demo_refused :: Stream where
  "demo_refused = \<lparr>GetError = Some ''refused'', StatusCode = 0, Body = [], ReadError = None\<rparr>"

theorem backoff_bounds_witness:
  "backoff (monitorTarget (\<lambda>_. 0) ''web'' [(0, demo_refused, 31 * Second), (40 * Second, demo_refused, 41 * Second),
     (42 * Second, demo_refused, 43 * Second)]) = 4 * Second"
  using backoff_bounds [of "[(40 * Second, demo_refused, 41 * Second), (42 * Second, demo_refused, 43 * Second)]"
      "[(0, demo_refused, 31 * Second)]" "\<lambda>_. 0" "''web''"]
  by (simp add: Sub_def)

end
