(* ===== verification/File_Upload.thy ===== *)
theory File_Upload
  imports Json_Text
begin

text \<open>
  \<open>pkgs/fort-upload\<close>: the handler that stores an uploaded file in the drops directory under
  a name made of the time and the file's own, sanitized name.
\<close>

section \<open>Names\<close>

text \<open>\<open>filepath.Base\<close>\<close>

definition Base :: "string \<Rightarrow> string" where
  "Base path =
     (if path = [] then ''.''
      else
        (let p = rev (dropWhile (\<lambda>c. c = CHR ''/'') (rev path)) in
         if p = [] then ''/'' else rev (takeWhile (\<lambda>c. c \<noteq> CHR ''/'') (rev p))))"

text \<open>The \<open>strings.Replacer\<close>: one pass, no replacement of what it wrote.\<close>

fun replacer :: "string \<Rightarrow> string" where
  "replacer [] = []"
| "replacer (c # s) =
     (if c = CHR ''/'' then CHR ''_'' # replacer s
      else if c = CHR 0x5C then CHR ''_'' # replacer s
      else if c = CHR 0x00 then replacer s
      else if c = CHR ''.'' \<and> s \<noteq> [] \<and> hd s = CHR ''.'' then CHR ''_'' # replacer (tl s)
      else c # replacer s)"

definition sanitizeFilename :: "string \<Rightarrow> string" where
  "sanitizeFilename name =
     (let name' = replacer (Base name) in if name' = [] \<or> name' = ''.'' then ''unnamed'' else name')"

section \<open>The handler\<close>

record UploadResponse =
  Success :: bool
  Path :: string
  Filename :: string
  Size :: int
  UploadError :: string

definition upload_json :: "UploadResponse \<Rightarrow> string" where
  "upload_json r = json_print (JObj
     ([(''success'', JBool (Success r))]
      @ (if Path r = [] then [] else [(''path'', JStr (Path r))])
      @ (if Filename r = [] then [] else [(''filename'', JStr (Filename r))])
      @ (if Size r = 0 then [] else [(''size'', JNum (Itoa (Size r)))])
      @ (if UploadError r = [] then [] else [(''error'', JStr (UploadError r))]))) @ [CHR 0x0A]"

definition dropsDir :: string where
  "dropsDir = ''/var/lib/fort/drops''"

text \<open>
  A request: what parsing its form and taking the file out of it gave, and the file's name and
  contents. \<open>Stamp\<close> is the time in the format of the names; \<open>CopyError\<close> is the error of
  the copy, after a number of bytes of the contents. Removing the file after that may fail too; the
  code ignores it.
\<close>

record UploadRequest =
  IsPost :: bool
  FormError :: "string option"
  FileError :: "string option"
  FileName :: string
  Content :: string
  Stamp :: string
  CreateError :: "string option"
  CopyError :: "(nat \<times> string) option"
  RemoveFails :: bool

definition upload_error :: "nat \<Rightarrow> string \<Rightarrow> nat \<times> string" where
  "upload_error status msg =
     (status, upload_json \<lparr>Success = False, Path = [], Filename = [], Size = 0, UploadError = msg\<rparr>)"

definition dest_name :: "UploadRequest \<Rightarrow> string" where
  "dest_name r = Stamp r @ ''_'' @ sanitizeFilename (FileName r)"

text \<open>
  \<open>ServeHTTP\<close> on the files of the directory. Joining the directory and a name without slashes
  that is not \<open>.\<close> or \<open>..\<close> puts a slash between them.
\<close>

definition ServeHTTP :: "UploadRequest \<Rightarrow> string gomap \<Rightarrow> string gomap \<times> nat \<times> string" where
  "ServeHTTP r drops =
     (if \<not> IsPost r then (drops, upload_error 405 ''only POST allowed'')
      else case FormError r of
        Some err \<Rightarrow> (drops, upload_error 400 (''parse form failed: '' @ err))
      | None \<Rightarrow>
          (case FileError r of
             Some err \<Rightarrow> (drops, upload_error 400 (''no file in request: '' @ err))
           | None \<Rightarrow>
               (let destName = dest_name r; destPath = dropsDir @ ''/'' @ destName in
                case CreateError r of
                  Some err \<Rightarrow> (drops, upload_error 500 (''create file failed: '' @ err))
                | None \<Rightarrow>
                    (case CopyError r of
                       Some (n, err) \<Rightarrow>
                         (if RemoveFails r then AList.update destName (take n (Content r)) drops
                          else AList.delete destName drops,
                          upload_error 500 (''write failed: '' @ err))
                     | None \<Rightarrow>
                         (AList.update destName (Content r) drops, 200,
                          upload_json \<lparr>Success = True, Path = destPath, Filename = destName,
                            Size = int (length (Content r)), UploadError = []\<rparr>)))))"

section \<open>Lemmas\<close>

lemma replacer_chars: "c \<in> set (replacer s) \<Longrightarrow> c \<noteq> CHR ''/'' \<and> c \<noteq> CHR 0x5C \<and> c \<noteq> CHR 0x00"
  by (induction s rule: replacer.induct) (auto split: if_splits)

lemma sanitized_chars: "c \<in> set (sanitizeFilename name) \<Longrightarrow> c \<noteq> CHR ''/'' \<and> c \<noteq> CHR 0x5C \<and> c \<noteq> CHR 0x00"
  using replacer_chars [of c "Base name"] by (auto simp: sanitizeFilename_def Let_def split: if_splits)

text \<open>A name with none of the replaced characters and no two dots in a row is kept.\<close>

fun dotted :: "string \<Rightarrow> bool" where
  "dotted (a # b # s) = (a = CHR ''.'' \<and> b = CHR ''.'' \<or> dotted (b # s))"
| "dotted _ = False"

lemma replacer_undotted: "CHR 0x00 \<notin> set s \<Longrightarrow> \<not> dotted (replacer s)"
proof -
  have hd_dot: "replacer s = [] \<or> hd (replacer s) \<noteq> CHR ''.'' \<or> (s \<noteq> [] \<and> hd s = CHR ''.'')" if "CHR 0x00 \<notin> set s" for s
    using that by (cases s) auto
  have cons: "dotted (c # s) \<longleftrightarrow> s \<noteq> [] \<and> c = CHR ''.'' \<and> hd s = CHR ''.'' \<or> dotted s" for c s
    by (cases s) auto
  show "CHR 0x00 \<notin> set s \<Longrightarrow> \<not> dotted (replacer s)"
  proof (induction s rule: replacer.induct)
    case (2 c s)
    have "CHR 0x00 \<notin> set (tl s)" using 2 by (cases s) auto
    then show ?case using 2 hd_dot [of s] by (auto simp: cons)
  qed simp
qed

section \<open>Properties\<close>

text \<open>
  C38: An upload stays in the drops directory and touches one file of it. The name it is stored under
  is one component of a path, whatever the client calls the file, and has no \<open>..\<close> in it unless
  the client's name holds a NUL byte. An answer 200 means that the file holds the
  contents; no other file changes in any case. After any other answer the directory is as it was,
  or the copy failed: then nothing is left under the name, or the part that was copied if the file
  could not be removed.
\<close>

theorem upload_confined:
  assumes "ServeHTTP r drops = (drops', status, body)"
    and "set (Stamp r) \<inter> {CHR ''/'', CHR 0x5C, CHR 0x00} = {}"
  shows "set (dest_name r) \<inter> {CHR ''/'', CHR 0x5C, CHR 0x00} = {} \<and> dest_name r \<noteq> ''.'' \<and> dest_name r \<noteq> ''..''
    \<and> (CHR 0x00 \<notin> set (FileName r) \<longrightarrow> \<not> dotted (sanitizeFilename (FileName r)))
    \<and> (\<forall>name. name \<noteq> dest_name r \<longrightarrow> map_of drops' name = map_of drops name)
    \<and> (status = 200 \<longrightarrow> map_of drops' (dest_name r) = Some (Content r))
    \<and> (status \<noteq> 200 \<longrightarrow> drops' = drops
         \<or> (\<exists>n err. CopyError r = Some (n, err)
              \<and> map_of drops' (dest_name r) = (if RemoveFails r then Some (take n (Content r)) else None)))"
proof -
  have "set (dest_name r) \<inter> {CHR ''/'', CHR 0x5C, CHR 0x00} = {}"
    using assms(2) sanitized_chars [of _ "FileName r"] unfolding dest_name_def by auto
  moreover have "CHR ''_'' \<in> set (dest_name r)" by (simp add: dest_name_def)
  then have "dest_name r \<noteq> ''.''" "dest_name r \<noteq> ''..''" by auto
  moreover have "\<not> dotted (sanitizeFilename (FileName r))" if "CHR 0x00 \<notin> set (FileName r)"
  proof -
    have "set (Base (FileName r)) \<subseteq> set (FileName r) \<union> {CHR ''.'', CHR ''/''}"
      by (auto simp: Base_def Let_def dest!: set_takeWhileD set_dropWhileD)
    then have "CHR 0x00 \<notin> set (Base (FileName r))" using that by auto
    from replacer_undotted [OF this] show ?thesis by (auto simp: sanitizeFilename_def Let_def)
  qed
  moreover have "map_of drops' name = map_of drops name" if "name \<noteq> dest_name r" for name
    using assms(1) that by (auto simp: ServeHTTP_def Let_def map_of_update map_of_delete split: if_splits option.splits)
  moreover have "status = 200 \<longrightarrow> map_of drops' (dest_name r) = Some (Content r)"
    "status \<noteq> 200 \<longrightarrow> drops' = drops \<or> (\<exists>n err. CopyError r = Some (n, err)
         \<and> map_of drops' (dest_name r) = (if RemoveFails r then Some (take n (Content r)) else None))"
    using assms(1)
    by (auto simp: ServeHTTP_def Let_def upload_error_def map_of_update map_of_delete split: if_splits option.splits)
  ultimately show ?thesis by blast
qed

text \<open>
  A NUL byte between two dots is removed after they were passed over, so that the sanitized name is
  \<open>..\<close>; and a second upload of the same name within a second replaces the first.
\<close>

lemma dots_survive: "sanitizeFilename [CHR ''.'', CHR 0x00, CHR ''.''] = ''..''"
  by code_simp

lemma upload_overwrites:
  assumes "ServeHTTP r drops = (drops1, 200, b)" "Stamp r' = Stamp r" "FileName r' = FileName r"
    and "ServeHTTP r' drops1 = (drops2, 200, b')"
  shows "map_of drops2 (dest_name r) = Some (Content r')"
  using assms
  by (auto simp: ServeHTTP_def dest_name_def Let_def upload_error_def map_of_update split: if_splits option.splits)

definition demo_upload :: UploadRequest where
  "demo_upload = \<lparr>IsPost = True, FormError = None, FileError = None, FileName = ''../../etc/..passwd'',
     Content = ''data'', Stamp = ''2025-01-01T00-00-00'', CreateError = None, CopyError = None, RemoveFails = False\<rparr>"

theorem upload_confined_witness:
  "dest_name demo_upload = ''2025-01-01T00-00-00__passwd''
    \<and> \<not> dotted (sanitizeFilename (FileName demo_upload))
    \<and> map_of (fst (ServeHTTP demo_upload [(''old'', ''x'')])) ''old'' = Some ''x''
    \<and> map_of (fst (ServeHTTP demo_upload [(''old'', ''x'')])) (dest_name demo_upload) = Some ''data''"
proof -
  have s: "fst (snd (ServeHTTP demo_upload [(''old'', ''x'')])) = 200"
    by (simp add: ServeHTTP_def demo_upload_def Let_def)
  then obtain drops' body where r: "ServeHTTP demo_upload [(''old'', ''x'')] = (drops', 200, body)"
    by (metis prod.collapse)
  have d: "dest_name demo_upload = ''2025-01-01T00-00-00__passwd''" by code_simp
  have st: "set (Stamp demo_upload) \<inter> {CHR ''/'', CHR 0x5C, CHR 0x00} = {}" by (simp add: demo_upload_def)
  have "CHR 0x00 \<notin> set (FileName demo_upload)" "Content demo_upload = ''data''" by (simp_all add: demo_upload_def)
  moreover have "''old'' \<noteq> dest_name demo_upload" by (simp add: d)
  ultimately show ?thesis using upload_confined [OF r st] d r by (simp add: r)
qed

end
