(* ===== verification/Speech.thy ===== *)
theory Speech
  imports Signed_Token File_Upload
begin

text \<open>
  \<open>apps/stt\<close> and \<open>apps/tts/http\<close>: the HTTP front ends of speech recognition and speech
  synthesis. The programs they run and the backend they call are parameters.
\<close>

section \<open>Transcription\<close>

text \<open>
  The response's text is left out of the JSON when it is empty, and so is the error.
\<close>

definition transcribe_json :: "string \<Rightarrow> string \<Rightarrow> string" where
  "transcribe_json text err = json_print (JObj
     ((if text = [] then [] else [(''text'', JStr text)]) @ (if err = [] then [] else [(''error'', JStr err)]))) @ [CHR 0x0A]"

text \<open>
  A request and what each step of its handling gives: parsing the form, taking the file out,
  making a temporary directory, saving the file, the two programs by their arguments, and reading
  the transcript.
\<close>

record SttRequest =
  SttPost :: bool
  SttFormError :: "string option"
  SttFileError :: "string option"
  SttFileName :: string
  TempDir :: "string + string"
  SaveError :: "string option"
  SttWriteError :: "string option"
  Run :: "string list \<Rightarrow> string option"
  Transcript :: "string + string"

definition ffmpeg_command :: "string \<Rightarrow> string \<Rightarrow> string list" where
  "ffmpeg_command inputPath wavPath =
     [''ffmpeg'', ''-i'', inputPath, ''-y'', ''-ar'', ''16000'', ''-ac'', ''1'', ''-c:a'', ''pcm_s16le'', wavPath]"

definition whisper_command :: "string \<Rightarrow> string list" where
  "whisper_command wavPath = [''whisper-transcribe'', ''-f'', wavPath]"

definition input_path :: "string \<Rightarrow> string \<Rightarrow> string" where
  "input_path tmpDir name = tmpDir @ ''/'' @ Base name"

definition wav_path :: "string \<Rightarrow> string" where
  "wav_path tmpDir = tmpDir @ ''/audio.wav''"

definition stt_error :: "nat \<Rightarrow> string \<Rightarrow> nat \<times> string" where
  "stt_error status msg = (status, transcribe_json [] msg)"

text \<open>
  The steps within the temporary directory: the commands that were run, and the answer. Joining the
  directory and a base name other than \<open>.\<close>, \<open>..\<close> and \<open>/\<close> puts a slash between them;
  with those three the file cannot be created, being a directory.
\<close>

definition transcribe_in :: "SttRequest \<Rightarrow> string \<Rightarrow> string list list \<times> nat \<times> string" where
  "transcribe_in r tmpDir =
     (let inputPath = input_path tmpDir (SttFileName r); wavPath = wav_path tmpDir;
          ff = ffmpeg_command inputPath wavPath; ws = whisper_command wavPath
      in case SaveError r of
        Some err \<Rightarrow> ([], stt_error 500 (''failed to save upload: '' @ err))
      | None \<Rightarrow>
          (case SttWriteError r of
             Some err \<Rightarrow> ([], stt_error 500 (''failed to write upload: '' @ err))
           | None \<Rightarrow>
               (case Run r ff of
                  Some err \<Rightarrow> ([ff], stt_error 422 (''ffmpeg conversion failed: '' @ err))
                | None \<Rightarrow>
                    (case Run r ws of
                       Some err \<Rightarrow> ([ff, ws], stt_error 500 (''whisper failed: '' @ err))
                     | None \<Rightarrow>
                         (case Transcript r of
                            Inl err \<Rightarrow> ([ff, ws], stt_error 500 (''failed to read transcript: '' @ err))
                          | Inr content \<Rightarrow> ([ff, ws], 200, transcribe_json (TrimSpace content) []))))))"

text \<open>The temporary directories that exist travel along; the deferred removal ends every path.\<close>

definition handleTranscribe :: "SttRequest \<Rightarrow> string list \<Rightarrow> string list \<times> string list list \<times> nat \<times> string" where
  "handleTranscribe r dirs =
     (if \<not> SttPost r then (dirs, [], stt_error 405 ''POST required'')
      else case SttFormError r of
        Some err \<Rightarrow> (dirs, [], stt_error 400 (''invalid multipart form: '' @ err))
      | None \<Rightarrow>
          (case SttFileError r of
             Some err \<Rightarrow> (dirs, [], stt_error 400 (''missing '' @ [CHR 0x27] @ ''file'' @ [CHR 0x27] @ '' field: '' @ err))
           | None \<Rightarrow>
               (case TempDir r of
                  Inl err \<Rightarrow> (dirs, [], stt_error 500 (''failed to create temp dir: '' @ err))
                | Inr tmpDir \<Rightarrow>
                    (let dirs' = tmpDir # dirs; result = transcribe_in r tmpDir
                     in (filter (\<lambda>d. d \<noteq> tmpDir) dirs', result)))))"

section \<open>Synthesis\<close>

record SynthesizeRequest =
  Text :: string
  Voice :: string
  Format :: string

definition synthesize_fields :: "(string \<times> json) list \<Rightarrow> SynthesizeRequest option" where
  "synthesize_fields ms =
     Option.bind (dec_field ''text'' dec_string [] ms) (\<lambda>t.
     Option.bind (dec_field ''voice'' dec_string [] ms) (\<lambda>v.
     Option.bind (dec_field ''format'' dec_string [] ms) (\<lambda>f. Some \<lparr>Text = t, Voice = v, Format = f\<rparr>)))"

text \<open>The decoder takes the first value of the body and leaves the rest.\<close>

definition decode_synthesize :: "string \<Rightarrow> SynthesizeRequest option" where
  "decode_synthesize body = Option.bind (raw_value body) (\<lambda>(v, _). unmarshal_struct synthesize_fields v)"

definition formatToContentType :: "string \<Rightarrow> string" where
  "formatToContentType fmt =
     (if fmt = ''mp3'' then ''audio/mpeg'' else if fmt = ''wav'' then ''audio/wav''
      else if fmt = ''opus'' then ''audio/opus'' else [])"

definition truncate :: "string \<Rightarrow> nat \<Rightarrow> string" where
  "truncate s maxLen = (if length s \<le> maxLen then s else take maxLen s @ ''...'')"

definition backend_body :: "SynthesizeRequest \<Rightarrow> string" where
  "backend_body r = json_print (JObj
     [(''input'', JStr (Text r)), (''model'', JStr ''kokoro''), (''response_format'', JStr (Format r)), (''voice'', JStr (Voice r))])"

datatype Backend =
    BackendNoRequest string
  | BackendNoAnswer string
  | BackendAnswer nat string

text \<open>
  An answer: its status, content type and body. \<open>asked\<close> are the bodies posted to the backend,
  and \<open>logged\<close> the text of the log line.
\<close>

record SpeechAnswer =
  SpeechStatus :: nat
  ContentType :: string
  SpeechBody :: string

definition speech_error :: "nat \<Rightarrow> string \<Rightarrow> SpeechAnswer" where
  "speech_error status msg =
     \<lparr>SpeechStatus = status, ContentType = ''application/json'',
      SpeechBody = json_print (JObj [(''error'', JStr msg)]) @ [CHR 0x0A]\<rparr>"

definition with_defaults :: "SynthesizeRequest \<Rightarrow> SynthesizeRequest" where
  "with_defaults r =
     r\<lparr>Voice := (if Voice r = [] then ''af_bella'' else Voice r), Format := (if Format r = [] then ''mp3'' else Format r)\<rparr>"

definition handleSynthesize :: "(string \<Rightarrow> Backend) \<Rightarrow> bool \<Rightarrow> string \<Rightarrow> string list \<times> SpeechAnswer" where
  "handleSynthesize backend isPost body =
     (if \<not> isPost then ([], speech_error 405 ''POST required'')
      else case decode_synthesize body of
        None \<Rightarrow> ([], speech_error 400 ''invalid JSON'')
      | Some req0 \<Rightarrow>
          if Text req0 = [] then ([], speech_error 400 ''text field is required'')
          else
            (let req = with_defaults req0; contentType = formatToContentType (Format req); b = backend_body req in
             if contentType = []
             then ([], speech_error 400 (''unsupported format: '' @ Format req @ '' (use mp3, wav, or opus)''))
             else case backend b of
               BackendNoRequest err \<Rightarrow> ([], speech_error 500 (''failed to create backend request: '' @ err))
             | BackendNoAnswer err \<Rightarrow> ([b], speech_error 502 (''backend request failed: '' @ err))
             | BackendAnswer status answer \<Rightarrow>
                 ([b], if status \<noteq> 200 then speech_error 502 (''backend returned '' @ Itoa (int status) @ '': '' @ answer)
                       else \<lparr>SpeechStatus = 200, ContentType = contentType, SpeechBody = answer\<rparr>)))"

section \<open>Properties\<close>

text \<open>
  Transcription leaves no temporary directory behind, whatever step fails. It answers 200 only
  with the trimmed transcript of a run in which both programs succeeded, and both run only on
  paths of that directory; an upload named \<open>audio.wav\<close> is converted onto itself.
\<close>

theorem transcribe_cleans_up:
  assumes "handleTranscribe r dirs = (dirs', commands, status, body)"
    and "\<And>d. TempDir r = Inr d \<Longrightarrow> d \<notin> set dirs"
  shows "dirs' = dirs
    \<and> (status = 200 \<longrightarrow> (\<exists>d content. TempDir r = Inr d \<and> Transcript r = Inr content
         \<and> commands = [ffmpeg_command (input_path d (SttFileName r)) (wav_path d), whisper_command (wav_path d)]
         \<and> (\<forall>cmd \<in> set commands. Run r cmd = None) \<and> body = transcribe_json (TrimSpace content) []))
    \<and> (\<forall>d. TempDir r = Inr d \<and> Base (SttFileName r) = ''audio.wav'' \<longrightarrow>
         (\<forall>cmd \<in> set commands. cmd = whisper_command (wav_path d) \<or> cmd = ffmpeg_command (wav_path d) (wav_path d)))"
proof -
  have "dirs' = dirs"
    using assms by (auto simp: handleTranscribe_def Let_def filter_id_conv split: if_splits option.splits sum.splits)
  moreover have "status = 200 \<longrightarrow> (\<exists>d content. TempDir r = Inr d \<and> Transcript r = Inr content
         \<and> commands = [ffmpeg_command (input_path d (SttFileName r)) (wav_path d), whisper_command (wav_path d)]
         \<and> (\<forall>cmd \<in> set commands. Run r cmd = None) \<and> body = transcribe_json (TrimSpace content) [])"
    using assms(1)
    by (auto simp: handleTranscribe_def transcribe_in_def stt_error_def Let_def split: if_splits option.splits sum.splits)
  moreover have "cmd = whisper_command (wav_path d) \<or> cmd = ffmpeg_command (wav_path d) (wav_path d)"
    if "TempDir r = Inr d" "Base (SttFileName r) = ''audio.wav''" "cmd \<in> set commands" for d cmd
  proof -
    have "input_path d (SttFileName r) = wav_path d" using that(2) by (simp add: input_path_def wav_path_def)
    then show ?thesis using assms(1) that(1,3)
      by (auto simp: handleTranscribe_def transcribe_in_def Let_def split: if_splits option.splits sum.splits)
  qed
  ultimately show ?thesis by blast
qed

text \<open>
  The backend is asked exactly for what a client may have: a POST with a text in one of the three
  formats, once, with the defaults put in. The answer is the backend's, under the content type of
  the format, exactly when the backend answered 200; any other outcome is an error.
\<close>

theorem synthesize_gated:
  assumes "handleSynthesize backend isPost body = (asked, answer)"
  shows "(\<forall>b \<in> set asked. \<exists>req. isPost \<and> decode_synthesize body = Some req \<and> Text req \<noteq> []
       \<and> Format (with_defaults req) \<in> {''mp3'', ''wav'', ''opus''} \<and> b = backend_body (with_defaults req))
    \<and> length asked \<le> 1
    \<and> (\<forall>req. isPost \<and> decode_synthesize body = Some req \<and> Text req \<noteq> []
         \<and> Format (with_defaults req) \<in> {''mp3'', ''wav'', ''opus''}
         \<and> (\<forall>err. backend (backend_body (with_defaults req)) \<noteq> BackendNoRequest err)
         \<longrightarrow> asked = [backend_body (with_defaults req)])
    \<and> (SpeechStatus answer = 200 \<longrightarrow> (\<exists>b. asked = [b] \<and> backend b = BackendAnswer 200 (SpeechBody answer)))
    \<and> (\<forall>b a. asked = [b] \<and> backend b = BackendAnswer 200 a \<longrightarrow> SpeechStatus answer = 200 \<and> SpeechBody answer = a)
    \<and> (SpeechStatus answer = 200 \<longrightarrow> (\<exists>req. decode_synthesize body = Some req
         \<and> ContentType answer = formatToContentType (Format (with_defaults req))))
    \<and> (SpeechStatus answer \<noteq> 200 \<longrightarrow> SpeechStatus answer \<ge> 400 \<and> ContentType answer = ''application/json'')"
proof (cases "decode_synthesize body")
  case None
  then show ?thesis using assms by (auto simp: handleSynthesize_def speech_error_def split: if_splits)
next
  case (Some req)
  have f: "formatToContentType x \<noteq> [] \<longleftrightarrow> x \<in> {''mp3'', ''wav'', ''opus''}" for x
    by (auto simp: formatToContentType_def)
  have known: "formatToContentType ''mp3'' \<noteq> []" "formatToContentType ''wav'' \<noteq> []" "formatToContentType ''opus'' \<noteq> []"
    by code_simp+
  show ?thesis
  proof (cases "isPost \<and> Text req \<noteq> [] \<and> formatToContentType (Format (with_defaults req)) \<noteq> []")
    case False
    then show ?thesis using assms Some
      by (auto simp: handleSynthesize_def speech_error_def known Let_def split: if_splits)
  next
    case True
    then have h: "handleSynthesize backend isPost body = (case backend (backend_body (with_defaults req)) of
        BackendNoRequest err \<Rightarrow> ([], speech_error 500 (''failed to create backend request: '' @ err))
      | BackendNoAnswer err \<Rightarrow> ([backend_body (with_defaults req)], speech_error 502 (''backend request failed: '' @ err))
      | BackendAnswer status a \<Rightarrow> ([backend_body (with_defaults req)],
          if status \<noteq> 200 then speech_error 502 (''backend returned '' @ Itoa (int status) @ '': '' @ a)
          else \<lparr>SpeechStatus = 200, ContentType = formatToContentType (Format (with_defaults req)), SpeechBody = a\<rparr>))"
      using Some by (simp add: handleSynthesize_def Let_def)
    have ok: "isPost" "Text req \<noteq> []" "Format (with_defaults req) \<in> {''mp3'', ''wav'', ''opus''}"
      using True f by blast+
    show ?thesis using assms Some ok unfolding h
      by (cases "backend (backend_body (with_defaults req))") (auto simp: speech_error_def split: if_splits)
  qed
qed

definition demo_stt :: SttRequest where
  "demo_stt = \<lparr>SttPost = True, SttFormError = None, SttFileError = None, SttFileName = ''a/b.ogg'', TempDir = Inr ''/tmp/stt-1'',
     SaveError = None, SttWriteError = None, Run = (\<lambda>cmd. if hd cmd = ''ffmpeg'' then None else Some ''exit 1''),
     Transcript = Inl ''none''\<rparr>"

theorem transcribe_cleans_up_witness:
  "fst (handleTranscribe demo_stt [''/tmp/other'']) = [''/tmp/other'']
    \<and> fst (snd (snd (handleTranscribe demo_stt [''/tmp/other'']))) = 500"
proof -
  obtain dirs' commands status body where r: "handleTranscribe demo_stt [''/tmp/other''] = (dirs', commands, status, body)"
    by (metis surj_pair)
  have "d \<notin> set [''/tmp/other'']" if "TempDir demo_stt = Inr d" for d using that by (auto simp: demo_stt_def)
  from transcribe_cleans_up [OF r this] have "dirs' = [''/tmp/other'']" by blast
  moreover have "fst (snd (snd (handleTranscribe demo_stt [''/tmp/other'']))) = 500" by code_simp
  ultimately show ?thesis using r by simp
qed

theorem synthesize_gated_witness:
  "\<exists>asked answer. handleSynthesize (\<lambda>_. BackendAnswer 200 ''sound'') True (js ''{~text~:~hi~,~format~:~wav~} rest'') = (asked, answer)
     \<and> length asked \<le> 1 \<and> ContentType answer = ''audio/wav''"
proof -
  let ?h = "handleSynthesize (\<lambda>_. BackendAnswer 200 ''sound'') True (js ''{~text~:~hi~,~format~:~wav~} rest'')"
  obtain asked answer where r: "?h = (asked, answer)" by (cases ?h)
  have "ContentType (snd ?h) = ''audio/wav''" by code_simp
  moreover have "length asked \<le> 1" using synthesize_gated [OF r] by blast
  ultimately show ?thesis using r by simp
qed

end
