(* ===== verification/Spec2Isabelle.thy ===== *)
theory Spec2Isabelle
  imports Provider_Host Callback_Delivery Git_Token_Call Attic_Provider Pocket_ID Lan_IP Notify
    Overlay_Main Overlay_Registry Cert_Check Provisioner_Files Provisioner_Protocol Identity_Main Fort_Tokens
    Emergency_Reboot Sse_Probe File_Upload Speech
begin

text \<open>
  A verification of the Go programs of the repository \<open>fort-nix\<close>: the agents, providers and
  small services that run on the hosts of a home cluster. The Nix expressions around them only
  install and configure them and are not modelled.

  \<^bold>\<open>The programs and how they interact.\<close>
  Every host runs \<open>fort-provider\<close> (\<open>src/pkgs/fort-provider/main.go\<close>). A host that needs
  something (a git token, an OIDC client, the configuration of the binary cache) sends a signed
  request to the \<open>fort-provider\<close> of the host that provides it. The program checks the
  signature, the clock and the access list, records the request in its provider state, runs the
  handler of the capability on all requests it holds, stores the responses, and sends each response
  that changed to the requester's \<open>fort-provider\<close> by a callback, which runs the requester's
  own handler of the need. A timer collects requests no longer declared and rotates responses near
  their expiry. The handlers are programs of their own: \<open>src/apps/forgejo/provider\<close>,
  \<open>src/apps/attic/provider\<close>, \<open>src/apps/pocket-id/provider\<close>,
  \<open>src/apps/homeassistant/provider\<close>, \<open>src/aspects/mesh/provider\<close>. Beside these:
  \<open>fort-overlay-manager\<close> activates the packages that \<open>overlay-registry\<close> announces;
  \<open>provisioner\<close> installs new hosts; \<open>identity-proxy\<close> and \<open>fort-tokens\<close> say who
  a request is from; \<open>fort-certcheck\<close>, \<open>emergency-reboot\<close>, \<open>sse-probe\<close>,
  \<open>fort-upload\<close>, \<open>stt\<close> and \<open>tts\<close> stand alone.

  \<^bold>\<open>The theories, bottom up.\<close> Each opens with its own summary; the definitions carry the names
  of the functions and types they model, in the order of the source.

  \<^item> \<open>Prelude\<close>: Go maps as association lists with distinct keys, where the order of the list is
    the order in which a \<open>range\<close> loop happens to run, so that what holds for every list holds
    for every order; folds that write a map; options; the collections \<open>gomap\<close> and \<open>go_str\<close>.
  \<^item> \<open>Go_Std\<close>, \<open>Go_Encoding\<close>, \<open>Go_Time\<close>, \<open>Go_OS\<close>: what the programs use of \<open>strings\<close>,
    \<open>strconv\<close>, \<open>path\<close>, \<open>encoding/hex\<close>, \<open>encoding/base64\<close>, \<open>time\<close> and
    \<open>os/exec\<close>, with the wrap-around of 64-bit integers written out.
  \<^item> \<open>Json\<close>, \<open>Json_Decode\<close>, \<open>Json_Text\<close>, \<open>Json_Compact\<close>, \<open>Json_Number\<close>:
    \<open>encoding/json\<close> on bytes. The parser, decoding into structs, slices and \<open>interface{}\<close>,
    quoting and printing. Lemmas: the parser reads back what is printed; compacting a raw message
    keeps the value it stands for and compacting twice is compacting once; integers below
    \<open>2 ^ 53\<close> survive the float64 detour.
  \<^item> \<open>Signed_Token\<close>: records that are printed and read back as JSON, and the form
    \<open>payload.mac\<close> that cookies, bearer tokens and token files share.
  \<^item> \<open>Provider_State\<close>, \<open>Provider_Auth\<close>, \<open>Response_Loop\<close>, \<open>Provider_Async\<close>,
    \<open>Provider_Calls\<close>, \<open>Provider_GC\<close>, \<open>Provider_Serve\<close>, \<open>State_File\<close>,
    \<open>Provider_Invariant\<close>, \<open>Provider_Host\<close>: the program \<open>fort-provider\<close>. The record
    \<open>Agent\<close> is \<open>AgentHandler\<close> with the files it owns; \<open>serveHTTP\<close>, \<open>runGC\<close>,
    \<open>runTrigger\<close> and \<open>NewAgentHandler\<close> are whole handlers that return the new agent, the answer
    and the callbacks in the order they are sent. \<open>Provider_Host\<close> puts the processes that share
    \<open>provider-state.json\<close> on one host together, as a sequence of events.
  \<^item> \<open>Handler_Wire\<close>, \<open>Symmetric_Handler\<close>: the JSON between \<open>fort-provider\<close> and a handler,
    and what all handlers share; then \<open>Forgejo_Provider\<close>, \<open>Attic_Provider\<close>,
    \<open>Pocket_ID\<close>, \<open>Notify\<close>, \<open>Lan_IP\<close>, one for each handler.
  \<^item> \<open>Callback_Delivery\<close>, \<open>Git_Token_Call\<close>: two runs across components, from the request on
    one host to the effect on another.
  \<^item> \<open>Overlay_State\<close>, \<open>Overlay_Order\<close>, \<open>Overlay_Units\<close>, \<open>Overlay_Health\<close>,
    \<open>Overlay_Activate\<close>, \<open>Overlay_Main\<close>: \<open>src/pkgs/fort-overlay-manager/main.go\<close>, from the
    state directory of an overlay to sequences of command lines; \<open>Overlay_Registry\<close>:
    \<open>src/apps/overlay-registry/main.go\<close>.
  \<^item> \<open>Provisioner\<close>, \<open>Provisioner_Protocol\<close>, \<open>Provisioner_Files\<close>:
    \<open>src/pkgs/provisioner/main.go\<close>: the handlers, the protocol of phases they refine, and
    \<open>atomicWrite\<close> system call by system call.
  \<^item> \<open>Identity_Proxy\<close>, \<open>Identity_Main\<close>: \<open>src/pkgs/identity-proxy/main.go\<close>;
    \<open>Fort_Tokens\<close>: \<open>src/pkgs/fort-tokens/main.go\<close> and the validator
    \<open>src/common/fort/token-validator.js\<close>.
  \<^item> \<open>Cert_Check\<close>, \<open>Emergency_Reboot\<close>, \<open>Sse_Probe\<close>, \<open>File_Upload\<close>, \<open>Speech\<close>: the
    programs that stand alone.

  \<^bold>\<open>The interfaces.\<close> Four locales state what one part promises another, and each is
  interpreted on the model of the code.

  \<^item> \<open>response_loop\<close>: storing a response under one key leaves the other keys alone. Interpreted
    on the loops of \<open>executeAsyncHandler\<close>, \<open>runTrigger\<close> and \<open>invokeHandlerForGC\<close>.
  \<^item> \<open>symmetric_handler\<close>: a handler answers every key once and echoes its request. Interpreted
    on the Forgejo, Attic and Pocket ID providers.
  \<^item> \<open>json_codec\<close>: a record survives printing and reading. Interpreted on session cookies, stored
    git tokens, notifications and OIDC responses.
  \<^item> \<open>provider_invariant\<close>: what a property of the provider state needs so that it survives every
    request, trigger, collection, save and restart of a host, given what is expected of the handlers
    that run. Interpreted on the statement that every stored request was made by its origin, and on
    the statement that every stored response was printed by the handler of its capability.

  \<^bold>\<open>What the theorems show.\<close> Access: a request is either admitted and gets the answer and
  the effects of its capability, or is a callback of the declared provider and records a verdict, or
  gets an error that no handler has a part in; what is admitted is signed, fresh and allowed
  (\<open>Provider_Auth\<close>, \<open>Provider_Serve\<close>); the identity headers, the cookies, the bearer tokens
  and the reboot packets are sound (\<open>Identity_Proxy\<close>, \<open>Fort_Tokens\<close>,
  \<open>Emergency_Reboot\<close>). State: the exact state and callbacks after a call, a trigger run and a
  collection, where requests and responses come from over every sequence of events on a host, the
  start of the server on the file it saved.
  Delivery: a call ends in a fulfilled need, and a git token call ends in a token. Overlays: the
  order respects dependencies, an activation ends in one of three described states, only versions
  that passed their check become current, a later check leaves a failed version alone exactly until its
  backoff is over, a boot does exactly what is listed. Leases: one
  claim for each arming, the protocol as a refinement, the atomicity of the state file. Monitoring: the
  gaps that are reported are the messages that were lost, in every interleaving.
  Theorems that state a fault of the code (a malformed request that poisons the state, updates that
  concurrent runs lose, clients deleted for a malformed request, a claim or a preparation that is
  stranded) say what the code does, not what it should do.

  \<^bold>\<open>Fuel and bounds.\<close> \<open>json_parse\<close> recurses on the fuel \<open>json_fuel\<close>, twice the length of its text and two: every call
  reads a byte or follows one that does (what is printed is read back with it, \<open>Json_Text\<close>); \<open>encoding/json\<close> itself refuses texts nested deeper than
  10000, which is not modelled. The search of \<open>orderedOverlays\<close> has one unit of fuel for each overlay and one
  more: every descent marks an overlay, and more fuel changes nothing (\<open>visit_fuel\<close>). The loops on
  durations and health checks have termination proofs. The page loop of \<open>GetAllClients\<close> may run
  for ever and is a \<open>partial_function\<close>: its result is proved for a server that announces the
  end, its divergence for one that does not.

  \<^bold>\<open>Parameters and assumptions.\<close> Programs and libraries that are not in the repository are
  arguments of the definitions: the handler scripts, \<open>ssh-keygen\<close>, \<open>nix\<close>,
  \<open>systemctl\<close>, \<open>forgejo\<close>, \<open>sqlite3\<close>, \<open>attic\<close>, \<open>ffmpeg\<close>, \<open>whisper\<close>,
  HMAC and SHA-256, X.509 and PEM, OAuth and OIDC, TOML, the VPN daemon, the REST server of
  Pocket ID. The clock is a value that each step gets. A hypothesis on any of them is named in the theorem that
  uses it. Beyond that: a write of a file succeeds as a whole or leaves the old file, except in
  \<open>Provisioner_Files\<close>, where the calls of a write are separate steps; texts are valid UTF-8 (the
  replacement of broken bytes is modelled only for surrogates); a corrupt file is one that is not
  valid JSON of its type; a run of \<open>--trigger\<close> or \<open>--gc\<close> is one step between two requests;
  requests are served one at a time (the other servers guard the memory they share with a lock, but
  \<open>fort-provider\<close> has none: \<open>fcgi.Serve\<close> and \<open>http.Server\<close> may run its handler on several requests
  at once, and what such a race does is not modelled); the two readings of the clock in \<open>activate\<close> of
  \<open>provisioner\<close> are one value; a JSON file that a program alone reads and writes (the provider state, the
  data of the registry, the state of an overlay) stands for its value, with raw messages in it in compact form;
  \<open>strings.TrimSpace\<close>, \<open>strings.ToLower\<close> and the folding of the names of JSON fields act on ASCII
  letters and spaces alone; conversions of floats to integers are
  those of amd64; the name of a host has no slash where it becomes part of a file name.

  \<^bold>\<open>Not modelled.\<close> The listeners, signals, flags and routing tables of the \<open>main\<close> functions; the
  HTML pages and the security headers; debug logs; the indentation of the files that are written;
  the ticker that prints the statistics of \<open>sse-probe\<close>; the set-up of the database of
  \<open>fort-tokens\<close>; the shell script \<open>fort\<close> of \<open>src/pkgs/fort/default.nix\<close>, whose behaviour is a
  hypothesis in \<open>Callback_Delivery\<close>; the tests and the Nix modules.
\<close>

end
